(* ===== verification/Prelude.thy ===== *)
theory Prelude
  imports Main "HOL-Library.Char_ord"
begin

text \<open>
  Shared vocabulary of the development: the fact collections the component theories feed, the
  state-and-error computations in which every effectful Go function is written, and the parts of
  the Go standard library on strings and integers that the sources call
  (\<^verbatim>\<open>strings.TrimSpace\<close>, \<^verbatim>\<open>strings.ToLower\<close>, \<^verbatim>\<open>strconv.Itoa\<close>, \<^verbatim>\<open>strconv.Atoi\<close>,
  \<^verbatim>\<open>time.Duration\<close> arithmetic), with the lemmas about them that more than one component uses.
  Strings are byte sequences; case mapping and white space are those of ASCII, the path Go takes
  when no byte is above 127, and other bytes are left as they are.
\<close>

named_theorems step_simps \<open>unfolding equations of the effectful operations\<close>
named_theorems frame \<open>what an operation leaves unchanged\<close>

section \<open>Computations with state and failure\<close>

text \<open>
  A Go function that may fail and touches the outside world is a function from a world to either
  an error or a value, and the world it leaves behind. \<open>attempt\<close> is the idiom
  \<^verbatim>\<open>x, err := m(); if err != nil { h } ; k\<close>.
\<close>

type_synonym ('w, 'e, 'a) io = "'w \<Rightarrow> ('e + 'a) \<times> 'w"

definition return :: "'a \<Rightarrow> ('w, 'e, 'a) io" where
  "return x w = (Inr x, w)"

definition fail :: "'e \<Rightarrow> ('w, 'e, 'a) io" where
  "fail e w = (Inl e, w)"

definition attempt :: "('w, 'e, 'a) io \<Rightarrow> ('e \<Rightarrow> ('w, 'f, 'b) io) \<Rightarrow> ('a \<Rightarrow> ('w, 'f, 'b) io) \<Rightarrow> ('w, 'f, 'b) io" where
  "attempt m h k w = (case m w of (Inl e, w') \<Rightarrow> h e w' | (Inr x, w') \<Rightarrow> k x w')"

definition perform :: "('w \<Rightarrow> 'w) \<Rightarrow> ('w, 'e, 'a) io \<Rightarrow> ('w, 'e, 'a) io" where
  "perform f m w = m (f w)"

definition finally_do :: "('w, 'e, 'a) io \<Rightarrow> ('e + 'a \<Rightarrow> 'w \<Rightarrow> 'w) \<Rightarrow> ('w, 'e, 'a) io" where
  "finally_do m d w = (case m w of (r, w') \<Rightarrow> (r, d r w'))"

lemma return_apply [simp]: "return x w = (Inr x, w)"
  by (simp add: return_def)

lemma fail_apply [simp]: "fail e w = (Inl e, w)"
  by (simp add: fail_def)

lemma perform_apply [simp]: "perform f m w = m (f w)"
  by (simp add: perform_def)

lemma attempt_Inl [simp]: "m w = (Inl e, w') \<Longrightarrow> attempt m h k w = h e w'"
  by (simp add: attempt_def)

lemma attempt_Inr [simp]: "m w = (Inr x, w') \<Longrightarrow> attempt m h k w = k x w'"
  by (simp add: attempt_def)

lemma attempt_cases:
  assumes "attempt m h k w = r"
  obtains (err) e w' where "m w = (Inl e, w')" "h e w' = r"
    | (ok) x w' where "m w = (Inr x, w')" "k x w' = r"
proof (cases "m w")
  case (Pair res w')
  then show thesis
    using assms that by (cases res) (auto simp: attempt_def)
qed

lemma attempt_fail_Inr:
  assumes "attempt m (\<lambda>e. fail (h e)) k w = (Inr y, w'')"
  obtains x w' where "m w = (Inr x, w')" "k x w' = (Inr y, w'')"
  using assms by (rule attempt_cases) auto

lemma finally_do_fst [simp]: "fst (finally_do m d w) = fst (m w)"
  by (simp add: finally_do_def split: prod.split)

lemma finally_do_snd [simp]: "snd (finally_do m d w) = d (fst (m w)) (snd (m w))"
  by (simp add: finally_do_def split: prod.split)

lemma finally_do_eq:
  "finally_do m d w = (r, w'') \<longleftrightarrow> (\<exists>w'. m w = (r, w') \<and> w'' = d r w')"
  by (auto simp: finally_do_def split: prod.split)

section \<open>Sums and options\<close>

abbreviation is_ok :: "'e + 'a \<Rightarrow> bool" where
  "is_ok r \<equiv> \<not> isl r"

definition err_of :: "'e + 'a \<Rightarrow> 'e option" where
  "err_of r = (case r of Inl e \<Rightarrow> Some e | Inr _ \<Rightarrow> None)"

lemma err_of_simps [simp]: "err_of (Inl e) = Some e" "err_of (Inr x) = None"
  by (simp_all add: err_of_def)

section \<open>Go strings\<close>

definition is_space :: "char \<Rightarrow> bool" where
  "is_space c \<longleftrightarrow> c \<in> {CHR 0x09, CHR 0x0A, CHR 0x0B, CHR 0x0C, CHR 0x0D, CHR '' ''}"

definition TrimSpace :: "string \<Rightarrow> string" where
  "TrimSpace s = rev (dropWhile is_space (rev (dropWhile is_space s)))"

definition lower_char :: "char \<Rightarrow> char" where
  "lower_char c = (if CHR ''A'' \<le> c \<and> c \<le> CHR ''Z'' then char_of (of_char c + (32::nat)) else c)"

definition upper_char :: "char \<Rightarrow> char" where
  "upper_char c = (if CHR ''a'' \<le> c \<and> c \<le> CHR ''z'' then char_of (of_char c - (32::nat)) else c)"

definition ToLower :: "string \<Rightarrow> string" where
  "ToLower s = map lower_char s"

definition ToUpper :: "string \<Rightarrow> string" where
  "ToUpper s = map upper_char s"

definition HasPrefix :: "string \<Rightarrow> string \<Rightarrow> bool" where
  "HasPrefix s p \<longleftrightarrow> take (length p) s = p"

definition TrimPrefix :: "string \<Rightarrow> string \<Rightarrow> string" where
  "TrimPrefix s p = (if HasPrefix s p then drop (length p) s else s)"

definition TrimRightChar :: "string \<Rightarrow> char \<Rightarrow> string" where
  "TrimRightChar s c = rev (dropWhile (\<lambda>x. x = c) (rev s))"

definition EqualFold :: "string \<Rightarrow> string \<Rightarrow> bool" where
  "EqualFold s t \<longleftrightarrow> ToLower s = ToLower t"

fun Split :: "string \<Rightarrow> char \<Rightarrow> string list" where
  "Split [] sep = [[]]"
| "Split (c # cs) sep =
     (if c = sep then [] # Split cs sep
      else (case Split cs sep of [] \<Rightarrow> [[c]] | x # xs \<Rightarrow> (c # x) # xs))"

fun join_strings :: "string \<Rightarrow> string list \<Rightarrow> string" where
  "join_strings sep [] = []"
| "join_strings sep [x] = x"
| "join_strings sep (x # y # ys) = x @ sep @ join_strings sep (y # ys)"

lemma dropWhile_rev_idem:
  "dropWhile P (rev (dropWhile P (rev (dropWhile P xs)))) = rev (dropWhile P (rev (dropWhile P xs)))"
proof (cases "dropWhile P xs")
  case (Cons y ys)
  then have "\<not> P y"
    by (metis dropWhile_eq_Cons_conv)
  let ?zs = "rev (dropWhile P (rev (y # ys)))"
  have "?zs = y # rev (dropWhile P (rev ys)) \<or> ?zs = y # ys"
    using \<open>\<not> P y\<close> by (cases "\<exists>x\<in>set (rev ys). \<not> P x") (auto simp: dropWhile_append)
  then show ?thesis
    using Cons \<open>\<not> P y\<close> by auto
next
  case Nil
  then show ?thesis
    by (simp only: rev.simps dropWhile.simps)
qed

lemma TrimSpace_idem [simp]: "TrimSpace (TrimSpace s) = TrimSpace s"
  by (simp add: TrimSpace_def dropWhile_rev_idem)

lemma TrimSpace_Nil [simp]: "TrimSpace [] = []"
  by (simp add: TrimSpace_def)

lemma of_char_lower: "CHR ''A'' \<le> c \<Longrightarrow> c \<le> CHR ''Z'' \<Longrightarrow> of_char (lower_char c) = of_char c + (32::nat)"
  by (simp add: lower_char_def less_eq_char_def)

lemma lower_char_idem [simp]: "lower_char (lower_char c) = lower_char c"
  by (cases "CHR ''A'' \<le> c \<and> c \<le> CHR ''Z''") (auto simp: lower_char_def less_eq_char_def)

lemma is_space_code: "is_space c \<longleftrightarrow> of_char c \<in> {9, 10, 11, 12, 13, 32::nat}"
  unfolding is_space_def by (simp flip: of_char_eq_iff [where 'a = nat])

lemma is_space_lower [simp]: "is_space (lower_char c) = is_space c"
  by (cases "CHR ''A'' \<le> c \<and> c \<le> CHR ''Z''") (auto simp: is_space_code lower_char_def less_eq_char_def)

lemma ToLower_idem [simp]: "ToLower (ToLower s) = ToLower s"
  by (simp add: ToLower_def)

lemma ToLower_Nil_iff [simp]: "ToLower s = [] \<longleftrightarrow> s = []"
  by (simp add: ToLower_def)

lemma TrimSpace_ToLower: "TrimSpace (ToLower s) = ToLower (TrimSpace s)"
  by (simp add: TrimSpace_def ToLower_def dropWhile_map o_def rev_map)

section \<open>Decimal integers\<close>

definition digit_char :: "nat \<Rightarrow> char" where
  "digit_char n = char_of (48 + n)"

definition is_digit :: "char \<Rightarrow> bool" where
  "is_digit c \<longleftrightarrow> CHR ''0'' \<le> c \<and> c \<le> CHR ''9''"

definition digit_value :: "char \<Rightarrow> nat" where
  "digit_value c = of_char c - 48"

fun nat_digits :: "nat \<Rightarrow> string" where
  "nat_digits n = (if n < 10 then [digit_char n] else nat_digits (n div 10) @ [digit_char (n mod 10)])"

declare nat_digits.simps [simp del]

definition Itoa :: "int \<Rightarrow> string" where
  "Itoa i = (if i < 0 then CHR ''-'' # nat_digits (nat (- i)) else nat_digits (nat i))"

definition digits_value :: "string \<Rightarrow> nat" where
  "digits_value s = foldl (\<lambda>a c. a * 10 + digit_value c) 0 s"

definition int64_range :: "int \<Rightarrow> bool" where
  "int64_range i \<longleftrightarrow> - (2 ^ 63) \<le> i \<and> i < 2 ^ 63"

definition Atoi :: "string \<Rightarrow> int option" where
  "Atoi s =
     (let (neg, ds) = (case s of [] \<Rightarrow> (False, []) | c # cs \<Rightarrow>
            if c = CHR ''-'' then (True, cs) else if c = CHR ''+'' then (False, cs) else (False, s));
          i = (if neg then - int (digits_value ds) else int (digits_value ds))
      in if ds \<noteq> [] \<and> list_all is_digit ds \<and> int64_range i then Some i else None)"

lemma digit_char_props:
  assumes "n < 10"
  shows "is_digit (digit_char n)" "digit_value (digit_char n) = n"
    "digit_char n \<noteq> CHR ''-''" "digit_char n \<noteq> CHR ''+''"
proof -
  have code: "of_char (digit_char n) = 48 + n"
    using assms by (simp add: digit_char_def)
  then show "is_digit (digit_char n)" "digit_value (digit_char n) = n"
    using assms by (simp_all add: is_digit_def digit_value_def less_eq_char_def)
  show "digit_char n \<noteq> CHR ''-''" "digit_char n \<noteq> CHR ''+''"
    using code by (auto simp flip: of_char_eq_iff [where 'a = nat])
qed

lemma nat_digits_props: "nat_digits n \<noteq> [] \<and> list_all is_digit (nat_digits n) \<and> digits_value (nat_digits n) = n"
proof (induction n rule: nat_digits.induct)
  case (1 n)
  show ?case
    by (cases "n < 10")
      (use 1 in \<open>auto simp: nat_digits.simps [of n] digit_char_props digits_value_def\<close>)
qed

lemma nat_digits_hd: "hd (nat_digits n) \<noteq> CHR ''-'' \<and> hd (nat_digits n) \<noteq> CHR ''+''"
proof (induction n rule: nat_digits.induct)
  case (1 n)
  then show ?case
    by (cases "n < 10") (auto simp: nat_digits.simps [of n] digit_char_props nat_digits_props)
qed

theorem Atoi_Itoa:
  assumes "int64_range i"
  shows "Atoi (Itoa i) = Some i"
proof (cases "i < 0")
  case True
  then show ?thesis
    using assms nat_digits_props [of "nat (- i)"] by (simp add: Atoi_def Itoa_def)
next
  case False
  obtain c cs where digits: "nat_digits (nat i) = c # cs"
    using nat_digits_props [of "nat i"] by (cases "nat_digits (nat i)") auto
  then have "c \<noteq> CHR ''-''" "c \<noteq> CHR ''+''"
    using nat_digits_hd [of "nat i"] by auto
  then show ?thesis
    using False assms digits nat_digits_props [of "nat i"] by (auto simp: Atoi_def Itoa_def)
qed

lemma nat_digits_inj: "nat_digits m = nat_digits n \<Longrightarrow> m = n"
  using nat_digits_props by metis

theorem Itoa_inj: "Itoa i = Itoa j \<Longrightarrow> i = j"
proof -
  have "hd (Itoa k) = CHR ''-'' \<longleftrightarrow> k < 0" for k
    using nat_digits_hd by (simp add: Itoa_def)
  then have "Itoa i = Itoa j \<Longrightarrow> (i < 0) = (j < 0)"
    by metis
  then show "Itoa i = Itoa j \<Longrightarrow> i = j"
    by (cases "i < 0") (auto simp: Itoa_def dest: nat_digits_inj)
qed

section \<open>Durations\<close>

text \<open>
  \<^verbatim>\<open>time.Duration\<close> counts nanoseconds; its conversions truncate towards zero as Go's integer
  division does.
\<close>

type_synonym duration = int

abbreviation (input) Nanosecond :: duration where "Nanosecond \<equiv> 1"
abbreviation (input) Millisecond :: duration where "Millisecond \<equiv> 1000000"
abbreviation (input) Second :: duration where "Second \<equiv> 1000000000"
abbreviation (input) Minute :: duration where "Minute \<equiv> 60000000000"
abbreviation (input) Hour :: duration where "Hour \<equiv> 3600000000000"

definition quot_trunc :: "int \<Rightarrow> int \<Rightarrow> int" where
  "quot_trunc a b = (if 0 \<le> a then a div b else - ((- a) div b))"

definition Milliseconds :: "duration \<Rightarrow> int" where
  "Milliseconds d = quot_trunc d Millisecond"

lemma Milliseconds_pos_iff: "0 < Milliseconds d \<longleftrightarrow> Millisecond \<le> d"
  by (simp add: Milliseconds_def quot_trunc_def) linarith

lemma Milliseconds_mult [simp]: "Milliseconds (n * Millisecond) = n"
proof -
  have "- (n * Millisecond) div Millisecond = - n"
    by (simp flip: mult_minus_left)
  then show ?thesis
    by (simp add: Milliseconds_def quot_trunc_def)
qed

end
