(* ===== verification/Go_Errors.thy ===== *)
theory Go_Errors
  imports Prelude "HOL-Library.AList" "HOL-Library.Word"
begin

text \<open>
  Go error values and the application error type: \<^verbatim>\<open>internal/apperr\<close>,
  \<^verbatim>\<open>internal/util/errutil\<close>, the sentinels of \<^verbatim>\<open>internal/repository\<close>, the cause chain of
  \<^verbatim>\<open>internal/observability/error.go\<close> and the client-error test of the tracer. An error is the
  tree that \<^verbatim>\<open>errors.Is\<close> and \<^verbatim>\<open>errors.As\<close> walk: wrapping with \<^verbatim>\<open>%w\<close> and
  \<^verbatim>\<open>apperr.Wrap\<close> adds one child, \<^verbatim>\<open>errors.Join\<close> several.
\<close>

section \<open>Values of a field map\<close>

text \<open>
  The dynamic types that the attribute conversions of the telemetry adapters distinguish. An error
  stored in a field is represented by its text, the only part of it those conversions read.
\<close>

datatype any =
    AString string
  | ABool bool
  | AInt int
  | AInt32 int
  | AInt64 int
  | AUint "64 word"
  | AUint32 "32 word"
  | AUint64 "64 word"
  | AFloat32 string
  | AFloat64 string
  | ATime string
  | AError string
  | AOther string

text \<open>
  A Go map from strings: \<open>None\<close> is the nil map, on which a lookup misses and an insertion panics;
  otherwise the entries, one per key.
\<close>

type_synonym fields = "(string \<times> any) list option"

definition lookup_field :: "fields \<Rightarrow> string \<Rightarrow> any option" where
  "lookup_field f k = (case f of None \<Rightarrow> None | Some m \<Rightarrow> map_of m k)"

definition len_fields :: "fields \<Rightarrow> nat" where
  "len_fields f = (case f of None \<Rightarrow> 0 | Some m \<Rightarrow> length m)"

lemma lookup_field_simps [simp]: "lookup_field None k = None" "lookup_field (Some m) k = map_of m k"
  by (simp_all add: lookup_field_def)

lemma len_fields_simps [simp]: "len_fields None = 0" "len_fields (Some m) = length m"
  by (simp_all add: len_fields_def)

section \<open>Error values\<close>

datatype sentinel =
    ContextCanceled
  | ContextDeadlineExceeded
  | ErrNotFound
  | ErrDuplicateKey
  | ErrForeignKey
  | ErrValueTooLong
  | ErrDataException
  | ErrOTPNotFound
  | ErrSessionNotFound
  | RedisNil
  | PgxErrNoRows
  | IoEOF
  | HttpErrServerClosed
  | HttpErrAbortHandler
  | GrpcErrServerStopped
  | FsErrNotExist

type_synonym code = string

abbreviation CodeInvalidArgument :: code where "CodeInvalidArgument \<equiv> ''INVALID_ARGUMENT''"
abbreviation CodeUnauthorized :: code where "CodeUnauthorized \<equiv> ''UNAUTHORIZED''"
abbreviation CodeForbidden :: code where "CodeForbidden \<equiv> ''FORBIDDEN''"
abbreviation CodeNotFound :: code where "CodeNotFound \<equiv> ''NOT_FOUND''"
abbreviation CodeConflict :: code where "CodeConflict \<equiv> ''CONFLICT''"
abbreviation CodeTooManyRequests :: code where "CodeTooManyRequests \<equiv> ''TOO_MANY_REQUESTS''"
abbreviation CodeUnavailable :: code where "CodeUnavailable \<equiv> ''UNAVAILABLE''"
abbreviation CodeTimeout :: code where "CodeTimeout \<equiv> ''TIMEOUT''"
abbreviation CodeInternal :: code where "CodeInternal \<equiv> ''INTERNAL''"

datatype 'e app_error =
  AppError (Code: code) (Message: string) (Details: fields) (Cause: "'e option")

text \<open>
  \<open>Errorf p e\<close> is \<^verbatim>\<open>fmt.Errorf("p: %w", e)\<close>; \<open>Msg\<close> an error made at the call site
  that wraps nothing; \<open>Pg\<close> a \<^verbatim>\<open>*pgconn.PgError\<close> with its SQLSTATE and text; \<open>Response\<close>
  the \<^verbatim>\<open>responseError\<close> of the gRPC responder; \<open>External\<close> an error of another third-party
  package.
\<close>

datatype error =
    Sentinel sentinel
  | Msg string
  | Errorf string error
  | Joined "error list"
  | App "error app_error"
  | Pg string string
  | Response "error option" nat string
  | External string

type_synonym ('w, 'a) eff = "('w, error, 'a) io"

fun sentinel_text :: "sentinel \<Rightarrow> string" where
  "sentinel_text ContextCanceled = ''context canceled''"
| "sentinel_text ContextDeadlineExceeded = ''context deadline exceeded''"
| "sentinel_text ErrNotFound = ''db: not found''"
| "sentinel_text ErrDuplicateKey = ''db: duplicate key''"
| "sentinel_text ErrForeignKey = ''db: foreign key violation''"
| "sentinel_text ErrValueTooLong = ''db: value too long for column''"
| "sentinel_text ErrDataException = ''db: data exception''"
| "sentinel_text ErrOTPNotFound = ''kvstore: otp not found''"
| "sentinel_text ErrSessionNotFound = ''kvstore: session not found''"
| "sentinel_text RedisNil = ''redis: nil''"
| "sentinel_text PgxErrNoRows = ''no rows in result set''"
| "sentinel_text IoEOF = ''EOF''"
| "sentinel_text HttpErrServerClosed = ''http: Server closed''"
| "sentinel_text HttpErrAbortHandler = ''net/http: abort Handler''"
| "sentinel_text GrpcErrServerStopped = ''grpc: the server has been stopped''"
| "sentinel_text FsErrNotExist = ''file does not exist''"

text \<open>The children \<^verbatim>\<open>Unwrap\<close> exposes, in order.\<close>

fun unwrap :: "error \<Rightarrow> error list" where
  "unwrap (Errorf _ e) = [e]"
| "unwrap (Joined es) = es"
| "unwrap (App (AppError _ _ _ (Some e))) = [e]"
| "unwrap (Response (Some e) _ _) = [e]"
| "unwrap _ = []"

lemma unwrap_size [termination_simp]: "e' \<in> set (unwrap e) \<Longrightarrow> size e' < size e"
  by (induction e rule: unwrap.induct) (auto simp: less_Suc_eq_le size_list_estimation' dest: size_list_estimation')

text \<open>\<^verbatim>\<open>errors.Is\<close>: pre-order search for a sentinel.\<close>

function errors_Is :: "error \<Rightarrow> sentinel \<Rightarrow> bool" where
  "errors_Is e s \<longleftrightarrow> e = Sentinel s \<or> list_ex (\<lambda>c. errors_Is c s) (unwrap e)"
  by pat_completeness auto
termination
  by (relation "measure (\<lambda>(e, s). size e)") (auto simp: unwrap_size)

declare errors_Is.simps [simp del]

lemma errors_Is_simps [simp]:
  "errors_Is (Sentinel t) s \<longleftrightarrow> t = s"
  "errors_Is (Msg m) s \<longleftrightarrow> False"
  "errors_Is (Errorf p e) s \<longleftrightarrow> errors_Is e s"
  "errors_Is (Joined es) s \<longleftrightarrow> list_ex (\<lambda>e. errors_Is e s) es"
  "errors_Is (App (AppError c m d None)) s \<longleftrightarrow> False"
  "errors_Is (App (AppError c m d (Some e))) s \<longleftrightarrow> errors_Is e s"
  "errors_Is (Pg c x) s \<longleftrightarrow> False"
  "errors_Is (Response None n m) s \<longleftrightarrow> False"
  "errors_Is (Response (Some e) n m) s \<longleftrightarrow> errors_Is e s"
  "errors_Is (External x) s \<longleftrightarrow> False"
  by (subst errors_Is.simps, simp)+

text \<open>\<^verbatim>\<open>errors.As\<close>: the first value, in pre-order, that a partial view accepts.\<close>

function first_match :: "(error \<Rightarrow> 'a option) \<Rightarrow> error \<Rightarrow> 'a option" where
  "first_match f e = (case f e of Some x \<Rightarrow> Some x
     | None \<Rightarrow> (case filter (\<lambda>r. \<not> Option.is_none r) (map (first_match f) (unwrap e)) of
                [] \<Rightarrow> None | r # _ \<Rightarrow> r))"
  by pat_completeness auto
termination
  by (relation "measure (\<lambda>(f, e). size e)") (auto simp: unwrap_size)

declare first_match.simps [simp del]

lemma first_match_here: "f e = Some x \<Longrightarrow> first_match f e = Some x"
  by (subst first_match.simps) simp

lemma first_match_wrapped: "f e = None \<Longrightarrow> unwrap e = [c] \<Longrightarrow> first_match f e = first_match f c"
  by (subst first_match.simps) (simp add: Option.is_none_def)

lemma first_match_leaf: "f e = None \<Longrightarrow> unwrap e = [] \<Longrightarrow> first_match f e = None"
  by (subst first_match.simps) simp

text \<open>\<^verbatim>\<open>Error()\<close>; \<open>cs\<close> is the name \<^verbatim>\<open>codes.Code.String\<close> of the gRPC library gives a code.\<close>

function Error_text :: "(nat \<Rightarrow> string) \<Rightarrow> error \<Rightarrow> string" where
  "Error_text cs e = (case e of
       Sentinel s \<Rightarrow> sentinel_text s
     | Msg m \<Rightarrow> m
     | Errorf p c \<Rightarrow> p @ '': '' @ Error_text cs c
     | Joined es \<Rightarrow> join_strings [CHR 0x0A] (map (Error_text cs) es)
     | App (AppError c m d None) \<Rightarrow> c @ '': '' @ m
     | App (AppError c m d (Some x)) \<Rightarrow> c @ '': '' @ m @ '': '' @ Error_text cs x
     | Pg c t \<Rightarrow> t
     | Response x n m \<Rightarrow> ''rpc error: code = '' @ cs n @ '' desc = '' @ m
     | External t \<Rightarrow> t)"
  by pat_completeness auto
termination
  by (relation "measure (\<lambda>(cs, e). size e)") (auto simp: less_Suc_eq_le size_list_estimation')

declare Error_text.simps [simp del]

section \<open>internal/apperr\<close>

definition optionalDetails :: "fields list \<Rightarrow> fields" where
  "optionalDetails ds = (case ds of [] \<Rightarrow> None | d # _ \<Rightarrow> d)"

definition New :: "code \<Rightarrow> string \<Rightarrow> fields list \<Rightarrow> error" where
  "New c m ds = App (AppError c m (optionalDetails ds) None)"

definition Wrap :: "error \<Rightarrow> code \<Rightarrow> string \<Rightarrow> fields list \<Rightarrow> error" where
  "Wrap cause c m ds = App (AppError c m (optionalDetails ds) (Some cause))"

definition as_App :: "error \<Rightarrow> error app_error option" where
  "as_App e = (case e of App a \<Rightarrow> Some a | _ \<Rightarrow> None)"

definition As :: "error \<Rightarrow> error app_error option" where
  "As e = first_match as_App e"

definition IsClientError :: "error app_error \<Rightarrow> bool" where
  "IsClientError a \<longleftrightarrow> Code a \<notin> {CodeUnavailable, CodeTimeout, CodeInternal}"

text \<open>The loop of \<^verbatim>\<open>apperr.Fields\<close>, which skips keys that are not strings.\<close>

fun put_pairs :: "(string \<Rightarrow> bool) \<Rightarrow> any list \<Rightarrow> (string \<times> any) list \<Rightarrow> (string \<times> any) list" where
  "put_pairs ok (k # v # rest) m =
     put_pairs ok rest (case k of AString s \<Rightarrow> if ok s then AList.update s v m else m | _ \<Rightarrow> m)"
| "put_pairs ok _ m = m"

definition nil_if_empty :: "(string \<times> any) list \<Rightarrow> fields" where
  "nil_if_empty m = (if m = [] then None else Some m)"

definition Fields :: "any list \<Rightarrow> fields" where
  "Fields pairs = nil_if_empty (put_pairs (\<lambda>_. True) pairs [])"

text \<open>
  \<^verbatim>\<open>Details.String\<close>; \<open>marshal\<close> stands for \<^verbatim>\<open>json.Marshal\<close> and \<open>sprint\<close> for the
  \<^verbatim>\<open>%v\<close> rendering that replaces it when it fails.
\<close>

definition Details_String :: "((string \<times> any) list \<Rightarrow> string option) \<Rightarrow> ((string \<times> any) list \<Rightarrow> string) \<Rightarrow> fields \<Rightarrow> string" where
  "Details_String marshal sprint d =
     (case d of None \<Rightarrow> [] | Some m \<Rightarrow>
        if m = [] then [] else (case marshal m of Some t \<Rightarrow> t | None \<Rightarrow> sprint m))"

section \<open>internal/util/errutil and errors.Join\<close>

definition errors_Join :: "error option list \<Rightarrow> error option" where
  "errors_Join es = (let xs = List.map_filter id es in if xs = [] then None else Some (Joined xs))"

definition Step :: "string \<Rightarrow> error option \<Rightarrow> error option" where
  "Step st e = map_option (Errorf st) e"

definition errutil_Join :: "error option \<Rightarrow> error option list \<Rightarrow> error option" where
  "errutil_Join base cleanup = errors_Join (base # cleanup)"

section \<open>Sentinels of the repositories\<close>

definition IsInputError :: "error \<Rightarrow> bool" where
  "IsInputError e \<longleftrightarrow> errors_Is e ErrValueTooLong \<or> errors_Is e ErrDataException \<or> errors_Is e ErrForeignKey"

section \<open>Cause chains and client errors\<close>

function appendErrorChain :: "(nat \<Rightarrow> string) \<Rightarrow> error \<Rightarrow> nat \<Rightarrow> string list" where
  "appendErrorChain cs e depth =
     (if 32 \<le> depth then []
      else Error_text cs e # concat (map (\<lambda>c. appendErrorChain cs c (depth + 1)) (unwrap e)))"
  by pat_completeness auto
termination
  by (relation "measure (\<lambda>(cs, e, depth). 32 - depth)") auto

declare appendErrorChain.simps [simp del]

definition ErrorCauseChain :: "(nat \<Rightarrow> string) \<Rightarrow> error option \<Rightarrow> string" where
  "ErrorCauseChain cs e = (case e of None \<Rightarrow> [] | Some x \<Rightarrow> join_strings ''; '' (appendErrorChain cs x 0))"

text \<open>gRPC status codes by number, as \<^verbatim>\<open>google.golang.org/grpc/codes\<close> fixes them.\<close>

type_synonym grpc_code = nat

abbreviation (input) OK :: grpc_code where "OK \<equiv> 0"
abbreviation (input) Canceled :: grpc_code where "Canceled \<equiv> 1"
abbreviation (input) Unknown :: grpc_code where "Unknown \<equiv> 2"
abbreviation (input) InvalidArgument :: grpc_code where "InvalidArgument \<equiv> 3"
abbreviation (input) DeadlineExceeded :: grpc_code where "DeadlineExceeded \<equiv> 4"
abbreviation (input) NotFound :: grpc_code where "NotFound \<equiv> 5"
abbreviation (input) AlreadyExists :: grpc_code where "AlreadyExists \<equiv> 6"
abbreviation (input) PermissionDenied :: grpc_code where "PermissionDenied \<equiv> 7"
abbreviation (input) ResourceExhausted :: grpc_code where "ResourceExhausted \<equiv> 8"
abbreviation (input) FailedPrecondition :: grpc_code where "FailedPrecondition \<equiv> 9"
abbreviation (input) Aborted :: grpc_code where "Aborted \<equiv> 10"
abbreviation (input) OutOfRange :: grpc_code where "OutOfRange \<equiv> 11"
abbreviation (input) Unimplemented :: grpc_code where "Unimplemented \<equiv> 12"
abbreviation (input) Internal :: grpc_code where "Internal \<equiv> 13"
abbreviation (input) Unavailable :: grpc_code where "Unavailable \<equiv> 14"
abbreviation (input) DataLoss :: grpc_code where "DataLoss \<equiv> 15"
abbreviation (input) Unauthenticated :: grpc_code where "Unauthenticated \<equiv> 16"

text \<open>\<^verbatim>\<open>responseError.IsClientError\<close> of the gRPC responder.\<close>

definition response_IsClientError :: "grpc_code \<Rightarrow> bool" where
  "response_IsClientError c \<longleftrightarrow> c \<in> {Canceled, InvalidArgument, NotFound, AlreadyExists, PermissionDenied,
     Unauthenticated, ResourceExhausted, FailedPrecondition, Aborted, OutOfRange}"

text \<open>The first error of the chain that has an \<^verbatim>\<open>IsClientError\<close> method, and its answer.\<close>

definition client_reporter :: "error \<Rightarrow> bool option" where
  "client_reporter e = (case e of App a \<Rightarrow> Some (IsClientError a)
     | Response _ c _ \<Rightarrow> Some (response_IsClientError c) | _ \<Rightarrow> None)"

definition isClientError :: "error \<Rightarrow> bool" where
  "isClientError e \<longleftrightarrow> first_match client_reporter e = Some True"

section \<open>Lemmas\<close>

lemma As_simps [simp]:
  "As (Sentinel s) = None" "As (Msg m) = None" "As (Errorf p e) = As e" "As (App a) = Some a"
  "As (Pg c t) = None" "As (Response None n m) = None" "As (Response (Some e) n m) = As e" "As (External t) = None"
  unfolding As_def
  by (simp_all add: first_match_here first_match_wrapped first_match_leaf as_App_def)

lemma As_New [simp]: "As (New c m ds) = Some (AppError c m (optionalDetails ds) None)"
  by (simp add: New_def)

lemma As_Wrap [simp]: "As (Wrap e c m ds) = Some (AppError c m (optionalDetails ds) (Some e))"
  by (simp add: Wrap_def)

lemma errors_Is_New [simp]: "errors_Is (New c m ds) s \<longleftrightarrow> False"
  by (simp add: New_def)

lemma errors_Is_Wrap [simp]: "errors_Is (Wrap e c m ds) s \<longleftrightarrow> errors_Is e s"
  by (simp add: Wrap_def)

lemma errors_Join_None_iff: "errors_Join es = None \<longleftrightarrow> (\<forall>e\<in>set es. e = None)"
  by (induction es) (auto simp: errors_Join_def List.map_filter_def Let_def)

lemma errors_Join_Is:
  "errors_Join es = Some j \<Longrightarrow> errors_Is j s \<longleftrightarrow> (\<exists>e. Some e \<in> set es \<and> errors_Is e s)"
  by (force simp: errors_Join_def List.map_filter_def Let_def list_ex_iff split: if_splits)

lemma Step_None_iff [simp]: "Step st e = None \<longleftrightarrow> e = None"
  by (simp add: Step_def)

lemma isClientError_simps [simp]:
  "isClientError (App a) = IsClientError a"
  "isClientError (Response c n m) = response_IsClientError n"
  "isClientError (Errorf p e) = isClientError e"
  "isClientError (Sentinel s) = False" "isClientError (Msg m) = False"
  by (simp_all add: isClientError_def first_match_here first_match_wrapped first_match_leaf client_reporter_def)

text \<open>The pairs a call of \<open>put_pairs\<close> keeps, in order; a later pair wins over an earlier one.\<close>

fun kept_pairs :: "(string \<Rightarrow> bool) \<Rightarrow> any list \<Rightarrow> (string \<times> any) list" where
  "kept_pairs ok (AString s # v # rest) = (if ok s then (s, v) # kept_pairs ok rest else kept_pairs ok rest)"
| "kept_pairs ok (k # v # rest) = kept_pairs ok rest"
| "kept_pairs ok _ = []"

lemma map_of_put_pairs:
  "map_of (put_pairs ok ps m) = map_of m ++ map_of (rev (kept_pairs ok ps))"
  by (induction ok ps arbitrary: m rule: kept_pairs.induct) (simp_all add: update_conv')

lemma put_pairs_Nil_iff: "put_pairs ok ps m = [] \<longleftrightarrow> m = [] \<and> kept_pairs ok ps = []"
proof -
  have "AList.update s v xs \<noteq> []" for s v and xs :: "(string \<times> any) list"
    by (cases xs) auto
  then show ?thesis
    by (induction ok ps arbitrary: m rule: kept_pairs.induct) auto
qed

lemma distinct_put_pairs: "distinct (map fst m) \<Longrightarrow> distinct (map fst (put_pairs ok ps m))"
  by (induction ok ps m rule: put_pairs.induct) (auto simp: distinct_update split: any.split)

lemma lookup_nil_if_empty [simp]: "lookup_field (nil_if_empty m) = map_of m"
  by (rule ext) (simp add: nil_if_empty_def)

inductive wraps :: "nat \<Rightarrow> error \<Rightarrow> error \<Rightarrow> bool" where
  wraps_here: "wraps 0 e e"
| wraps_child: "c \<in> set (unwrap e) \<Longrightarrow> wraps n c x \<Longrightarrow> wraps (Suc n) e x"

lemma appendErrorChain_complete:
  "wraps n e x \<Longrightarrow> n + depth < 32 \<Longrightarrow> Error_text cs x \<in> set (appendErrorChain cs e depth)"
proof (induction n e x arbitrary: depth rule: wraps.induct)
  case (wraps_here e)
  then show ?case
    by (subst appendErrorChain.simps) simp
next
  case (wraps_child c e n x)
  then have "Error_text cs x \<in> set (appendErrorChain cs c (depth + 1))" "\<not> 32 \<le> depth"
    by simp_all
  with wraps_child.hyps(1) show ?case
    by (subst appendErrorChain.simps) auto
qed

lemma appendErrorChain_sound:
  "t \<in> set (appendErrorChain cs e depth) \<Longrightarrow> \<exists>n x. wraps n e x \<and> n + depth < 32 \<and> t = Error_text cs x"
proof (induction cs e depth rule: appendErrorChain.induct)
  case (1 cs e depth)
  show ?case
  proof (cases "32 \<le> depth")
    case True
    with "1.prems" show ?thesis
      by (simp add: appendErrorChain.simps)
  next
    case False
    then consider "t = Error_text cs e" | c where "c \<in> set (unwrap e)" "t \<in> set (appendErrorChain cs c (depth + 1))"
      using "1.prems" by (subst (asm) appendErrorChain.simps) auto
    then show ?thesis
    proof cases
      case 1
      then show ?thesis
        using False wraps_here by (intro exI [of _ 0] exI [of _ e]) simp
    next
      case (2 c)
      then obtain n x where "wraps n c x" "n + (depth + 1) < 32" "t = Error_text cs x"
        using "1.IH" False by blast
      then show ?thesis
        using 2 by (intro exI [of _ "Suc n"] exI [of _ x]) (simp add: wraps_child)
    qed
  qed
qed

lemma errors_Is_iff_wraps: "errors_Is e s \<longleftrightarrow> (\<exists>n. wraps n e (Sentinel s))"
proof
  show "errors_Is e s \<Longrightarrow> \<exists>n. wraps n e (Sentinel s)"
  proof (induction e s rule: errors_Is.induct)
    case (1 e s)
    then show ?case
      by (subst (asm) (2) errors_Is.simps) (auto simp: list_ex_iff intro: wraps_here wraps_child)
  qed
  show "errors_Is e s" if "\<exists>n. wraps n e (Sentinel s)"
  proof -
    have "errors_Is e s" if "wraps n e x" "x = Sentinel s" for n x
      using that
    proof (induction rule: wraps.induct)
      case (wraps_child c e n x)
      then show ?case
        by (subst errors_Is.simps) (auto simp: list_ex_iff)
    qed simp
    then show ?thesis
      using that by blast
  qed
qed

end
