(* ===== verification/Redis.thy ===== *)
theory Redis
  imports Complex_Main Go_Errors
begin

text \<open>
  The interface to Redis. The server is a service outside the repository, so its commands are a
  parameter, the record \<open>redis\<close>, of every definition that uses them. What the stores rely on is the
  locale \<open>redis_spec\<close>, which states the documented effect of the commands the sources issue on the
  live keys of the server. \<open>keyspace\<close> is an in-memory server with expiring keys that satisfies it.
  Times and lifetimes are in milliseconds of the server's clock. Hash fields and sorted-set scores
  hold numbers, as the scripts write them.
\<close>

section \<open>Commands\<close>

datatype rvalue =
    RString string
  | RHash "(string \<times> rat) list"
  | RZSet "(string \<times> int) list"

definition WRONGTYPE :: error where
  "WRONGTYPE = External ''WRONGTYPE Operation against a key holding the wrong kind of value''"

record 's redis =
  GET :: "string \<Rightarrow> 's \<Rightarrow> error + string option"
  SET :: "string \<Rightarrow> string \<Rightarrow> int option \<Rightarrow> 's \<Rightarrow> 's"
  DEL :: "string \<Rightarrow> 's \<Rightarrow> 's"
  HGET :: "string \<Rightarrow> string \<Rightarrow> 's \<Rightarrow> error + rat option"
  HSET :: "string \<Rightarrow> (string \<times> rat) list \<Rightarrow> 's \<Rightarrow> error + 's"
  PEXPIRE :: "string \<Rightarrow> int \<Rightarrow> 's \<Rightarrow> 's"
  ZREMRANGEBYSCORE :: "string \<Rightarrow> int \<Rightarrow> 's \<Rightarrow> error + 's"
  ZCARD :: "string \<Rightarrow> 's \<Rightarrow> error + nat"
  ZMIN :: "string \<Rightarrow> 's \<Rightarrow> error + (string \<times> int) option"
  ZADD :: "string \<Rightarrow> int \<Rightarrow> string \<Rightarrow> 's \<Rightarrow> error + 's"

text \<open>
  A script sees the hash or sorted set at a key, or fails when the key holds something else; an
  absent key reads as an empty one.
\<close>

definition hash_at :: "(rvalue \<times> int option) option \<Rightarrow> error + (string \<times> rat) list" where
  "hash_at e = (case e of None \<Rightarrow> Inr [] | Some (RHash h, _) \<Rightarrow> Inr h | Some _ \<Rightarrow> Inl WRONGTYPE)"

definition zset_at :: "(rvalue \<times> int option) option \<Rightarrow> error + (string \<times> int) list" where
  "zset_at e = (case e of None \<Rightarrow> Inr [] | Some (RZSet z, _) \<Rightarrow> Inr z | Some _ \<Rightarrow> Inl WRONGTYPE)"

definition ttl_at :: "(rvalue \<times> int option) option \<Rightarrow> int option" where
  "ttl_at e = (case e of None \<Rightarrow> None | Some (_, t) \<Rightarrow> t)"

definition min_score :: "(string \<times> int) list \<Rightarrow> (string \<times> int) option" where
  "min_score z = (case z of [] \<Rightarrow> None | x # xs \<Rightarrow>
     Some (foldl (\<lambda>a b. if snd b < snd a then b else a) x xs))"

text \<open>
  \<open>view s\<close> is the map from live keys to values and expiry times, \<open>clock s\<close> the server's time and
  \<open>tick d\<close> the passage of \<open>d\<close> milliseconds.
\<close>

locale redis_spec =
  fixes R :: "'s redis"
    and view :: "'s \<Rightarrow> string \<Rightarrow> (rvalue \<times> int option) option"
    and clock :: "'s \<Rightarrow> int"
    and tick :: "int \<Rightarrow> 's \<Rightarrow> 's"
  assumes live: "view s k = Some (x, Some t) \<Longrightarrow> clock s < t"
    and GET: "GET R k s = (case view s k of None \<Rightarrow> Inr None | Some (RString v, _) \<Rightarrow> Inr (Some v)
                           | Some _ \<Rightarrow> Inl WRONGTYPE)"
    and SET: "ttl = None \<or> ttl = Some d \<and> 0 < d \<Longrightarrow>
                view (SET R k v ttl s) = (view s)(k \<mapsto> (RString v, map_option (\<lambda>d. clock s + d) ttl))"
    and DEL: "view (DEL R k s) = (view s)(k := None)"
    and HGET: "HGET R k f s = (case hash_at (view s k) of Inl e \<Rightarrow> Inl e | Inr h \<Rightarrow> Inr (map_of h f))"
    and HSET_fail: "hash_at (view s k) = Inl e \<Longrightarrow> HSET R k fs s = Inl e"
    and HSET: "hash_at (view s k) = Inr h \<Longrightarrow> \<exists>s'. HSET R k fs s = Inr s' \<and>
                 view s' = (view s)(k \<mapsto> (RHash (fold (\<lambda>(f, x). AList.update f x) fs h), ttl_at (view s k))) \<and> clock s' = clock s"
    and PEXPIRE: "0 < d \<Longrightarrow> view (PEXPIRE R k d s) =
                 (view s)(k := map_option (\<lambda>(v, _). (v, Some (clock s + d))) (view s k))"
    and ZREM_fail: "zset_at (view s k) = Inl e \<Longrightarrow> ZREMRANGEBYSCORE R k hi s = Inl e"
    and ZREM: "zset_at (view s k) = Inr z \<Longrightarrow> \<exists>s'. ZREMRANGEBYSCORE R k hi s = Inr s' \<and>
                 view s' = (view s)(k := (if [p \<leftarrow> z. hi < snd p] = [] then None
                                          else Some (RZSet [p \<leftarrow> z. hi < snd p], ttl_at (view s k)))) \<and> clock s' = clock s"
    and ZCARD: "ZCARD R k s = (case zset_at (view s k) of Inl e \<Rightarrow> Inl e | Inr z \<Rightarrow> Inr (length z))"
    and ZMIN: "ZMIN R k s = (case zset_at (view s k) of Inl e \<Rightarrow> Inl e | Inr z \<Rightarrow> Inr (min_score z))"
    and ZADD_fail: "zset_at (view s k) = Inl e \<Longrightarrow> ZADD R k sc m s = Inl e"
    and ZADD: "zset_at (view s k) = Inr z \<Longrightarrow> \<exists>s'. ZADD R k sc m s = Inr s' \<and>
                 view s' = (view s)(k \<mapsto> (RZSet (AList.update m sc z), ttl_at (view s k))) \<and> clock s' = clock s"
    and clock_SET: "clock (SET R k v ttl s) = clock s"
    and clock_DEL: "clock (DEL R k s) = clock s"
    and clock_PEXPIRE: "clock (PEXPIRE R k d s) = clock s"
    and clock_tick: "0 \<le> d \<Longrightarrow> clock (tick d s) = clock s + d"
    and view_tick: "0 \<le> d \<Longrightarrow> view (tick d s) k =
                 (case view s k of Some (v, Some t) \<Rightarrow> if clock s + d < t then Some (v, Some t) else None | x \<Rightarrow> x)"
begin

lemmas clock_simps [simp] = clock_SET clock_DEL clock_PEXPIRE clock_tick

lemma GET_string: "view s k = Some (RString v, t) \<Longrightarrow> GET R k s = Inr (Some v)"
  by (simp add: GET)

lemma GET_missing: "view s k = None \<Longrightarrow> GET R k s = Inr None"
  by (simp add: GET)

lemma SET_ttl: "0 < d \<Longrightarrow> view (SET R k v (Some d) s) = (view s)(k \<mapsto> (RString v, Some (clock s + d)))"
  using SET [of "Some d" d k v s] by simp

end

section \<open>An in-memory server\<close>

record keyspace =
  ks_clock :: int
  ks_data :: "string \<Rightarrow> (rvalue \<times> int option) option"

definition ks_view :: "keyspace \<Rightarrow> string \<Rightarrow> (rvalue \<times> int option) option" where
  "ks_view s k = (case ks_data s k of
     Some (v, Some t) \<Rightarrow> if ks_clock s < t then Some (v, Some t) else None | x \<Rightarrow> x)"

definition ks_put :: "string \<Rightarrow> (rvalue \<times> int option) option \<Rightarrow> keyspace \<Rightarrow> keyspace" where
  "ks_put k e s = s\<lparr>ks_data := (ks_data s)(k := e)\<rparr>"

definition ks_tick :: "int \<Rightarrow> keyspace \<Rightarrow> keyspace" where
  "ks_tick d s = s\<lparr>ks_clock := ks_clock s + d\<rparr>"

definition keyspace_redis :: "keyspace redis" where
  "keyspace_redis = \<lparr>
     GET = (\<lambda>k s. case ks_view s k of None \<Rightarrow> Inr None | Some (RString v, _) \<Rightarrow> Inr (Some v) | Some _ \<Rightarrow> Inl WRONGTYPE),
     SET = (\<lambda>k v ttl s. ks_put k (Some (RString v, map_option (\<lambda>d. ks_clock s + d) ttl)) s),
     DEL = (\<lambda>k. ks_put k None),
     HGET = (\<lambda>k f s. case hash_at (ks_view s k) of Inl e \<Rightarrow> Inl e | Inr h \<Rightarrow> Inr (map_of h f)),
     HSET = (\<lambda>k fs s. case hash_at (ks_view s k) of Inl e \<Rightarrow> Inl e
        | Inr h \<Rightarrow> Inr (ks_put k (Some (RHash (fold (\<lambda>(f, x). AList.update f x) fs h), ttl_at (ks_view s k))) s)),
     PEXPIRE = (\<lambda>k d s. ks_put k (map_option (\<lambda>(v, _). (v, Some (ks_clock s + d))) (ks_view s k)) s),
     ZREMRANGEBYSCORE = (\<lambda>k m s. case zset_at (ks_view s k) of Inl e \<Rightarrow> Inl e
        | Inr z \<Rightarrow> Inr (ks_put k (if [p \<leftarrow> z. m < snd p] = [] then None
                                  else Some (RZSet [p \<leftarrow> z. m < snd p], ttl_at (ks_view s k))) s)),
     ZCARD = (\<lambda>k s. case zset_at (ks_view s k) of Inl e \<Rightarrow> Inl e | Inr z \<Rightarrow> Inr (length z)),
     ZMIN = (\<lambda>k s. case zset_at (ks_view s k) of Inl e \<Rightarrow> Inl e | Inr z \<Rightarrow> Inr (min_score z)),
     ZADD = (\<lambda>k sc m s. case zset_at (ks_view s k) of Inl e \<Rightarrow> Inl e
        | Inr z \<Rightarrow> Inr (ks_put k (Some (RZSet (AList.update m sc z), ttl_at (ks_view s k))) s)) \<rparr>"

lemma ks_clock_put [simp]: "ks_clock (ks_put k e s) = ks_clock s"
  by (simp add: ks_put_def)

lemma ks_view_live: "ks_view s k = Some (v, Some t) \<Longrightarrow> ks_clock s < t"
  by (auto simp: ks_view_def split: option.splits if_splits)

lemma ks_view_put:
  "ks_view (ks_put k e s) = (ks_view s)(k := (case e of Some (v, Some t) \<Rightarrow> if ks_clock s < t then e else None | _ \<Rightarrow> e))"
  by (auto simp: ks_view_def ks_put_def fun_eq_iff split: option.splits)

lemma ks_view_put_keep:
  "ks_view (ks_put k (Some (v, ttl_at (ks_view s k))) s) = (ks_view s)(k \<mapsto> (v, ttl_at (ks_view s k)))"
  by (auto simp: ks_view_put ttl_at_def fun_eq_iff dest: ks_view_live split: option.splits)

interpretation ks: redis_spec keyspace_redis ks_view ks_clock ks_tick
proof (unfold_locales, goal_cases)
  case (3 ttl d k v s)
  then show ?case
    by (auto simp: keyspace_redis_def ks_view_put)
next
  case (7 s k h fs)
  then show ?case
    by (simp add: keyspace_redis_def ks_view_put_keep)
next
  case (8 s k d)
  then show ?case
    by (auto simp: keyspace_redis_def ks_view_put fun_eq_iff split: option.splits)
next
  case (10 s k z m)
  then show ?case
    using ks_view_put_keep [of k "RZSet [p \<leftarrow> z. m < snd p]" s]
    by (auto simp: keyspace_redis_def ks_view_put)
next
  case (14 s k z sc m)
  then show ?case
    by (simp add: keyspace_redis_def ks_view_put_keep)
next
  case (19 d s k)
  then show ?case
    by (auto simp: ks_view_def ks_tick_def split: option.splits if_splits)
qed (auto simp: keyspace_redis_def ks_view_put ks_view_put_keep ks_view_live ks_tick_def split: option.splits)

end
