(* ===== verification/Telemetry.thy ===== *)
theory Telemetry
  imports Go_Errors
begin

text \<open>
  The technical contracts every component receives: \<^verbatim>\<open>internal/logger\<close>,
  \<^verbatim>\<open>internal/observability\<close>, what the tracer of \<^verbatim>\<open>internal/infra/observability/otel\<close> makes of a
  finished span, and the context fields of \<^verbatim>\<open>internal/app/runtime/adapter.go\<close>. A logger, a
  tracer or a meter is a sink: what one call on it does to the world. A nil dependency is replaced by
  the sink that does nothing.
\<close>

section \<open>Field maps\<close>

text \<open>\<^verbatim>\<open>FromPairs\<close> of both packages: keys that are not strings, or empty, are skipped.\<close>

definition FromPairs :: "any list \<Rightarrow> fields" where
  "FromPairs pairs = nil_if_empty (put_pairs (\<lambda>k. k \<noteq> []) pairs [])"

definition OptionalFields :: "fields list \<Rightarrow> fields" where
  "OptionalFields fs = (case fs of [] \<Rightarrow> None | f # _ \<Rightarrow> f)"

definition entries :: "fields \<Rightarrow> (string \<times> any) list" where
  "entries f = (case f of None \<Rightarrow> [] | Some m \<Rightarrow> m)"

definition maps_Copy :: "(string \<times> any) list \<Rightarrow> fields \<Rightarrow> (string \<times> any) list" where
  "maps_Copy dst src = fold (\<lambda>(k, v) m. AList.update k v m) (entries src) dst"

definition CloneFields :: "fields \<Rightarrow> fields" where
  "CloneFields f = (if len_fields f = 0 then None else Some (maps_Copy [] f))"

definition MergeFields :: "fields list \<Rightarrow> fields" where
  "MergeFields fs =
     (if sum_list (map len_fields fs) = 0 then None
      else Some (foldl maps_Copy [] fs))"

text \<open>
  \<^verbatim>\<open>fields[key] = value\<close>, an insertion the sources make only on a map they have just built;
  on the nil map it would panic, which is \<open>None\<close> here.
\<close>

definition put_field :: "string \<Rightarrow> any \<Rightarrow> fields \<Rightarrow> fields" where
  "put_field k v f = map_option (AList.update k v) f"

definition put_field_if :: "bool \<Rightarrow> string \<Rightarrow> any \<Rightarrow> fields \<Rightarrow> fields" where
  "put_field_if b k v f = (if b then put_field k v f else f)"

section \<open>Severities\<close>

datatype severity = SeverityDebug | SeverityInfo | SeverityWarn | SeverityError

definition Severity_String :: "severity \<Rightarrow> string" where
  "Severity_String s = (case s of SeverityDebug \<Rightarrow> ''debug'' | SeverityWarn \<Rightarrow> ''warn''
     | SeverityError \<Rightarrow> ''error'' | SeverityInfo \<Rightarrow> ''info'')"

text \<open>
  \<^verbatim>\<open>logger.Severity\<close> and \<^verbatim>\<open>observability.Severity\<close> are separate types with the same constants;
  both are \<open>severity\<close> here and the adapter between them is written out.
\<close>

definition toObservabilitySeverity :: "severity \<Rightarrow> severity" where
  "toObservabilitySeverity s = (case s of SeverityDebug \<Rightarrow> SeverityDebug | SeverityWarn \<Rightarrow> SeverityWarn
     | SeverityError \<Rightarrow> SeverityError | _ \<Rightarrow> SeverityInfo)"

section \<open>Events and sinks\<close>

datatype span_kind = SpanInternal | SpanServer | SpanClient

datatype event =
    SpanStart span_kind string string fields
  | SpanAttributes fields
  | SpanFinish "error option" "string option"
  | CounterAdd string int fields
  | UpDownAdd string int fields
  | HistogramRecord string duration fields
  | LogEntry severity bool string "error option" fields

type_synonym 'w sink = "event \<Rightarrow> 'w \<Rightarrow> 'w"

definition noop :: "'w sink" where
  "noop ev w = w"

text \<open>The constructors' \<^verbatim>\<open>if log == nil { log = logger.NoopLogger{} }\<close>.\<close>

definition or_noop :: "'w sink option \<Rightarrow> 'w sink" where
  "or_noop s = (case s of None \<Rightarrow> noop | Some f \<Rightarrow> f)"

definition Warn :: "'w sink \<Rightarrow> string \<Rightarrow> fields \<Rightarrow> 'w \<Rightarrow> 'w" where
  "Warn log m f = log (LogEntry SeverityWarn False m None f)"

definition Info :: "'w sink \<Rightarrow> string \<Rightarrow> fields \<Rightarrow> 'w \<Rightarrow> 'w" where
  "Info log m f = log (LogEntry SeverityInfo False m None f)"

definition Log_Error :: "'w sink \<Rightarrow> string \<Rightarrow> error option \<Rightarrow> fields \<Rightarrow> 'w \<Rightarrow> 'w" where
  "Log_Error log m e f = log (LogEntry SeverityError True m e f)"

definition Log_ErrorNoStack :: "'w sink \<Rightarrow> string \<Rightarrow> error option \<Rightarrow> fields \<Rightarrow> 'w \<Rightarrow> 'w" where
  "Log_ErrorNoStack log m e f = log (LogEntry SeverityError False m e f)"

text \<open>
  The frame every usecase repeats: open a span, run the body, and on the way out run the deferred
  telemetry with the error the body returned.
\<close>

definition with_span :: "'w sink \<Rightarrow> string \<Rightarrow> string \<Rightarrow> fields \<Rightarrow> (error option \<Rightarrow> 'w \<Rightarrow> 'w) \<Rightarrow> ('w, 'a) eff \<Rightarrow> ('w, 'a) eff" where
  "with_span tr scope name f before_finish body =
     perform (tr (SpanStart SpanInternal scope name f))
       (finally_do body (\<lambda>r w. tr (SpanFinish (err_of r) None) (before_finish (err_of r) w)))"

definition outcome_of :: "error option \<Rightarrow> string" where
  "outcome_of e = (if e = None then ''success'' else ''error'')"

section \<open>Request identifiers\<close>

definition MaxRequestIDLength :: nat where "MaxRequestIDLength = 128"

definition request_id_char :: "char \<Rightarrow> bool" where
  "request_id_char c \<longleftrightarrow> (CHR ''a'' \<le> c \<and> c \<le> CHR ''z'') \<or> (CHR ''A'' \<le> c \<and> c \<le> CHR ''Z'') \<or>
     (CHR ''0'' \<le> c \<and> c \<le> CHR ''9'') \<or> c = CHR ''-'' \<or> c = CHR ''_'' \<or> c = CHR ''.''"

definition IsValidRequestID :: "string \<Rightarrow> bool" where
  "IsValidRequestID s \<longleftrightarrow> \<not> (length s = 0 \<or> MaxRequestIDLength < length s) \<and> list_all request_id_char s"

section \<open>Contexts\<close>

text \<open>
  What the sources read from a \<^verbatim>\<open>context.Context\<close>: the request ID, the caller identity, the
  deadline, the cancellation state, the gRPC metadata and the identifiers of the active span.
\<close>

record identity =
  Subject :: string
  AuthenticationType :: string

abbreviation AuthenticationTypeMTLS :: string where "AuthenticationTypeMTLS \<equiv> ''mtls''"

type_synonym metadata = "(string \<times> string list) list"

record ctx =
  ctx_request_id :: "string option"
  ctx_identity :: "identity option"
  ctx_deadline :: "int option"
  ctx_err :: "sentinel option"
  ctx_incoming :: "metadata option"
  ctx_outgoing :: "metadata option"
  ctx_span :: "(string \<times> string) option"

definition Background :: ctx where
  "Background = \<lparr>ctx_request_id = None, ctx_identity = None, ctx_deadline = None, ctx_err = None,
     ctx_incoming = None, ctx_outgoing = None, ctx_span = None\<rparr>"

definition WithRequestID :: "ctx \<Rightarrow> string \<Rightarrow> ctx" where
  "WithRequestID c i = c\<lparr>ctx_request_id := Some i\<rparr>"

definition RequestIDFromContext :: "ctx \<Rightarrow> string" where
  "RequestIDFromContext c = (case ctx_request_id c of None \<Rightarrow> [] | Some i \<Rightarrow> i)"

definition WithIdentity :: "ctx \<Rightarrow> identity \<Rightarrow> ctx" where
  "WithIdentity c i = c\<lparr>ctx_identity := Some i\<rparr>"

definition FromContext :: "ctx \<Rightarrow> identity option" where
  "FromContext c = ctx_identity c"

text \<open>\<^verbatim>\<open>context.WithTimeout\<close> keeps an earlier deadline of the parent.\<close>

definition WithTimeout :: "ctx \<Rightarrow> int \<Rightarrow> duration \<Rightarrow> ctx" where
  "WithTimeout c now d = c\<lparr>ctx_deadline :=
     Some (case ctx_deadline c of None \<Rightarrow> now + d | Some t \<Rightarrow> min t (now + d))\<rparr>"

definition contextFieldsProvider :: "ctx \<Rightarrow> fields" where
  "contextFieldsProvider c =
     nil_if_empty
       ((if RequestIDFromContext c \<noteq> [] then [(''request.id'', AString (RequestIDFromContext c))] else []) @
        (case ctx_span c of None \<Rightarrow> [] | Some (t, s) \<Rightarrow> [(''trace.id'', AString t), (''span.id'', AString s)]))"

section \<open>internal/infra/observability/otel\<close>

datatype attribute = String_attr string | Bool_attr bool | Int64_attr int | Float64_attr string

text \<open>\<^verbatim>\<open>int64(v)\<close> of an unsigned 64-bit value keeps the bits: values from \<open>2 ^ 63\<close> become negative.\<close>

fun toTraceAttribute :: "any \<Rightarrow> attribute" where
  "toTraceAttribute (AString s) = String_attr s"
| "toTraceAttribute (ABool b) = Bool_attr b"
| "toTraceAttribute (AInt i) = Int64_attr i"
| "toTraceAttribute (AInt32 i) = Int64_attr i"
| "toTraceAttribute (AInt64 i) = Int64_attr i"
| "toTraceAttribute (AUint w) = Int64_attr (sint w)"
| "toTraceAttribute (AUint32 w) = Int64_attr (uint w)"
| "toTraceAttribute (AUint64 w) = Int64_attr (sint w)"
| "toTraceAttribute (AFloat32 f) = Float64_attr f"
| "toTraceAttribute (AFloat64 f) = Float64_attr f"
| "toTraceAttribute (ATime t) = String_attr t"
| "toTraceAttribute (AError e) = String_attr e"
| "toTraceAttribute (AOther v) = String_attr v"

definition toTraceAttributes :: "fields \<Rightarrow> (string \<times> attribute) list" where
  "toTraceAttributes f = map (\<lambda>(k, v). (k, toTraceAttribute v)) (entries f)"

datatype span_status = StatusOk | StatusError string

text \<open>
  \<^verbatim>\<open>span.Finish\<close> on an open span: the recorded error and the status set before the span ends.
\<close>

definition span_Finish :: "(nat \<Rightarrow> string) \<Rightarrow> error option \<Rightarrow> string list \<Rightarrow> error option \<times> span_status" where
  "span_Finish cs e description =
     (case e of
        None \<Rightarrow> (None, StatusOk)
      | Some x \<Rightarrow>
          (Some x,
           if isClientError x then StatusOk
           else StatusError (case description of d # _ \<Rightarrow> if d \<noteq> [] then d else Error_text cs x | [] \<Rightarrow> Error_text cs x)))"

section \<open>Lemmas\<close>

lemma lookup_FromPairs: "lookup_field (FromPairs ps) = map_of (rev (kept_pairs (\<lambda>k. k \<noteq> []) ps))"
  by (simp add: FromPairs_def map_of_put_pairs)

lemma FromPairs_None_iff: "FromPairs ps = None \<longleftrightarrow> kept_pairs (\<lambda>k. k \<noteq> []) ps = []"
  by (simp add: FromPairs_def nil_if_empty_def put_pairs_Nil_iff)

lemma lookup_entries: "lookup_field f = map_of (entries f)"
  by (rule ext) (simp add: lookup_field_def entries_def split: option.split)

lemma map_of_maps_Copy:
  assumes "distinct (map fst (entries f))"
  shows "map_of (maps_Copy m f) = map_of m ++ lookup_field f"
proof -
  have "map_of (fold (\<lambda>(k, v) m. AList.update k v m) xs m) = map_of m ++ map_of (rev xs)" for xs
    by (induction xs arbitrary: m) (auto simp: update_conv')
  moreover have "map_of (rev (entries f)) = map_of (entries f)"
    using assms by (subst map_of_inject_set) (simp_all add: rev_map [symmetric])
  ultimately show ?thesis
    by (simp add: maps_Copy_def lookup_entries)
qed

lemma lookup_put_field [simp]:
  "f \<noteq> None \<Longrightarrow> lookup_field (put_field k v f) = (lookup_field f)(k \<mapsto> v)"
  by (auto simp: put_field_def lookup_field_def update_conv' fun_eq_iff)

lemma put_field_None_iff [simp]: "put_field k v f = None \<longleftrightarrow> f = None"
  by (simp add: put_field_def)

lemma put_field_if_None_iff [simp]: "put_field_if b k v f = None \<longleftrightarrow> f = None"
  by (simp add: put_field_if_def)

lemma noop_apply [simp]: "noop ev w = w"
  by (simp add: noop_def)

lemma with_span_eq:
  "with_span tr sc nm f d body w = (r, w') \<longleftrightarrow>
     (\<exists>w1. body (tr (SpanStart SpanInternal sc nm f) w) = (r, w1) \<and>
           w' = tr (SpanFinish (err_of r) None) (d (err_of r) w1))"
  by (auto simp: with_span_def finally_do_eq)

lemma fst_with_span: "fst (with_span tr sc nm f d body w) = fst (body (tr (SpanStart SpanInternal sc nm f) w))"
  by (simp add: with_span_def)

lemma RequestID_roundtrip: "RequestIDFromContext (WithRequestID c i) = i"
  by (simp add: RequestIDFromContext_def WithRequestID_def)

end
