(* ===== verification/World.thy ===== *)
theory World
  imports Redis Telemetry
begin

text \<open>
  The world the wired application acts on: the Redis server, the PostgreSQL tables, the mail that
  was sent, the telemetry that was emitted, the clock and the random source, together with the
  environment's choices about calls that do not come back. A call to a service is delivered, is lost
  before it took effect, or takes effect and loses its reply; the caller sees the same kind of error
  in both bad cases.
\<close>

section \<open>Calls that fail\<close>

datatype transport = TCanceled | TDeadline | TFailure string

fun transport_error :: "transport \<Rightarrow> error" where
  "transport_error TCanceled = Sentinel ContextCanceled"
| "transport_error TDeadline = Sentinel ContextDeadlineExceeded"
| "transport_error (TFailure t) = External t"

datatype delivery = Delivered | LostRequest transport | LostReply transport

definition next_delivery :: "delivery list \<Rightarrow> delivery \<times> delivery list" where
  "next_delivery ds = (case ds of [] \<Rightarrow> (Delivered, []) | d # rest \<Rightarrow> (d, rest))"

fun deliver :: "delivery \<Rightarrow> ('s \<Rightarrow> (error + 'a) \<times> 's) \<Rightarrow> 's \<Rightarrow> (error + 'a) \<times> 's" where
  "deliver Delivered f s = f s"
| "deliver (LostRequest t) f s = (Inl (transport_error t), s)"
| "deliver (LostReply t) f s = (Inl (transport_error t), snd (f s))"

lemma transport_error_Is:
  "errors_Is (transport_error t) s \<Longrightarrow> s = ContextCanceled \<or> s = ContextDeadlineExceeded"
  by (cases t) auto

lemma transport_error_not_Is [simp]:
  "s \<noteq> ContextCanceled \<Longrightarrow> s \<noteq> ContextDeadlineExceeded \<Longrightarrow> \<not> errors_Is (transport_error t) s"
  by (cases t) auto

lemma transport_error_neq [simp]: "transport_error t \<noteq> Sentinel RedisNil"
  by (cases t) auto

lemma As_transport_error [simp]: "As (transport_error t) = None"
  by (cases t) auto

lemma deliver_Inr: "deliver d f s = (Inr x, s') \<longleftrightarrow> d = Delivered \<and> f s = (Inr x, s')"
  by (cases d) auto

lemma deliver_state: "snd (deliver d f s) = s \<or> snd (deliver d f s) = snd (f s)"
  by (cases d) auto

section \<open>Tables\<close>

record user_row =
  u_id :: int
  u_email :: string
  u_status :: string

record connection_row =
  c_user :: int
  c_provider :: string
  c_subject :: string

record database =
  users :: "user_row list"
  connections :: "connection_row list"
  next_id :: int

section \<open>The world\<close>

record 's world =
  kv :: 's
  net :: "delivery list"
  db :: database
  db_net :: "delivery list"
  outbox :: "(string \<times> string) list"
  mail_net :: "delivery list"
  wall :: int
  entropy :: "nat list list"
  trace :: "event list"

text \<open>A world at time 0 with empty tables, in which every call is delivered.\<close>

definition start_world :: "'s \<Rightarrow> nat list list \<Rightarrow> 's world" where
  "start_world s bytes = \<lparr>kv = s, net = [], db = \<lparr>users = [], connections = [], next_id = 1\<rparr>, db_net = [], outbox = [],
     mail_net = [], wall = 0, entropy = bytes, trace = []\<rparr>"

definition redis_call :: "('s \<Rightarrow> (error + 'a) \<times> 's) \<Rightarrow> ('s world, 'a) eff" where
  "redis_call f w =
     (case next_delivery (net w) of (d, rest) \<Rightarrow>
        (case deliver d f (kv w) of (r, s) \<Rightarrow> (r, w\<lparr>kv := s, net := rest\<rparr>)))"

definition db_call :: "(database \<Rightarrow> (error + 'a) \<times> database) \<Rightarrow> ('s world, 'a) eff" where
  "db_call f w =
     (case next_delivery (db_net w) of (d, rest) \<Rightarrow>
        (case deliver d f (db w) of (r, s) \<Rightarrow> (r, w\<lparr>db := s, db_net := rest\<rparr>)))"

text \<open>\<^verbatim>\<open>crypto/rand.Read\<close>: the next \<open>n\<close> bytes of the random source.\<close>

definition rand_Read :: "nat \<Rightarrow> ('s world, nat list) eff" where
  "rand_Read n w = (case entropy w of
     [] \<Rightarrow> (Inl (External ''crypto/rand: no entropy''), w)
   | bs # rest \<Rightarrow> (Inr (take n bs), w\<lparr>entropy := rest\<rparr>))"

text \<open>\<^verbatim>\<open>crypto/rand.Int\<close>: a number below \<open>n\<close> drawn from the random source.\<close>

definition rand_Int :: "nat \<Rightarrow> ('s world, nat) eff" where
  "rand_Int n w = (case entropy w of
     [] \<Rightarrow> (Inl (External ''crypto/rand: no entropy''), w)
   | bs # rest \<Rightarrow> (Inr (foldl (\<lambda>a b. a * 256 + b) 0 bs mod n), w\<lparr>entropy := rest\<rparr>))"

definition trace_sink :: "'s world sink" where
  "trace_sink ev w = w\<lparr>trace := trace w @ [ev]\<rparr>"

lemma trace_sink_simps [simp]:
  "kv (trace_sink ev w) = kv w" "net (trace_sink ev w) = net w" "db (trace_sink ev w) = db w"
  "db_net (trace_sink ev w) = db_net w" "outbox (trace_sink ev w) = outbox w"
  "mail_net (trace_sink ev w) = mail_net w" "wall (trace_sink ev w) = wall w"
  "entropy (trace_sink ev w) = entropy w" "trace (trace_sink ev w) = trace w @ [ev]"
  by (simp_all add: trace_sink_def)

text \<open>A sink that only touches the telemetry.\<close>

definition quiet :: "'s world sink \<Rightarrow> bool" where
  "quiet tr \<longleftrightarrow> (\<forall>ev w. \<exists>t. tr ev w = w\<lparr>trace := t\<rparr>)"

lemma quiet_noop [simp]: "quiet noop"
  unfolding quiet_def by (metis noop_apply world.surjective world.update_convs(9))

lemma quiet_trace_sink [simp]: "quiet trace_sink"
  by (auto simp: quiet_def trace_sink_def)

lemma quiet_apply:
  assumes "quiet tr"
  shows "kv (tr ev w) = kv w" "net (tr ev w) = net w" "db (tr ev w) = db w" "db_net (tr ev w) = db_net w"
    "outbox (tr ev w) = outbox w" "mail_net (tr ev w) = mail_net w" "wall (tr ev w) = wall w" "entropy (tr ev w) = entropy w"
proof -
  obtain t where "tr ev w = w\<lparr>trace := t\<rparr>"
    using assms by (auto simp: quiet_def)
  then show "kv (tr ev w) = kv w" "net (tr ev w) = net w" "db (tr ev w) = db w" "db_net (tr ev w) = db_net w"
    "outbox (tr ev w) = outbox w" "mail_net (tr ev w) = mail_net w" "wall (tr ev w) = wall w" "entropy (tr ev w) = entropy w"
    by simp_all
qed

lemma redis_call_frame [simp]:
  "db (snd (redis_call f w)) = db w" "db_net (snd (redis_call f w)) = db_net w"
  "outbox (snd (redis_call f w)) = outbox w" "mail_net (snd (redis_call f w)) = mail_net w"
  "wall (snd (redis_call f w)) = wall w" "entropy (snd (redis_call f w)) = entropy w"
  "trace (snd (redis_call f w)) = trace w"
  by (simp_all add: redis_call_def split: prod.splits)

lemma redis_call_others:
  "redis_call f w = (r, w') \<Longrightarrow> db w' = db w \<and> outbox w' = outbox w \<and> wall w' = wall w \<and> trace w' = trace w"
  using redis_call_frame [of f w] by simp

lemma db_call_frame [simp]:
  "kv (snd (db_call f w)) = kv w" "net (snd (db_call f w)) = net w"
  "outbox (snd (db_call f w)) = outbox w" "mail_net (snd (db_call f w)) = mail_net w"
  "wall (snd (db_call f w)) = wall w" "entropy (snd (db_call f w)) = entropy w"
  "trace (snd (db_call f w)) = trace w"
  by (simp_all add: db_call_def split: prod.splits)

lemma redis_call_Inr: "redis_call f w = (Inr x, w') \<Longrightarrow> f (kv w) = (Inr x, kv w')"
  by (auto simp: redis_call_def deliver_Inr split: prod.splits)

lemma redis_call_kv: "redis_call f w = (r, w') \<Longrightarrow> kv w' = kv w \<or> kv w' = snd (f (kv w))"
  using deliver_state [of "fst (next_delivery (net w))" f "kv w"]
  by (auto simp: redis_call_def split: prod.splits)

lemma redis_call_Inl:
  assumes "redis_call f w = (Inl e, w')"
  obtains (script) "f (kv w) = (Inl e, kv w')"
    | (lost) t where "e = transport_error t" "kv w' = kv w \<or> kv w' = snd (f (kv w))"
proof (cases "fst (next_delivery (net w))")
  case Delivered
  then show thesis
    using assms script by (auto simp: redis_call_def split: prod.splits)
next
  case (LostRequest t)
  then show thesis
    using assms lost [of t] by (auto simp: redis_call_def split: prod.splits)
next
  case (LostReply t)
  then show thesis
    using assms lost [of t] by (auto simp: redis_call_def split: prod.splits)
qed

lemma redis_call_read_only:
  assumes "\<And>s. snd (f s) = s"
  shows "kv (snd (redis_call f w)) = kv w"
  using assms redis_call_kv [of f w "fst (redis_call f w)" "snd (redis_call f w)"] by auto

lemma db_call_Inl:
  assumes "db_call f w = (Inl e, w')"
  obtains (query) "f (db w) = (Inl e, db w')"
    | (lost) t where "e = transport_error t" "db w' = db w \<or> db w' = snd (f (db w))"
proof (cases "fst (next_delivery (db_net w))")
  case Delivered
  then show thesis
    using assms query by (auto simp: db_call_def split: prod.splits)
next
  case (LostRequest t)
  then show thesis
    using assms lost [of t] by (auto simp: db_call_def split: prod.splits)
next
  case (LostReply t)
  then show thesis
    using assms lost [of t] by (auto simp: db_call_def split: prod.splits)
qed

lemma db_call_Inr: "db_call f w = (Inr x, w') \<Longrightarrow> f (db w) = (Inr x, db w')"
  by (auto simp: db_call_def deliver_Inr split: prod.splits)

lemma db_call_db: "db_call f w = (r, w') \<Longrightarrow> db w' = db w \<or> db w' = snd (f (db w))"
  using deliver_state [of "fst (next_delivery (db_net w))" f "db w"]
  by (auto simp: db_call_def split: prod.splits)

end
