(* ===== verification/Json.thy ===== *)
theory Json
  imports Go_Errors
begin

text \<open>
  The part of \<^verbatim>\<open>encoding/json\<close> the stores use: \<^verbatim>\<open>Marshal\<close> of a flat struct of
  strings and integers, and \<^verbatim>\<open>Unmarshal\<close> of such an object, with Go's escaping of quotes,
  control characters and the HTML-sensitive bytes, its case-insensitive match of field names, its
  treatment of null and of unknown fields. Values that are neither strings, integers, booleans nor
  null make the parser fail. Bytes from 128 on are copied; the round trip is stated for ASCII strings,
  on which Go neither validates nor rewrites UTF-8. \<^verbatim>\<open>hex.EncodeToString\<close> is here too.
\<close>

datatype json = JString string | JInt int | JBool bool | JNull

definition ascii :: "string \<Rightarrow> bool" where
  "ascii s \<longleftrightarrow> list_all (\<lambda>c. of_char c < (128::nat)) s"

definition hex_digit :: "nat \<Rightarrow> char" where
  "hex_digit n = ''0123456789abcdef'' ! (n mod 16)"

definition EncodeToString :: "nat list \<Rightarrow> string" where
  "EncodeToString bs = concat (map (\<lambda>b. [hex_digit (b div 16), hex_digit b]) bs)"

definition hex_value :: "char \<Rightarrow> nat option" where
  "hex_value c = (let n = of_char c :: nat in
     if 48 \<le> n \<and> n \<le> 57 then Some (n - 48)
     else if 97 \<le> n \<and> n \<le> 102 then Some (n - 87)
     else if 65 \<le> n \<and> n \<le> 70 then Some (n - 55) else None)"

text \<open>\<^verbatim>\<open>strconv.Quote\<close>, the verb \<^verbatim>\<open>%q\<close>, on ASCII text.\<close>

definition quote_char :: "char \<Rightarrow> string" where
  "quote_char c =
     (let n = of_char c :: nat in
      if c = CHR 0x22 \<or> c = CHR 0x5C then [CHR 0x5C, c]
      else if 7 \<le> n \<and> n \<le> 13 then [CHR 0x5C, ''abtnvfr'' ! (n - 7)]
      else if n < 32 \<or> n = 127 then CHR 0x5C # CHR ''x'' # [hex_digit (n div 16), hex_digit n]
      else [c])"

definition Quote :: "string \<Rightarrow> string" where
  "Quote s = CHR 0x22 # concat (map quote_char s) @ [CHR 0x22]"

section \<open>Printing\<close>

definition escape_char :: "char \<Rightarrow> string" where
  "escape_char c =
     (let n = of_char c :: nat in
      if c = CHR 0x22 \<or> c = CHR 0x5C then [CHR 0x5C, c]
      else if n = 8 then [CHR 0x5C, CHR ''b'']
      else if n = 12 then [CHR 0x5C, CHR ''f'']
      else if n = 10 then [CHR 0x5C, CHR ''n'']
      else if n = 13 then [CHR 0x5C, CHR ''r'']
      else if n = 9 then [CHR 0x5C, CHR ''t'']
      else if n < 32 \<or> c = CHR ''<'' \<or> c = CHR ''>'' \<or> c = CHR ''&''
           then CHR 0x5C # ''u00'' @ [hex_digit (n div 16), hex_digit n]
      else [c])"

definition print_string :: "string \<Rightarrow> string" where
  "print_string s = CHR 0x22 # concat (map escape_char s) @ [CHR 0x22]"

fun print_json :: "json \<Rightarrow> string" where
  "print_json (JString s) = print_string s"
| "print_json (JInt i) = Itoa i"
| "print_json (JBool b) = (if b then ''true'' else ''false'')"
| "print_json JNull = ''null''"

fun print_members :: "(string \<times> json) list \<Rightarrow> string" where
  "print_members [] = ''}''"
| "print_members [(k, v)] = print_string k @ '':'' @ print_json v @ ''}''"
| "print_members ((k, v) # m # ms) = print_string k @ '':'' @ print_json v @ '','' @ print_members (m # ms)"

definition print_object :: "(string \<times> json) list \<Rightarrow> string" where
  "print_object ms = CHR ''{'' # print_members ms"

section \<open>Parsing\<close>

definition skip_ws :: "string \<Rightarrow> string" where
  "skip_ws s = dropWhile (\<lambda>c. c \<in> {CHR '' '', CHR 0x09, CHR 0x0A, CHR 0x0D}) s"

definition hex4 :: "char \<Rightarrow> char \<Rightarrow> char \<Rightarrow> char \<Rightarrow> nat option" where
  "hex4 a b c d = (case (hex_value a, hex_value b, hex_value c, hex_value d) of
     (Some w, Some x, Some y, Some z) \<Rightarrow> Some (((w * 16 + x) * 16 + y) * 16 + z) | _ \<Rightarrow> None)"

definition utf8 :: "nat \<Rightarrow> string" where
  "utf8 n =
     (if n < 128 then [char_of n]
      else if n < 2048 then [char_of (192 + n div 64), char_of (128 + n mod 64)]
      else if n < 65536 then [char_of (224 + n div 4096), char_of (128 + n div 64 mod 64), char_of (128 + n mod 64)]
      else [char_of (240 + n div 262144), char_of (128 + n div 4096 mod 64), char_of (128 + n div 64 mod 64), char_of (128 + n mod 64)])"

text \<open>One escape after the backslash: the bytes it stands for and the rest.\<close>

fun escape_seq :: "string \<Rightarrow> (string \<times> string) option" where
  "escape_seq (c # rest) =
     (if c = CHR 0x22 \<or> c = CHR 0x5C \<or> c = CHR ''/'' then Some ([c], rest)
      else if c = CHR ''b'' then Some ([CHR 0x08], rest)
      else if c = CHR ''f'' then Some ([CHR 0x0C], rest)
      else if c = CHR ''n'' then Some ([CHR 0x0A], rest)
      else if c = CHR ''r'' then Some ([CHR 0x0D], rest)
      else if c = CHR ''t'' then Some ([CHR 0x09], rest)
      else if c = CHR ''u'' then
        (case rest of w # x # y # z # rest' \<Rightarrow>
           (case hex4 w x y z of None \<Rightarrow> None
            | Some n \<Rightarrow>
               if 0xD800 \<le> n \<and> n < 0xDC00 then
                 (case rest' of b # u # w' # x' # y' # z' # rest'' \<Rightarrow>
                    (if b = CHR 0x5C \<and> u = CHR ''u'' then
                       (case hex4 w' x' y' z' of None \<Rightarrow> None
                        | Some m \<Rightarrow> if 0xDC00 \<le> m \<and> m < 0xE000
                            then Some (utf8 (0x10000 + (n - 0xD800) * 1024 + (m - 0xDC00)), rest'')
                            else Some (utf8 0xFFFD, rest'))
                     else Some (utf8 0xFFFD, rest'))
                  | _ \<Rightarrow> Some (utf8 0xFFFD, rest'))
               else if 0xDC00 \<le> n \<and> n < 0xE000 then Some (utf8 0xFFFD, rest')
               else Some (utf8 n, rest'))
         | _ \<Rightarrow> None)
      else None)"
| "escape_seq [] = None"

lemma escape_seq_shorter: "escape_seq s = Some (x, r) \<Longrightarrow> length r < length s"
  by (induction s rule: escape_seq.induct)
    (auto split: if_splits list.splits option.splits)

function string_body :: "string \<Rightarrow> (string \<times> string) option" where
  "string_body s = (case s of [] \<Rightarrow> None
     | c # rest \<Rightarrow>
        if c = CHR 0x22 then Some ([], rest)
        else if c = CHR 0x5C then
          (case escape_seq rest of None \<Rightarrow> None
           | Some (x, rest') \<Rightarrow> map_option (\<lambda>(y, r). (x @ y, r)) (string_body rest'))
        else if of_char c < (32::nat) then None
        else map_option (\<lambda>(y, r). (c # y, r)) (string_body rest))"
  by pat_completeness auto
termination
  by (relation "measure length") (auto dest: escape_seq_shorter)

declare string_body.simps [simp del]

definition number_char :: "char \<Rightarrow> bool" where
  "number_char c \<longleftrightarrow> is_digit c \<or> c \<in> {CHR ''-'', CHR ''+'', CHR ''.'', CHR ''e'', CHR ''E''}"

definition json_integer :: "string \<Rightarrow> int option" where
  "json_integer t =
     (let ds = (case t of c # cs \<Rightarrow> if c = CHR ''-'' then cs else t | [] \<Rightarrow> []) in
      if ds \<noteq> [] \<and> list_all is_digit ds \<and> (hd ds = CHR ''0'' \<longrightarrow> length ds = 1)
      then Some (if hd t = CHR ''-'' then - int (digits_value ds) else int (digits_value ds))
      else None)"

definition json_value :: "string \<Rightarrow> (json \<times> string) option" where
  "json_value s = (case s of [] \<Rightarrow> None
     | c # rest \<Rightarrow>
        if c = CHR 0x22 then map_option (\<lambda>(x, r). (JString x, r)) (string_body rest)
        else if number_char c then
          map_option (\<lambda>i. (JInt i, dropWhile number_char s)) (json_integer (takeWhile number_char s))
        else if HasPrefix s ''true'' then Some (JBool True, drop 4 s)
        else if HasPrefix s ''false'' then Some (JBool False, drop 5 s)
        else if HasPrefix s ''null'' then Some (JNull, drop 4 s)
        else None)"

text \<open>One \<open>"key": value\<close> member.\<close>

definition json_member :: "string \<Rightarrow> ((string \<times> json) \<times> string) option" where
  "json_member s = (case s of [] \<Rightarrow> None
     | c # rest \<Rightarrow>
        if c = CHR 0x22 then
          (case string_body rest of None \<Rightarrow> None
           | Some (k, r) \<Rightarrow>
              (case skip_ws r of [] \<Rightarrow> None
               | d # r' \<Rightarrow> if d = CHR '':'' then map_option (\<lambda>(v, q). ((k, v), skip_ws q)) (json_value (skip_ws r'))
                           else None))
        else None)"

text \<open>
  The members of an object; the fuel bounds their number, and the length of the text is always
  enough, since each member consumes text.
\<close>

fun json_members :: "nat \<Rightarrow> string \<Rightarrow> ((string \<times> json) list \<times> string) option" where
  "json_members 0 s = None"
| "json_members (Suc n) s =
     (case json_member s of None \<Rightarrow> None
      | Some (m, r) \<Rightarrow>
         (case r of [] \<Rightarrow> None
          | c # r' \<Rightarrow> if c = CHR ''}'' then Some ([m], r')
                      else if c = CHR '','' then map_option (\<lambda>(ms, q). (m # ms, q)) (json_members n (skip_ws r'))
                      else None))"

text \<open>
  The first value of a text, as \<^verbatim>\<open>Decoder.Decode\<close> reads it, and the text after it; null sets
  no member.
\<close>

definition decode_object :: "string \<Rightarrow> ((string \<times> json) list \<times> string) option" where
  "decode_object s =
     (case skip_ws s of [] \<Rightarrow> None
      | c # r \<Rightarrow> if HasPrefix (c # r) ''null'' then Some ([], drop 3 r)
          else if c \<noteq> CHR ''{'' then None
          else if HasPrefix (skip_ws r) ''}'' then Some ([], drop 1 (skip_ws r))
          else json_members (length s) (skip_ws r))"

text \<open>\<^verbatim>\<open>Unmarshal\<close> accepts no text after the value.\<close>

definition parse_object :: "string \<Rightarrow> (string \<times> json) list option" where
  "parse_object s =
     (case decode_object s of None \<Rightarrow> None | Some (ms, q) \<Rightarrow> if skip_ws q = [] then Some ms else None)"

text \<open>
  Assigning the members to a struct field: the last member whose name matches wins, null leaves the
  field alone, a value of another type is an error.
\<close>

definition string_member :: "string \<Rightarrow> (string \<times> json) list \<Rightarrow> string option" where
  "string_member name ms = foldl (\<lambda>acc (k, v).
     if EqualFold k name then (case v of JString s \<Rightarrow> map_option (\<lambda>_. s) acc | JNull \<Rightarrow> acc | _ \<Rightarrow> None)
     else acc) (Some []) ms"

definition int64_member :: "string \<Rightarrow> (string \<times> json) list \<Rightarrow> int option" where
  "int64_member name ms = foldl (\<lambda>acc (k, v).
     if EqualFold k name then
       (case v of JInt i \<Rightarrow> if int64_range i then map_option (\<lambda>_. i) acc else None | JNull \<Rightarrow> acc | _ \<Rightarrow> None)
     else acc) (Some 0) ms"

definition bool_member :: "string \<Rightarrow> (string \<times> json) list \<Rightarrow> bool option" where
  "bool_member name ms = foldl (\<lambda>acc (k, v).
     if EqualFold k name then (case v of JBool b \<Rightarrow> map_option (\<lambda>_. b) acc | JNull \<Rightarrow> acc | _ \<Rightarrow> None)
     else acc) (Some False) ms"

section \<open>Enough fuel\<close>

text \<open>Reading consumes text, so that more fuel than the length of the text gives the same members.\<close>

lemma skip_ws_length: "length (skip_ws s) \<le> length s"
  by (simp add: skip_ws_def length_dropWhile_le)

lemma string_body_shorter: "string_body s = Some (x, r) \<Longrightarrow> length r < length s"
proof (induction s arbitrary: x r rule: measure_induct_rule [of length])
  case (less s)
  show ?case
  proof (cases s)
    case Nil
    then show ?thesis
      using less.prems by (simp add: string_body.simps)
  next
    case (Cons c rest)
    have "length r' < Suc (length rest)" if "string_body t = Some (y, r')" "length t \<le> length rest" for t y r'
      using less.IH [of t y r'] that by (simp add: Cons)
    then show ?thesis
      using less.prems unfolding Cons
      by (subst (asm) string_body.simps) (auto split: if_splits option.splits dest: escape_seq_shorter less_imp_le)
  qed
qed

lemma json_value_length: "json_value s = Some (v, r) \<Longrightarrow> length r \<le> length s"
  by (auto simp: json_value_def le_SucI length_dropWhile_le split: list.splits if_splits dest!: string_body_shorter)

lemma json_member_shorter: "json_member s = Some (m, r) \<Longrightarrow> length r < length s"
proof (cases s)
  case (Cons c rest)
  assume "json_member s = Some (m, r)"
  then obtain k r1 d r2 v q where "string_body rest = Some (k, r1)" "skip_ws r1 = d # r2" "json_value (skip_ws r2) = Some (v, q)" "r = skip_ws q"
    by (auto simp: json_member_def Cons split: if_splits option.splits list.splits)
  then show ?thesis
    using string_body_shorter [of rest k r1] json_value_length [of "skip_ws r2" v q] skip_ws_length [of r1] skip_ws_length [of r2] skip_ws_length [of q]
    by (simp add: Cons)
qed (simp add: json_member_def)

lemma json_members_fuel: "length s < n \<Longrightarrow> length s < k \<Longrightarrow> json_members n s = json_members k s"
proof (induction n s arbitrary: k rule: json_members.induct)
  case (2 n s)
  then obtain k' where k: "k = Suc k'"
    by (cases k) auto
  have "json_members n (skip_ws r') = json_members k' (skip_ws r')" if "json_member s = Some (m, CHR '','' # r')" for m r'
    using "2.IH" [of "(m, CHR '','' # r')" m "CHR '','' # r'" "CHR '',''" r' k'] that "2.prems" k json_member_shorter [OF that] skip_ws_length [of r'] by simp
  then show ?case
    unfolding k by (auto split: option.splits list.splits)
qed simp

text \<open>An object is read as with any larger amount of fuel.\<close>

lemma decode_object_fuel:
  assumes "skip_ws s = CHR ''{'' # r" "\<not> HasPrefix (skip_ws r) ''}''" "length s \<le> n"
  shows "decode_object s = json_members n (skip_ws r)"
proof -
  have "length (skip_ws r) < length s"
    using skip_ws_length [of s] skip_ws_length [of r] by (simp add: assms(1))
  then show ?thesis
    using assms json_members_fuel [of "skip_ws r" "length s" n] by (simp add: decode_object_def HasPrefix_def)
qed

section \<open>Round trip\<close>

lemma hex_value_digit: "n < 16 \<Longrightarrow> hex_value (hex_digit n) = Some n"
proof -
  assume "n < 16"
  then have "n \<in> {0, 1, 2, 3, 4, 5, 6, 7, 8, 9, 10, 11, 12, 13, 14, 15}"
    by (simp only: insert_iff empty_iff) presburger
  then show ?thesis
    by (elim insertE) (simp_all add: hex_value_def hex_digit_def)
qed

lemma hex4_code: "n < 256 \<Longrightarrow> hex4 (CHR ''0'') (CHR ''0'') (hex_digit (n div 16)) (hex_digit n) = Some n"
proof -
  assume "n < 256"
  then have "hex_value (hex_digit (n div 16)) = Some (n div 16)" "hex_value (hex_digit (n mod 16)) = Some (n mod 16)"
    by (simp_all add: hex_value_digit)
  moreover have "hex_digit (n mod 16) = hex_digit n" "hex_value (CHR ''0'') = Some 0"
    by (simp_all add: hex_digit_def hex_value_def)
  ultimately show ?thesis
    by (simp add: hex4_def)
qed

lemma escape_seq_code: "n < 128 \<Longrightarrow> escape_seq (''u00'' @ [hex_digit (n div 16), hex_digit n] @ r) = Some ([char_of n], r)"
  by (simp add: hex4_code utf8_def)

lemma escape_char_cases:
  obtains (plain) "escape_char c = [c]" "c \<noteq> CHR 0x22" "c \<noteq> CHR 0x5C" "\<not> of_char c < (32::nat)"
    | (escaped) t where "escape_char c = CHR 0x5C # t" "\<And>r. escape_seq (t @ r) = Some ([c], r)"
proof -
  let ?n = "of_char c :: nat"
  have "c \<in> {CHR 0x08, CHR 0x09, CHR 0x0A, CHR 0x0C, CHR 0x0D}" if "?n \<in> {8, 9, 10, 12, 13}"
    using that by (simp flip: of_char_eq_iff [where 'a = nat])
  then have "?n \<notin> {8, 9, 10, 12, 13} \<or> c \<in> {CHR 0x08, CHR 0x09, CHR 0x0A, CHR 0x0C, CHR 0x0D}"
    by satx
  then consider (quote) "c = CHR 0x22 \<or> c = CHR 0x5C"
    | (short) "c \<in> {CHR 0x08, CHR 0x09, CHR 0x0A, CHR 0x0C, CHR 0x0D}"
    | (hex) "c \<noteq> CHR 0x22" "c \<noteq> CHR 0x5C" "?n \<notin> {8, 9, 10, 12, 13}" "?n < 32 \<or> c = CHR ''<'' \<or> c = CHR ''>'' \<or> c = CHR ''&''"
    | (other) "c \<noteq> CHR 0x22" "c \<noteq> CHR 0x5C" "\<not> (?n < 32 \<or> c = CHR ''<'' \<or> c = CHR ''>'' \<or> c = CHR ''&'')"
    by satx
  then show thesis
  proof cases
    case quote
    then show thesis
      by (intro escaped [of "[c]"]) (auto simp: escape_char_def)
  next
    case short
    then obtain x where "(c, x) \<in> {(CHR 0x08, CHR ''b''), (CHR 0x0C, CHR ''f''), (CHR 0x0A, CHR ''n''),
        (CHR 0x0D, CHR ''r''), (CHR 0x09, CHR ''t'')}"
      by blast
    then show thesis
      by (intro escaped [of "[x]"]) (auto simp: escape_char_def)
  next
    case hex
    then have "?n < 128"
      by auto
    moreover have "escape_char c = CHR 0x5C # ''u00'' @ [hex_digit (?n div 16), hex_digit ?n]"
      using hex unfolding escape_char_def by (simp add: Let_def)
    ultimately show thesis
      using escape_seq_code [of ?n] by (intro escaped) auto
  next
    case other
    then show thesis
      by (intro plain) (auto simp: escape_char_def Let_def)
  qed
qed

lemma string_body_escape: "string_body (escape_char c @ r) = map_option (\<lambda>(y, q). (c # y, q)) (string_body r)"
proof (cases c rule: escape_char_cases)
  case plain
  then show ?thesis
    by (subst string_body.simps) simp
next
  case (escaped t)
  then show ?thesis
    by (subst string_body.simps) simp
qed

lemma string_body_print: "string_body (concat (map escape_char s) @ CHR 0x22 # r) = Some (s, r)"
proof (induction s)
  case Nil
  show ?case
    by (subst string_body.simps) simp
qed (simp add: string_body_escape)

lemma number_char_digits: "list_all is_digit ds \<Longrightarrow> list_all number_char ds"
  by (auto simp: list_all_iff number_char_def)

lemma nat_digits_no_zero: "0 < n \<Longrightarrow> hd (nat_digits n) \<noteq> CHR ''0''"
proof (induction n rule: nat_digits.induct)
  case (1 n)
  have "digit_char n \<noteq> CHR ''0''" if "n < 10"
    using digit_char_props(2) [OF that] "1.prems" by (auto simp: digit_value_def)
  then show ?case
    using 1 nat_digits_props [of "n div 10"] by (cases "n < 10") (auto simp: nat_digits.simps [of n])
qed

lemma nat_digits_short: "hd (nat_digits n) = CHR ''0'' \<Longrightarrow> length (nat_digits n) = 1"
  using nat_digits_no_zero [of n] by (cases "n = 0") (auto simp: nat_digits.simps)

lemma Itoa_number: "list_all number_char (Itoa i) \<and> Itoa i \<noteq> []"
  using nat_digits_props number_char_digits by (simp add: Itoa_def) (simp add: number_char_def)

lemma json_integer_Itoa: "json_integer (Itoa i) = Some i"
proof (cases "i < 0")
  case True
  then show ?thesis
    using nat_digits_props [of "nat (- i)"] nat_digits_short [of "nat (- i)"]
    by (simp add: json_integer_def Itoa_def)
next
  case False
  obtain c cs where digits: "nat_digits (nat i) = c # cs"
    using nat_digits_props [of "nat i"] by (cases "nat_digits (nat i)") auto
  then show ?thesis
    using False nat_digits_props [of "nat i"] nat_digits_short [of "nat i"] nat_digits_hd [of "nat i"]
    by (auto simp: json_integer_def Itoa_def)
qed

lemma json_value_print:
  assumes "r = [] \<or> \<not> number_char (hd r)"
  shows "json_value (print_json v @ r) = Some (v, r)"
proof (cases v)
  case (JString s)
  then show ?thesis
    by (simp add: json_value_def print_string_def string_body_print)
next
  case (JInt i)
  obtain c cs where itoa: "Itoa i = c # cs" "number_char c"
    using Itoa_number [of i] by (cases "Itoa i") auto
  have "takeWhile number_char (Itoa i @ r) = Itoa i" "dropWhile number_char (Itoa i @ r) = r"
    using assms Itoa_number [of i] by (cases r; auto simp: list_all_iff takeWhile_append dropWhile_append)+
  moreover have "c \<noteq> CHR 0x22"
    using itoa by (auto simp: number_char_def is_digit_def less_eq_char_def)
  ultimately show ?thesis
    using itoa JInt json_integer_Itoa [of i] by (simp add: json_value_def)
next
  case (JBool b)
  then show ?thesis
    by (simp add: json_value_def number_char_def is_digit_def HasPrefix_def less_eq_char_def)
next
  case JNull
  then show ?thesis
    by (simp add: json_value_def number_char_def is_digit_def HasPrefix_def less_eq_char_def)
qed

lemma skip_ws_Nil [simp]: "skip_ws [] = []"
  by (simp add: skip_ws_def)

lemma skip_ws_Cons [simp]: "c \<notin> {CHR '' '', CHR 0x09, CHR 0x0A, CHR 0x0D} \<Longrightarrow> skip_ws (c # r) = c # r"
  by (simp add: skip_ws_def)

lemma skip_ws_print_string [simp]: "skip_ws (print_string k @ r) = print_string k @ r"
  by (simp add: print_string_def)

lemma skip_ws_print_json: "skip_ws (print_json v @ r) = print_json v @ r"
proof (cases v)
  case (JInt i)
  obtain c cs where "Itoa i = c # cs" "number_char c"
    using Itoa_number [of i] by (cases "Itoa i") auto
  then show ?thesis
    using JInt by (auto simp: number_char_def is_digit_def less_eq_char_def skip_ws_def)
qed auto

lemma json_member_print:
  assumes "r = c # r'" "c = CHR '','' \<or> c = CHR ''}''"
  shows "json_member (print_string k @ '':'' @ print_json v @ r) = Some ((k, v), r)"
proof -
  have "\<not> number_char (hd r)"
    using assms by (auto simp: number_char_def is_digit_def less_eq_char_def)
  then show ?thesis
    using assms json_value_print [of r v]
    by (auto simp: json_member_def print_string_def string_body_print skip_ws_print_json)
qed

lemma skip_ws_print_members: "skip_ws (print_members ms @ r) = print_members ms @ r"
  by (induction ms rule: print_members.induct) simp_all

lemma json_members_print:
  "ms \<noteq> [] \<Longrightarrow> length ms \<le> n \<Longrightarrow> json_members n (print_members ms @ r) = Some (ms, r)"
proof (induction ms arbitrary: n rule: print_members.induct)
  case (2 k v)
  then show ?case
    using json_member_print [of "''}'' @ r" "CHR ''}''" r k v] by (cases n) simp_all
next
  case (3 k v m ms)
  then show ?case
    using json_member_print [of "'','' @ print_members (m # ms) @ r" "CHR '',''" "print_members (m # ms) @ r" k v]
    by (cases n) (simp_all add: skip_ws_print_members)
qed simp

lemma length_print_members: "length ms \<le> length (print_members ms)"
  by (induction ms rule: print_members.induct) (simp_all add: print_string_def)

lemma decode_print_object: "ms \<noteq> [] \<Longrightarrow> decode_object (print_object ms) = Some (ms, [])"
proof -
  assume "ms \<noteq> []"
  then have "\<not> HasPrefix (print_members ms) ''}''"
    by (cases ms rule: print_members.cases) (simp_all add: print_string_def HasPrefix_def)
  moreover have "json_members (Suc (length (print_members ms))) (print_members ms) = Some (ms, [])"
    using \<open>ms \<noteq> []\<close> length_print_members [of ms] json_members_print [of ms _ "[]"]
    by (simp del: json_members.simps)
  ultimately show ?thesis
    using skip_ws_print_members [of ms "[]"] by (simp add: decode_object_def print_object_def HasPrefix_def del: json_members.simps)
qed

lemma parse_print_object: "ms \<noteq> [] \<Longrightarrow> parse_object (print_object ms) = Some ms"
  by (simp add: parse_object_def decode_print_object skip_ws_def)

end
