(* ===== verification/Kv_Stores.thy ===== *)
theory Kv_Stores
  imports World Json
begin

text \<open>
  The Redis-backed stores: \<^verbatim>\<open>internal/infra/kvstore/redis/store\<close> (one-time passwords, sessions,
  OAuth states, health) and \<^verbatim>\<open>internal/infra/cache/redis/store\<close> (users, health), with the
  interfaces of \<^verbatim>\<open>internal/repository/kvstore\<close> and \<^verbatim>\<open>internal/repository/cache\<close> as records of
  operations. What each repository promises is a locale; that the stores keep the promises over any
  server that satisfies \<open>redis_spec\<close>, whatever calls are lost, is a sublocale of \<open>redis_spec\<close>.
\<close>

section \<open>internal/domain/user\<close>

abbreviation StatusActive :: string where "StatusActive \<equiv> ''active''"
abbreviation StatusDisabled :: string where "StatusDisabled \<equiv> ''disabled''"

record user =
  ID :: int
  Email :: string
  Status :: string

definition CanAuthenticate :: "user \<Rightarrow> bool" where
  "CanAuthenticate u \<longleftrightarrow> Status u = StatusActive"

section \<open>Data and interfaces of the repositories\<close>

record session_data =
  sd_Token :: string
  sd_UserID :: int
  sd_Email :: string
  sd_Method :: string
  sd_ExpiresAt :: int

record oauth_state_data =
  BrowserBindingHash :: string

record 'w otp_repo =
  otp_Store :: "string \<Rightarrow> string \<Rightarrow> duration \<Rightarrow> ('w, unit) eff"
  otp_Consume :: "string \<Rightarrow> string \<Rightarrow> ('w, bool) eff"
  otp_Delete :: "string \<Rightarrow> ('w, unit) eff"

record 'w session_repo =
  sess_Create :: "session_data \<Rightarrow> duration \<Rightarrow> ('w, unit) eff"
  sess_GetByToken :: "string \<Rightarrow> ('w, session_data) eff"
  sess_Delete :: "string \<Rightarrow> ('w, unit) eff"

record 'w oauth_state_repo =
  st_Store :: "string \<Rightarrow> oauth_state_data \<Rightarrow> duration \<Rightarrow> ('w, unit) eff"
  st_Consume :: "string \<Rightarrow> ('w, oauth_state_data option) eff"

record 'w user_cache_repo =
  uc_GetByID :: "int \<Rightarrow> ('w, user option) eff"
  uc_SetByID :: "int \<Rightarrow> user \<Rightarrow> ('w, unit) eff"
  uc_DeleteByID :: "int \<Rightarrow> ('w, unit) eff"

section \<open>Commands and script replies\<close>

text \<open>
  The lifetime the client library sends for a \<^verbatim>\<open>Set\<close>: none when it is not positive, at least one
  millisecond otherwise.
\<close>

definition redis_ttl :: "duration \<Rightarrow> int option" where
  "redis_ttl d = (if 0 < d then Some (max 1 (Milliseconds d)) else None)"

definition redis_Set :: "'s redis \<Rightarrow> string \<Rightarrow> string \<Rightarrow> duration \<Rightarrow> ('s world, unit) eff" where
  "redis_Set R k v ttl = redis_call (\<lambda>s. (Inr (), SET R k v (redis_ttl ttl) s))"

definition redis_Get :: "'s redis \<Rightarrow> string \<Rightarrow> ('s world, string) eff" where
  "redis_Get R k = redis_call (\<lambda>s.
     (case GET R k s of Inl e \<Rightarrow> Inl e | Inr None \<Rightarrow> Inl (Sentinel RedisNil) | Inr (Some v) \<Rightarrow> Inr v, s))"

definition redis_Del :: "'s redis \<Rightarrow> string \<Rightarrow> ('s world, unit) eff" where
  "redis_Del R k = redis_call (\<lambda>s. (Inr (), DEL R k s))"

datatype reply = IntReply int | BulkReply string | NilReply | ArrayReply "reply list"

text \<open>\<^verbatim>\<open>redisInt\<close> of \<^verbatim>\<open>lua_response.go\<close>.\<close>

definition redisInt :: "reply \<Rightarrow> error + int" where
  "redisInt r = (case r of IntReply n \<Rightarrow> Inr n | _ \<Rightarrow> Inl (Msg ''expected int64''))"

text \<open>A nil reply of a script reaches the caller as the error \<^verbatim>\<open>redis.Nil\<close>.\<close>

definition script_call :: "('s \<Rightarrow> (error + reply) \<times> 's) \<Rightarrow> ('s world, reply) eff" where
  "script_call f = redis_call (\<lambda>s. case f s of (Inr NilReply, s') \<Rightarrow> (Inl (Sentinel RedisNil), s') | r \<Rightarrow> r)"

definition reply_Text :: "reply \<Rightarrow> error + string" where
  "reply_Text r = (case r of BulkReply s \<Rightarrow> Inr s | _ \<Rightarrow> Inl (External ''redis: unexpected type for String''))"

definition reply_Slice :: "reply \<Rightarrow> error + reply list" where
  "reply_Slice r = (case r of ArrayReply rs \<Rightarrow> Inr rs | _ \<Rightarrow> Inl (External ''redis: unexpected type for Slice''))"

section \<open>One-time passwords\<close>

definition otpKeyPrefix :: string where "otpKeyPrefix = ''otp:''"

definition consumeOTPScript :: "'s redis \<Rightarrow> string \<Rightarrow> string \<Rightarrow> 's \<Rightarrow> (error + reply) \<times> 's" where
  "consumeOTPScript R key candidate s =
     (case GET R key s of
        Inl e \<Rightarrow> (Inl e, s)
      | Inr None \<Rightarrow> (Inr (IntReply 0), s)
      | Inr (Some stored) \<Rightarrow>
          if stored \<noteq> candidate then (Inr (IntReply 1), s)
          else (Inr (IntReply 2), DEL R key s))"

definition OTPStore_Store :: "'s redis \<Rightarrow> string \<Rightarrow> string \<Rightarrow> duration \<Rightarrow> ('s world, unit) eff" where
  "OTPStore_Store R email hashedCode ttl =
     attempt (redis_Set R (otpKeyPrefix @ email) hashedCode ttl) (\<lambda>e. fail (Errorf ''store otp'' e)) return"

definition OTPStore_Consume :: "'s redis \<Rightarrow> string \<Rightarrow> string \<Rightarrow> ('s world, bool) eff" where
  "OTPStore_Consume R email candidateHash =
     attempt (script_call (consumeOTPScript R (otpKeyPrefix @ email) candidateHash))
       (\<lambda>e. fail (Errorf ''consume otp'' e))
       (\<lambda>result. case redisInt result of
          Inl e \<Rightarrow> fail (Errorf ''consume otp'' e)
        | Inr status \<Rightarrow>
            if status = 0 then fail (Sentinel ErrOTPNotFound)
            else if status = 1 then return False
            else if status = 2 then return True
            else fail (Msg (''consume otp: unexpected script status '' @ Itoa status)))"

definition OTPStore_Delete :: "'s redis \<Rightarrow> string \<Rightarrow> ('s world, unit) eff" where
  "OTPStore_Delete R email =
     attempt (redis_Del R (otpKeyPrefix @ email)) (\<lambda>e. fail (Errorf ''delete otp'' e)) return"

definition OTPStore :: "'s redis \<Rightarrow> 's world otp_repo" where
  "OTPStore R = \<lparr>otp_Store = OTPStore_Store R, otp_Consume = OTPStore_Consume R, otp_Delete = OTPStore_Delete R\<rparr>"

section \<open>Sessions\<close>

definition sessionKeyPrefix :: string where "sessionKeyPrefix = ''session:''"

text \<open>\<^verbatim>\<open>time.Time\<close> values are nanoseconds since the epoch.\<close>

definition Unix :: "int \<Rightarrow> int" where
  "Unix t = t div Second"

definition time_Unix :: "int \<Rightarrow> int" where
  "time_Unix sec = sec * Second"

definition marshal_session :: "session_data \<Rightarrow> error + string" where
  "marshal_session d = Inr (print_object
     [(''user_id'', JInt (sd_UserID d)), (''email'', JString (sd_Email d)),
      (''method'', JString (sd_Method d)), (''expires_at'', JInt (Unix (sd_ExpiresAt d)))])"

definition unmarshal_session :: "string \<Rightarrow> string \<Rightarrow> error + session_data" where
  "unmarshal_session token data =
     (case parse_object data of
        None \<Rightarrow> Inl (External ''invalid JSON'')
      | Some ms \<Rightarrow>
          (case (int64_member ''user_id'' ms, string_member ''email'' ms, string_member ''method'' ms, int64_member ''expires_at'' ms) of
             (Some u, Some e, Some m, Some x) \<Rightarrow>
               Inr \<lparr>sd_Token = token, sd_UserID = u, sd_Email = e, sd_Method = m, sd_ExpiresAt = time_Unix x\<rparr>
           | _ \<Rightarrow> Inl (External ''JSON value of the wrong type'')))"

definition SessionStore_Create :: "'s redis \<Rightarrow> session_data \<Rightarrow> duration \<Rightarrow> ('s world, unit) eff" where
  "SessionStore_Create R session ttl =
     (case marshal_session session of
        Inl e \<Rightarrow> fail (Errorf ''marshal session'' e)
      | Inr data \<Rightarrow>
          attempt (redis_Set R (sessionKeyPrefix @ sd_Token session) data ttl)
            (\<lambda>e. fail (Errorf ''store session'' e)) return)"

definition SessionStore_GetByToken :: "'s redis \<Rightarrow> string \<Rightarrow> ('s world, session_data) eff" where
  "SessionStore_GetByToken R token =
     attempt (redis_Get R (sessionKeyPrefix @ token))
       (\<lambda>e. if errors_Is e RedisNil
             then fail (Errorf ''get session'' (Joined [Sentinel ErrSessionNotFound, e]))
             else fail (Errorf ''get session'' e))
       (\<lambda>data. case unmarshal_session token data of
          Inl e \<Rightarrow> fail (Errorf ''unmarshal session'' e)
        | Inr d \<Rightarrow> return d)"

definition SessionStore_Delete :: "'s redis \<Rightarrow> string \<Rightarrow> ('s world, unit) eff" where
  "SessionStore_Delete R token =
     attempt (redis_Del R (sessionKeyPrefix @ token)) (\<lambda>e. fail (Errorf ''delete session'' e)) return"

definition SessionStore :: "'s redis \<Rightarrow> 's world session_repo" where
  "SessionStore R = \<lparr>sess_Create = SessionStore_Create R, sess_GetByToken = SessionStore_GetByToken R,
     sess_Delete = SessionStore_Delete R\<rparr>"

section \<open>OAuth states\<close>

definition oauthStateKeyPrefix :: string where "oauthStateKeyPrefix = ''oauth_state:''"

definition consumeOAuthStateScript :: "'s redis \<Rightarrow> string \<Rightarrow> 's \<Rightarrow> (error + reply) \<times> 's" where
  "consumeOAuthStateScript R key s =
     (case GET R key s of
        Inl e \<Rightarrow> (Inl e, s)
      | Inr None \<Rightarrow> (Inr NilReply, s)
      | Inr (Some v) \<Rightarrow> (Inr (BulkReply v), DEL R key s))"

definition OAuthStateStore_Store :: "'s redis \<Rightarrow> string \<Rightarrow> oauth_state_data \<Rightarrow> duration \<Rightarrow> ('s world, unit) eff" where
  "OAuthStateStore_Store R state data ttl =
     attempt (redis_Set R (oauthStateKeyPrefix @ state) (BrowserBindingHash data) ttl)
       (\<lambda>e. fail (Errorf ''store oauth state'' e)) return"

definition OAuthStateStore_Consume :: "'s redis \<Rightarrow> string \<Rightarrow> ('s world, oauth_state_data option) eff" where
  "OAuthStateStore_Consume R state =
     attempt
       (attempt (script_call (consumeOAuthStateScript R (oauthStateKeyPrefix @ state))) fail
          (\<lambda>r. case reply_Text r of Inl e \<Rightarrow> fail e | Inr v \<Rightarrow> return v))
       (\<lambda>e. if e = Sentinel RedisNil then return None else fail (Errorf ''consume oauth state'' e))
       (\<lambda>v. return (Some \<lparr>BrowserBindingHash = v\<rparr>))"

definition OAuthStateStore :: "'s redis \<Rightarrow> 's world oauth_state_repo" where
  "OAuthStateStore R = \<lparr>st_Store = OAuthStateStore_Store R, st_Consume = OAuthStateStore_Consume R\<rparr>"

section \<open>Cached users\<close>

definition userKeyPrefix :: string where "userKeyPrefix = ''user:id:''"

text \<open>\<^verbatim>\<open>%q\<close> of a key, which holds no character that needs escaping.\<close>

definition quoted :: "string \<Rightarrow> string" where
  "quoted s = CHR 0x22 # s @ [CHR 0x22]"

definition marshal_user :: "user \<Rightarrow> error + string" where
  "marshal_user u = Inr (print_object
     [(''ID'', JInt (ID u)), (''Email'', JString (Email u)), (''Status'', JString (Status u))])"

definition unmarshal_user :: "string \<Rightarrow> error + user" where
  "unmarshal_user data =
     (case parse_object data of
        None \<Rightarrow> Inl (External ''invalid JSON'')
      | Some ms \<Rightarrow>
          (case (int64_member ''ID'' ms, string_member ''Email'' ms, string_member ''Status'' ms) of
             (Some i, Some e, Some s) \<Rightarrow> Inr \<lparr>ID = i, Email = e, Status = s\<rparr>
           | _ \<Rightarrow> Inl (External ''JSON value of the wrong type'')))"

definition UserCacheStore_GetByID :: "'s redis \<Rightarrow> int \<Rightarrow> ('s world, user option) eff" where
  "UserCacheStore_GetByID R i =
     (let key = userKeyPrefix @ Itoa i in
      attempt (redis_Get R key)
        (\<lambda>e. if e = Sentinel RedisNil then return None
              else fail (Errorf (''redis get key '' @ quoted key) e))
        (\<lambda>data. case unmarshal_user data of
           Inl e \<Rightarrow> fail (Errorf (''unmarshal key '' @ quoted key @ '' payload'') e)
         | Inr u \<Rightarrow> return (Some u)))"

definition UserCacheStore_SetByID :: "'s redis \<Rightarrow> duration \<Rightarrow> int \<Rightarrow> user \<Rightarrow> ('s world, unit) eff" where
  "UserCacheStore_SetByID R cacheTTL i u =
     (let key = userKeyPrefix @ Itoa i in
      case marshal_user u of
        Inl e \<Rightarrow> fail (Errorf (''marshal user for key '' @ quoted key) e)
      | Inr data \<Rightarrow> attempt (redis_Set R key data cacheTTL) (\<lambda>e. fail (Errorf (''redis set key '' @ quoted key) e)) return)"

definition UserCacheStore_DeleteByID :: "'s redis \<Rightarrow> int \<Rightarrow> ('s world, unit) eff" where
  "UserCacheStore_DeleteByID R i =
     (let key = userKeyPrefix @ Itoa i in
      attempt (redis_Del R key) (\<lambda>e. fail (Errorf (''redis del key '' @ quoted key) e)) return)"

definition UserCacheStore :: "'s redis \<Rightarrow> duration \<Rightarrow> 's world user_cache_repo" where
  "UserCacheStore R cacheTTL = \<lparr>uc_GetByID = UserCacheStore_GetByID R, uc_SetByID = UserCacheStore_SetByID R cacheTTL,
     uc_DeleteByID = UserCacheStore_DeleteByID R\<rparr>"

section \<open>Health\<close>

text \<open>\<open>ping\<close> is the answer of the server to a PING.\<close>

definition kv_HealthStore_Ping :: "('s \<Rightarrow> error + unit) \<Rightarrow> ('s world, unit) eff" where
  "kv_HealthStore_Ping ping =
     attempt (redis_call (\<lambda>s. (ping s, s))) (\<lambda>e. fail (Errorf ''redis kv ping failed'' e)) return"

definition cache_HealthStore_Ping :: "('s \<Rightarrow> error + unit) \<Rightarrow> ('s world, unit) eff" where
  "cache_HealthStore_Ping ping =
     attempt (redis_call (\<lambda>s. (ping s, s))) (\<lambda>e. fail (Errorf ''redis ping failed'' e)) return"

section \<open>What the repositories promise\<close>

text \<open>
  \<open>otps w\<close> is the map from addresses to the hash that can still be consumed. A failed call may or
  may not have taken effect.
\<close>

locale otp_repository =
  fixes repo :: "'w otp_repo" and otps :: "'w \<Rightarrow> string \<Rightarrow> string option"
  assumes Store_ok: "otp_Store repo e h ttl w = (Inr u, w') \<Longrightarrow> otps w' = (otps w)(e \<mapsto> h)"
    and Store_err: "otp_Store repo e h ttl w = (Inl x, w') \<Longrightarrow> otps w' = otps w \<or> otps w' = (otps w)(e \<mapsto> h)"
    and Consume_match: "otp_Consume repo e h w = (Inr True, w') \<Longrightarrow> otps w e = Some h \<and> otps w' = (otps w)(e := None)"
    and Consume_mismatch: "otp_Consume repo e h w = (Inr False, w') \<Longrightarrow> (\<exists>h'. otps w e = Some h' \<and> h' \<noteq> h) \<and> otps w' = otps w"
    and Consume_absent: "otp_Consume repo e h w = (Inl x, w') \<Longrightarrow> errors_Is x ErrOTPNotFound \<Longrightarrow> otps w e = None \<and> otps w' = otps w"
    and Consume_err: "otp_Consume repo e h w = (Inl x, w') \<Longrightarrow>
          otps w' = otps w \<or> otps w e = Some h \<and> otps w' = (otps w)(e := None)"
    and Delete_ok: "otp_Delete repo e w = (Inr u, w') \<Longrightarrow> otps w' = (otps w)(e := None)"
    and Delete_err: "otp_Delete repo e w = (Inl x, w') \<Longrightarrow> otps w' = otps w \<or> otps w' = (otps w)(e := None)"
begin

text \<open>A code that was accepted once is gone; before that, nothing but a store brings one in.\<close>

lemma Consume_once:
  assumes "otp_Consume repo e h w = (Inr True, w')" "otp_Consume repo e h' w' = (r, w'')"
  shows "r \<noteq> Inr b"
proof (cases r)
  case (Inr b')
  then show ?thesis
    using Consume_match assms(1) Consume_match [of e h' w' w''] Consume_mismatch [of e h' w' w''] assms(2)
    by (cases b') fastforce+
qed simp

lemma Consume_shrinks: "otp_Consume repo e h w = (r, w') \<Longrightarrow> otps w' = otps w \<or> otps w' = (otps w)(e := None)"
  using Consume_match Consume_mismatch Consume_err by (cases r; cases "r = Inr True") (auto, blast+)

end

text \<open>
  \<open>sessions w\<close> maps a token to the record a lookup returns; \<open>stored d\<close> is what a record reads back
  as, which is the record itself with its expiry cut to whole seconds when it is storable.
\<close>

locale session_repository =
  fixes repo :: "'w session_repo" and sessions :: "'w \<Rightarrow> string \<Rightarrow> session_data option"
    and storable :: "session_data \<Rightarrow> bool" and stored :: "session_data \<Rightarrow> session_data option"
  assumes stored: "storable d \<Longrightarrow> stored d = Some (d\<lparr>sd_ExpiresAt := time_Unix (Unix (sd_ExpiresAt d))\<rparr>)"
    and stored_same: "stored d = Some d' \<Longrightarrow> ascii (sd_Email d) \<Longrightarrow> ascii (sd_Method d) \<Longrightarrow>
          d' = d\<lparr>sd_ExpiresAt := time_Unix (Unix (sd_ExpiresAt d))\<rparr>"
    and Create_ok: "sess_Create repo d ttl w = (Inr u, w') \<Longrightarrow> sessions w' = (sessions w)(sd_Token d := stored d)"
    and Create_err: "sess_Create repo d ttl w = (Inl x, w') \<Longrightarrow>
          sessions w' = sessions w \<or> sessions w' = (sessions w)(sd_Token d := stored d)"
    and Get_frame: "sess_GetByToken repo t w = (r, w') \<Longrightarrow> sessions w' = sessions w"
    and Get_ok: "sess_GetByToken repo t w = (Inr d, w') \<Longrightarrow> sessions w t = Some d \<and> sd_Token d = t"
    and Get_absent: "sess_GetByToken repo t w = (Inl x, w') \<Longrightarrow> errors_Is x ErrSessionNotFound \<Longrightarrow> sessions w t = None"
    and Delete_ok: "sess_Delete repo t w = (Inr u, w') \<Longrightarrow> sessions w' = (sessions w)(t := None)"
    and Delete_err: "sess_Delete repo t w = (Inl x, w') \<Longrightarrow> sessions w' = sessions w \<or> sessions w' = (sessions w)(t := None)"

locale oauth_state_repository =
  fixes repo :: "'w oauth_state_repo" and states :: "'w \<Rightarrow> string \<Rightarrow> oauth_state_data option"
  assumes Store_ok: "st_Store repo t d ttl w = (Inr u, w') \<Longrightarrow> states w' = (states w)(t \<mapsto> d)"
    and Store_err: "st_Store repo t d ttl w = (Inl x, w') \<Longrightarrow> states w' = states w \<or> states w' = (states w)(t \<mapsto> d)"
    and Consume_some: "st_Consume repo t w = (Inr (Some d), w') \<Longrightarrow> states w t = Some d \<and> states w' = (states w)(t := None)"
    and Consume_none: "st_Consume repo t w = (Inr None, w') \<Longrightarrow> states w t = None \<and> states w' = states w"
    and Consume_err: "st_Consume repo t w = (Inl x, w') \<Longrightarrow> states w' = states w \<or> states w' = (states w)(t := None)"
begin

lemma Consume_once:
  "st_Consume repo t w = (Inr r, w') \<Longrightarrow> st_Consume repo t w' = (Inr r', w'') \<Longrightarrow> r' = None"
  using Consume_some [of t w _ w'] Consume_none [of t w w'] Consume_some [of t w' _ w'']
  by (cases r; cases r') auto

end

locale user_cache =
  fixes repo :: "'w user_cache_repo" and cached :: "'w \<Rightarrow> int \<Rightarrow> user option"
    and cacheable :: "user \<Rightarrow> bool" and kept :: "user \<Rightarrow> user option"
  assumes kept: "cacheable u \<Longrightarrow> kept u = Some u"
    and Get_frame: "uc_GetByID repo i w = (r, w') \<Longrightarrow> cached w' = cached w"
    and Get_hit: "uc_GetByID repo i w = (Inr (Some u), w') \<Longrightarrow> cached w i = Some u"
    and Get_miss: "uc_GetByID repo i w = (Inr None, w') \<Longrightarrow> cached w i = None"
    and Set_ok: "uc_SetByID repo i u w = (Inr v, w') \<Longrightarrow> cached w' = (cached w)(i := kept u)"
    and Set_err: "uc_SetByID repo i u w = (Inl x, w') \<Longrightarrow> cached w' = cached w \<or> cached w' = (cached w)(i := kept u)"
    and Delete_ok: "uc_DeleteByID repo i w = (Inr v, w') \<Longrightarrow> cached w' = (cached w)(i := None)"
    and Delete_err: "uc_DeleteByID repo i w = (Inl x, w') \<Longrightarrow> cached w' = cached w \<or> cached w' = (cached w)(i := None)"

section \<open>The stores keep the promises\<close>

definition string_at :: "('s \<Rightarrow> string \<Rightarrow> (rvalue \<times> int option) option) \<Rightarrow> 's world \<Rightarrow> string \<Rightarrow> string option" where
  "string_at view w k = (case view (kv w) k of Some (RString v, _) \<Rightarrow> Some v | _ \<Rightarrow> None)"

definition otp_view :: "('s \<Rightarrow> string \<Rightarrow> (rvalue \<times> int option) option) \<Rightarrow> 's world \<Rightarrow> string \<Rightarrow> string option" where
  "otp_view view w e = string_at view w (otpKeyPrefix @ e)"

text \<open>Time passing on the server only removes entries.\<close>

definition advance :: "(int \<Rightarrow> 's \<Rightarrow> 's) \<Rightarrow> int \<Rightarrow> 's world \<Rightarrow> 's world" where
  "advance tick ms w = w\<lparr>kv := tick ms (kv w), wall := wall w + ms * Millisecond\<rparr>"

definition state_view :: "('s \<Rightarrow> string \<Rightarrow> (rvalue \<times> int option) option) \<Rightarrow> 's world \<Rightarrow> string \<Rightarrow> oauth_state_data option" where
  "state_view view w t = map_option oauth_state_data.make (string_at view w (oauthStateKeyPrefix @ t))"

definition session_view :: "('s \<Rightarrow> string \<Rightarrow> (rvalue \<times> int option) option) \<Rightarrow> 's world \<Rightarrow> string \<Rightarrow> session_data option" where
  "session_view view w t = (case string_at view w (sessionKeyPrefix @ t) of None \<Rightarrow> None
     | Some data \<Rightarrow> (case unmarshal_session t data of Inl _ \<Rightarrow> None | Inr d \<Rightarrow> Some d))"

definition user_view :: "('s \<Rightarrow> string \<Rightarrow> (rvalue \<times> int option) option) \<Rightarrow> 's world \<Rightarrow> int \<Rightarrow> user option" where
  "user_view view w i = (case string_at view w (userKeyPrefix @ Itoa i) of None \<Rightarrow> None
     | Some data \<Rightarrow> (case unmarshal_user data of Inl _ \<Rightarrow> None | Inr u \<Rightarrow> Some u))"

definition storable_session :: "session_data \<Rightarrow> bool" where
  "storable_session d \<longleftrightarrow> int64_range (sd_UserID d) \<and> int64_range (Unix (sd_ExpiresAt d)) \<and>
     ascii (sd_Email d) \<and> ascii (sd_Method d)"

definition stored_session :: "session_data \<Rightarrow> session_data option" where
  "stored_session d = (case marshal_session d of Inl _ \<Rightarrow> None | Inr data \<Rightarrow>
     (case unmarshal_session (sd_Token d) data of Inl _ \<Rightarrow> None | Inr d' \<Rightarrow> Some d'))"

definition cacheable_user :: "user \<Rightarrow> bool" where
  "cacheable_user u \<longleftrightarrow> int64_range (ID u) \<and> ascii (Email u) \<and> ascii (Status u)"

definition kept_user :: "user \<Rightarrow> user option" where
  "kept_user u = (case marshal_user u of Inl _ \<Rightarrow> None | Inr data \<Rightarrow>
     (case unmarshal_user data of Inl _ \<Rightarrow> None | Inr u' \<Rightarrow> Some u'))"

lemmas json_field_simps = string_member_def int64_member_def EqualFold_def ToLower_def lower_char_def less_eq_char_def

lemma session_json_roundtrip:
  "storable_session d \<Longrightarrow> stored_session d = Some (d\<lparr>sd_ExpiresAt := time_Unix (Unix (sd_ExpiresAt d))\<rparr>)"
  by (simp add: storable_session_def stored_session_def marshal_session_def unmarshal_session_def
      parse_print_object json_field_simps)

lemma stored_session_same: "stored_session d = Some d' \<Longrightarrow> d' = d\<lparr>sd_ExpiresAt := time_Unix (Unix (sd_ExpiresAt d))\<rparr>"
  by (auto simp: stored_session_def marshal_session_def unmarshal_session_def parse_print_object json_field_simps split: if_splits)

lemma user_json_roundtrip: "cacheable_user u \<Longrightarrow> kept_user u = Some u"
  by (simp add: cacheable_user_def kept_user_def marshal_user_def unmarshal_user_def parse_print_object json_field_simps)

lemma redis_ttl_cases: "redis_ttl d = None \<or> (\<exists>m. redis_ttl d = Some m \<and> 0 < m)"
  by (auto simp: redis_ttl_def)

context redis_spec
begin

lemma redis_Set_cases:
  assumes "redis_Set R k v ttl w = (r, w')"
  obtains (ok) "r = Inr ()" "string_at view w' = (string_at view w)(k \<mapsto> v)"
    | (lost) t where "r = Inl (transport_error t)" "string_at view w' = string_at view w"
    | (unknown) t where "r = Inl (transport_error t)" "string_at view w' = (string_at view w)(k \<mapsto> v)"
proof -
  have view: "view (SET R k v (redis_ttl ttl) s) = (view s)(k \<mapsto> (RString v, map_option (\<lambda>d. clock s + d) (redis_ttl ttl)))" for s
    using SET [of "redis_ttl ttl" _ k v s] redis_ttl_cases [of ttl] by blast
  let ?put = "\<lambda>s. (Inr (), SET R k v (redis_ttl ttl) s)"
  have put: "string_at view w' = (string_at view w)(k \<mapsto> v)" if "kv w' = snd (?put (kv w))"
    using that by (simp add: string_at_def view fun_eq_iff)
  have keep: "string_at view w' = string_at view w" if "kv w' = kv w"
    using that by (simp add: string_at_def fun_eq_iff)
  show thesis
  proof (cases r)
    case (Inl e)
    with assms have "redis_call ?put w = (Inl e, w')"
      by (simp add: redis_Set_def)
    then show thesis
      by (cases rule: redis_call_Inl) (use Inl put keep lost unknown in auto)
  next
    case (Inr x)
    with assms have "redis_call ?put w = (Inr x, w')"
      by (simp add: redis_Set_def)
    from redis_call_Inr [OF this] show thesis
      using Inr put ok by simp
  qed
qed

lemma redis_Del_cases:
  assumes "redis_Del R k w = (r, w')"
  obtains (ok) "r = Inr ()" "string_at view w' = (string_at view w)(k := None)"
    | (lost) t where "r = Inl (transport_error t)" "string_at view w' = string_at view w"
    | (unknown) t where "r = Inl (transport_error t)" "string_at view w' = (string_at view w)(k := None)"
proof -
  let ?del = "\<lambda>s. (Inr (), DEL R k s)"
  have del: "string_at view w' = (string_at view w)(k := None)" if "kv w' = snd (?del (kv w))"
    using that by (simp add: string_at_def DEL fun_eq_iff)
  have keep: "string_at view w' = string_at view w" if "kv w' = kv w"
    using that by (simp add: string_at_def fun_eq_iff)
  show thesis
  proof (cases r)
    case (Inl e)
    with assms have "redis_call ?del w = (Inl e, w')"
      by (simp add: redis_Del_def)
    then show thesis
      by (cases rule: redis_call_Inl) (use Inl del keep lost unknown in auto)
  next
    case (Inr x)
    with assms have "redis_call ?del w = (Inr x, w')"
      by (simp add: redis_Del_def)
    from redis_call_Inr [OF this] show thesis
      using Inr del ok by simp
  qed
qed

lemma redis_Get_cases:
  assumes "redis_Get R k w = (r, w')"
  obtains (hit) v where "r = Inr v" "string_at view w k = Some v" "kv w' = kv w"
    | (miss) "r = Inl (Sentinel RedisNil)" "string_at view w k = None" "kv w' = kv w"
    | (failed) e where "r = Inl e" "\<not> errors_Is e RedisNil" "\<not> errors_Is e ErrSessionNotFound" "kv w' = kv w"
proof -
  let ?get = "\<lambda>s. (case GET R k s of Inl e \<Rightarrow> Inl e | Inr None \<Rightarrow> Inl (Sentinel RedisNil) | Inr (Some v) \<Rightarrow> Inr v, s)"
  have kv: "kv w' = kv w"
    using assms redis_call_kv [of ?get w r w'] by (auto simp: redis_Get_def)
  have answer: thesis if "?get (kv w) = (r, kv w')"
    using that kv hit miss failed
    by (auto simp: GET string_at_def WRONGTYPE_def split: option.splits rvalue.splits)
  show thesis
  proof (cases r)
    case (Inl e)
    with assms have "redis_call ?get w = (Inl e, w')"
      by (simp add: redis_Get_def)
    then show thesis
      by (cases rule: redis_call_Inl) (use Inl kv failed answer in auto)
  next
    case (Inr x)
    with assms have "redis_call ?get w = (Inr x, w')"
      by (simp add: redis_Get_def)
    from redis_call_Inr [OF this] show thesis
      unfolding Inr [symmetric] by (rule answer)
  qed
qed

lemma string_at_advance:
  "string_at view (advance tick (int d) w) k = None \<or> string_at view (advance tick (int d) w) k = string_at view w k"
  by (simp add: string_at_def advance_def view_tick split: option.splits)

lemma string_at_kv: "kv w' = kv w \<Longrightarrow> string_at view w' = string_at view w"
  by (simp add: string_at_def fun_eq_iff)

end

lemma prefix_eq_iff:
  "otpKeyPrefix @ a = otpKeyPrefix @ b \<longleftrightarrow> a = b"
  "sessionKeyPrefix @ a = sessionKeyPrefix @ b \<longleftrightarrow> a = b"
  "oauthStateKeyPrefix @ a = oauthStateKeyPrefix @ b \<longleftrightarrow> a = b"
  "userKeyPrefix @ a = userKeyPrefix @ b \<longleftrightarrow> a = b"
  by simp_all

lemma prefix_disjoint [simp]:
  "userKeyPrefix @ a \<noteq> otpKeyPrefix @ b" "userKeyPrefix @ a \<noteq> sessionKeyPrefix @ b" "userKeyPrefix @ a \<noteq> oauthStateKeyPrefix @ b"
  "sessionKeyPrefix @ a \<noteq> otpKeyPrefix @ b" "sessionKeyPrefix @ a \<noteq> oauthStateKeyPrefix @ b" "sessionKeyPrefix @ a \<noteq> userKeyPrefix @ b"
  "otpKeyPrefix @ a \<noteq> sessionKeyPrefix @ b" "otpKeyPrefix @ a \<noteq> oauthStateKeyPrefix @ b" "otpKeyPrefix @ a \<noteq> userKeyPrefix @ b"
  "oauthStateKeyPrefix @ a \<noteq> otpKeyPrefix @ b" "oauthStateKeyPrefix @ a \<noteq> sessionKeyPrefix @ b" "oauthStateKeyPrefix @ a \<noteq> userKeyPrefix @ b"
  by (simp_all add: otpKeyPrefix_def sessionKeyPrefix_def oauthStateKeyPrefix_def userKeyPrefix_def)

text \<open>What a key of one store does to the views of the others.\<close>

lemma views_other:
  assumes "string_at view w' = (string_at view w)(k := x)"
  shows "(\<And>e. k \<noteq> otpKeyPrefix @ e) \<Longrightarrow> otp_view view w' = otp_view view w"
    and "(\<And>e. k \<noteq> oauthStateKeyPrefix @ e) \<Longrightarrow> state_view view w' = state_view view w"
    and "(\<And>e. k \<noteq> sessionKeyPrefix @ e) \<Longrightarrow> session_view view w' = session_view view w"
    and "(\<And>e. k \<noteq> userKeyPrefix @ e) \<Longrightarrow> user_view view w' = user_view view w"
proof -
  have "(string_at view w') k' = string_at view w k'" if "k' \<noteq> k" for k'
    using that assms by simp
  then show "(\<And>e. k \<noteq> otpKeyPrefix @ e) \<Longrightarrow> otp_view view w' = otp_view view w"
    and "(\<And>e. k \<noteq> oauthStateKeyPrefix @ e) \<Longrightarrow> state_view view w' = state_view view w"
    and "(\<And>e. k \<noteq> sessionKeyPrefix @ e) \<Longrightarrow> session_view view w' = session_view view w"
    and "(\<And>e. k \<noteq> userKeyPrefix @ e) \<Longrightarrow> user_view view w' = user_view view w"
    by (simp_all add: otp_view_def state_view_def session_view_def user_view_def fun_eq_iff) metis+
qed

lemmas otp_store_defs = OTPStore_def OTPStore_Store_def OTPStore_Consume_def OTPStore_Delete_def
lemmas session_store_defs = SessionStore_def SessionStore_Create_def SessionStore_GetByToken_def SessionStore_Delete_def
lemmas state_store_defs = OAuthStateStore_def OAuthStateStore_Store_def OAuthStateStore_Consume_def
lemmas user_store_defs = UserCacheStore_def UserCacheStore_GetByID_def UserCacheStore_SetByID_def UserCacheStore_DeleteByID_def

lemma attempt_Errorf:
  assumes "attempt m (\<lambda>e. fail (Errorf p e)) return w = (r, w')"
  obtains (ok) x where "m w = (Inr x, w')" "r = Inr x"
    | (err) e where "m w = (Inl e, w')" "r = Inl (Errorf p e)"
  using assms by (cases rule: attempt_cases) auto

lemma script_call_frame: "script_call f w = (r, w') \<Longrightarrow> db w' = db w \<and> outbox w' = outbox w \<and> wall w' = wall w \<and> trace w' = trace w"
  unfolding script_call_def by (rule redis_call_others)

lemma script_call_cases:
  assumes "script_call f w = (r, w')"
  obtains (script) x where "f (kv w) = (x, kv w')" "r = (case x of Inr NilReply \<Rightarrow> Inl (Sentinel RedisNil) | _ \<Rightarrow> x)"
    | (lost) t where "r = Inl (transport_error t)" "kv w' = kv w \<or> kv w' = snd (f (kv w))"
proof -
  let ?g = "\<lambda>s. case f s of (Inr NilReply, s') \<Rightarrow> (Inl (Sentinel RedisNil), s') | r \<Rightarrow> r"
  have call: "redis_call ?g w = (r, w')"
    using assms by (simp add: script_call_def)
  have snd: "snd (?g s) = snd (f s)" for s
    by (auto split: prod.split sum.split reply.split)
  have delivered: thesis if "?g (kv w) = (r, kv w')"
    using that script [of "fst (f (kv w))"] by (auto split: prod.splits sum.splits reply.splits)
  show thesis
  proof (cases r)
    case (Inl e)
    with call have "redis_call ?g w = (Inl e, w')"
      by simp
    then show thesis
    proof (cases rule: redis_call_Inl)
      case script
      then show thesis
        using delivered Inl by blast
    next
      case (lost t)
      then show thesis
        using that(2) Inl snd by metis
    qed
  next
    case (Inr x)
    with call have "redis_call ?g w = (Inr x, w')"
      by simp
    from redis_call_Inr [OF this] show thesis
      using delivered Inr by blast
  qed
qed

context redis_spec
begin

lemma GET_cases:
  obtains (absent) "GET R k (kv w) = Inr None" "string_at view w k = None"
    | (string) v where "GET R k (kv w) = Inr (Some v)" "string_at view w k = Some v"
    | (wrong) "GET R k (kv w) = Inl WRONGTYPE" "string_at view w k = None"
proof (cases "view (kv w) k")
  case (Some e)
  obtain x t where "e = (x, t)"
    by (cases e)
  with Some show thesis
    using string wrong by (cases x) (simp_all add: GET string_at_def)
qed (use absent in \<open>simp add: GET string_at_def\<close>)

lemma consumeOTPScript_cases:
  obtains (absent) "consumeOTPScript R k h (kv w) = (Inr (IntReply 0), kv w)" "string_at view w k = None"
    | (other) h' where "consumeOTPScript R k h (kv w) = (Inr (IntReply 1), kv w)" "string_at view w k = Some h'" "h' \<noteq> h"
    | (found) "consumeOTPScript R k h (kv w) = (Inr (IntReply 2), DEL R k (kv w))" "string_at view w k = Some h"
    | (wrong) "consumeOTPScript R k h (kv w) = (Inl WRONGTYPE, kv w)"
  using that by (cases rule: GET_cases [of k w]) (auto simp: consumeOTPScript_def)

lemma string_at_DEL: "kv w' = DEL R k (kv w) \<Longrightarrow> string_at view w' = (string_at view w)(k := None)"
  by (simp add: string_at_def DEL fun_eq_iff)

lemma consumeOTP_cases:
  assumes "OTPStore_Consume R e h w = (r, w')"
  obtains (found) "r = Inr True" "otp_view view w e = Some h" "otp_view view w' = (otp_view view w)(e := None)"
        "string_at view w' = (string_at view w)(otpKeyPrefix @ e := None)"
    | (other) h' where "r = Inr False" "otp_view view w e = Some h'" "h' \<noteq> h" "kv w' = kv w"
    | (absent) "r = Inl (Sentinel ErrOTPNotFound)" "otp_view view w e = None" "kv w' = kv w"
    | (failed) x where "r = Inl x" "\<not> errors_Is x ErrOTPNotFound" "kv w' = kv w"
    | (unknown) x where "r = Inl x" "\<not> errors_Is x ErrOTPNotFound" "otp_view view w e = Some h"
        "otp_view view w' = (otp_view view w)(e := None)" "string_at view w' = (string_at view w)(otpKeyPrefix @ e := None)"
proof -
  let ?k = "otpKeyPrefix @ e"
  let ?f = "consumeOTPScript R ?k h"
  have del: "otp_view view w' = (otp_view view w)(e := None) \<and> string_at view w' = (string_at view w)(?k := None)"
    if "kv w' = DEL R ?k (kv w)"
    using string_at_DEL [OF that] by (simp add: otp_view_def fun_eq_iff)
  obtain q where call: "script_call ?f w = (q, w')"
    and r: "r = (case q of Inl x \<Rightarrow> Inl (Errorf ''consume otp'' x)
      | Inr (IntReply n) \<Rightarrow> (if n = 0 then Inl (Sentinel ErrOTPNotFound) else if n = 1 then Inr False
           else if n = 2 then Inr True else Inl (Msg (''consume otp: unexpected script status '' @ Itoa n)))
      | Inr _ \<Rightarrow> Inl (Errorf ''consume otp'' (Msg ''expected int64'')))"
    using assms unfolding OTPStore_Consume_def
    by (cases rule: attempt_cases) (auto simp: redisInt_def split: reply.splits if_splits)
  note view_k = otp_view_def [of view w e]
  from call show thesis
  proof (cases rule: script_call_cases)
    case (script x)
    then show thesis
      using that del r view_k
      by (cases rule: consumeOTPScript_cases [of ?k h w]) (auto simp: WRONGTYPE_def)
  next
    case (lost t)
    then show thesis
      using failed unknown del r view_k
      by (cases rule: consumeOTPScript_cases [of ?k h w]) auto
  qed
qed

lemma consumeOAuthStateScript_cases:
  obtains (absent) "consumeOAuthStateScript R k (kv w) = (Inr NilReply, kv w)" "string_at view w k = None"
    | (found) v where "consumeOAuthStateScript R k (kv w) = (Inr (BulkReply v), DEL R k (kv w))" "string_at view w k = Some v"
    | (wrong) "consumeOAuthStateScript R k (kv w) = (Inl WRONGTYPE, kv w)"
  using that by (cases rule: GET_cases [of k w]) (auto simp: consumeOAuthStateScript_def)

lemma consumeState_cases:
  assumes "OAuthStateStore_Consume R t w = (r, w')"
  obtains (found) d where "r = Inr (Some d)" "state_view view w t = Some d" "state_view view w' = (state_view view w)(t := None)"
        "string_at view w' = (string_at view w)(oauthStateKeyPrefix @ t := None)"
    | (absent) "r = Inr None" "state_view view w t = None" "kv w' = kv w"
    | (failed) x where "r = Inl x" "kv w' = kv w"
    | (unknown) x where "r = Inl x" "state_view view w' = (state_view view w)(t := None)"
        "string_at view w' = (string_at view w)(oauthStateKeyPrefix @ t := None)"
proof -
  let ?k = "oauthStateKeyPrefix @ t"
  let ?f = "consumeOAuthStateScript R ?k"
  have del: "state_view view w' = (state_view view w)(t := None) \<and> string_at view w' = (string_at view w)(?k := None)" if "kv w' = DEL R ?k (kv w)"
    using string_at_DEL [OF that] by (simp add: state_view_def fun_eq_iff)
  obtain q where call: "script_call ?f w = (q, w')"
    and r: "r = (case q of Inl x \<Rightarrow> if x = Sentinel RedisNil then Inr None else Inl (Errorf ''consume oauth state'' x)
      | Inr (BulkReply v) \<Rightarrow> Inr (Some \<lparr>BrowserBindingHash = v\<rparr>)
      | Inr _ \<Rightarrow> Inl (Errorf ''consume oauth state'' (External ''redis: unexpected type for String'')))"
    using assms unfolding OAuthStateStore_Consume_def
    by (elim attempt_cases) (auto simp: reply_Text_def split: reply.splits if_splits)
  have view_k: "state_view view w t = map_option (\<lambda>v. \<lparr>BrowserBindingHash = v\<rparr>) (string_at view w ?k)"
    by (simp add: state_view_def oauth_state_data.make_def [abs_def])
  from call show thesis
  proof (cases rule: script_call_cases)
    case (script x)
    then show thesis
      using found absent failed del r view_k
      by (cases rule: consumeOAuthStateScript_cases [of ?k w]) (auto simp: WRONGTYPE_def)
  next
    case (lost tr)
    then show thesis
      using failed unknown del r by (cases rule: consumeOAuthStateScript_cases [of ?k w]) auto
  qed
qed

end

lemma otp_view_kv: "kv w' = kv w \<Longrightarrow> otp_view view w' = otp_view view w"
  by (simp add: otp_view_def string_at_def fun_eq_iff)

lemma state_view_kv: "kv w' = kv w \<Longrightarrow> state_view view w' = state_view view w"
  by (simp add: state_view_def string_at_def fun_eq_iff)

lemma session_view_kv: "kv w' = kv w \<Longrightarrow> session_view view w' = session_view view w"
  by (simp add: session_view_def string_at_def fun_eq_iff)

lemma user_view_kv: "kv w' = kv w \<Longrightarrow> user_view view w' = user_view view w"
  by (simp add: user_view_def string_at_def fun_eq_iff)

sublocale redis_spec \<subseteq> otp: otp_repository "OTPStore R" "otp_view view"
proof
  fix e h ttl w w' u x
  show "otp_view view w' = (otp_view view w)(e \<mapsto> h)" if "otp_Store (OTPStore R) e h ttl w = (Inr u, w')"
    using that by (auto simp: otp_store_defs otp_view_def fun_eq_iff elim!: attempt_Errorf redis_Set_cases)
  show "otp_view view w' = otp_view view w \<or> otp_view view w' = (otp_view view w)(e \<mapsto> h)"
    if "otp_Store (OTPStore R) e h ttl w = (Inl x, w')"
    using that by (auto simp: otp_store_defs otp_view_def fun_eq_iff elim!: attempt_Errorf redis_Set_cases)
  show "otp_view view w' = (otp_view view w)(e := None)" if "otp_Delete (OTPStore R) e w = (Inr u, w')"
    using that by (auto simp: otp_store_defs otp_view_def fun_eq_iff elim!: attempt_Errorf redis_Del_cases)
  show "otp_view view w' = otp_view view w \<or> otp_view view w' = (otp_view view w)(e := None)"
    if "otp_Delete (OTPStore R) e w = (Inl x, w')"
    using that by (auto simp: otp_store_defs otp_view_def fun_eq_iff elim!: attempt_Errorf redis_Del_cases)
  show "otp_view view w e = Some h \<and> otp_view view w' = (otp_view view w)(e := None)"
    if "otp_Consume (OTPStore R) e h w = (Inr True, w')"
    using that unfolding OTPStore_def otp_repo.simps by (cases rule: consumeOTP_cases) simp_all
  show "(\<exists>h'. otp_view view w e = Some h' \<and> h' \<noteq> h) \<and> otp_view view w' = otp_view view w"
    if "otp_Consume (OTPStore R) e h w = (Inr False, w')"
    using that unfolding OTPStore_def otp_repo.simps by (cases rule: consumeOTP_cases) (simp_all add: otp_view_kv [of w' w])
  show "otp_view view w e = None \<and> otp_view view w' = otp_view view w"
    if "otp_Consume (OTPStore R) e h w = (Inl x, w')" "errors_Is x ErrOTPNotFound"
    using that unfolding OTPStore_def otp_repo.simps by (cases rule: consumeOTP_cases) (simp_all add: otp_view_kv [of w' w])
  show "otp_view view w' = otp_view view w \<or>
      otp_view view w e = Some h \<and> otp_view view w' = (otp_view view w)(e := None)"
    if "otp_Consume (OTPStore R) e h w = (Inl x, w')"
    using that unfolding OTPStore_def otp_repo.simps by (cases rule: consumeOTP_cases) (simp_all add: otp_view_kv [of w' w])
qed

sublocale redis_spec \<subseteq> oauth_state: oauth_state_repository "OAuthStateStore R" "state_view view"
proof
  fix t d ttl w w' u x
  note defs = state_store_defs state_view_def oauth_state_data.make_def
  show "state_view view w' = (state_view view w)(t \<mapsto> d)" if "st_Store (OAuthStateStore R) t d ttl w = (Inr u, w')"
    using that by (auto simp: defs fun_eq_iff elim!: attempt_Errorf redis_Set_cases)
  show "state_view view w' = state_view view w \<or> state_view view w' = (state_view view w)(t \<mapsto> d)"
    if "st_Store (OAuthStateStore R) t d ttl w = (Inl x, w')"
    using that by (auto simp: defs fun_eq_iff elim!: attempt_Errorf redis_Set_cases)
  show "state_view view w t = Some d \<and> state_view view w' = (state_view view w)(t := None)"
    if "st_Consume (OAuthStateStore R) t w = (Inr (Some d), w')"
    using that unfolding OAuthStateStore_def oauth_state_repo.simps by (cases rule: consumeState_cases) simp_all
  show "state_view view w t = None \<and> state_view view w' = state_view view w"
    if "st_Consume (OAuthStateStore R) t w = (Inr None, w')"
    using that unfolding OAuthStateStore_def oauth_state_repo.simps by (cases rule: consumeState_cases) (simp_all add: state_view_kv [of w' w])
  show "state_view view w' = state_view view w \<or> state_view view w' = (state_view view w)(t := None)"
    if "st_Consume (OAuthStateStore R) t w = (Inl x, w')"
    using that unfolding OAuthStateStore_def oauth_state_repo.simps by (cases rule: consumeState_cases) (simp_all add: state_view_kv [of w' w])
qed

context redis_spec
begin

lemma session_view_put:
  assumes "string_at view w' = (string_at view w)(sessionKeyPrefix @ sd_Token d \<mapsto> data)" "marshal_session d = Inr data"
  shows "session_view view w' = (session_view view w)(sd_Token d := stored_session d)"
  using assms by (simp add: session_view_def stored_session_def fun_eq_iff)

lemma user_view_put:
  assumes "string_at view w' = (string_at view w)(userKeyPrefix @ Itoa i \<mapsto> data)" "marshal_user u = Inr data"
  shows "user_view view w' = (user_view view w)(i := kept_user u)"
  using assms by (auto simp: user_view_def kept_user_def fun_eq_iff dest: Itoa_inj)

lemma GetByToken_cases:
  assumes "SessionStore_GetByToken R t w = (r, w')"
  obtains (found) d where "r = Inr d" "session_view view w t = Some d" "sd_Token d = t" "kv w' = kv w"
    | (absent) x where "r = Inl x" "errors_Is x ErrSessionNotFound" "session_view view w t = None" "kv w' = kv w"
    | (failed) x where "r = Inl x" "\<not> errors_Is x ErrSessionNotFound" "kv w' = kv w"
proof -
  have token: "unmarshal_session t data = Inr d \<Longrightarrow> sd_Token d = t" for data d
    by (auto simp: unmarshal_session_def split: option.splits)
  have decode: "unmarshal_session t data = Inl e \<Longrightarrow> \<not> errors_Is e ErrSessionNotFound" for data e
    by (auto simp: unmarshal_session_def split: option.splits)
  show thesis
    using assms unfolding SessionStore_GetByToken_def
  proof (cases rule: attempt_cases)
    case (err e w1)
    then show thesis
      using absent failed by (auto simp: session_view_def split: if_splits elim!: redis_Get_cases)
  next
    case (ok data w1)
    then have at: "string_at view w (sessionKeyPrefix @ t) = Some data" "kv w1 = kv w"
      by (auto elim!: redis_Get_cases)
    then show thesis
    proof (cases "unmarshal_session t data")
      case (Inl e)
      then show thesis
        using ok(2) at decode [OF Inl] by (intro failed [of "Errorf ''unmarshal session'' e"]) auto
    next
      case (Inr d)
      then have "session_view view w t = Some d"
        using at by (simp add: session_view_def)
      moreover have "r = Inr d" "w1 = w'"
        using ok(2) Inr by auto
      ultimately show thesis
        using at token [OF Inr] by (intro found [of d]) simp_all
    qed
  qed
qed

lemma UserCache_Get_cases:
  assumes "UserCacheStore_GetByID R i w = (r, w')"
  obtains (hit) u where "r = Inr (Some u)" "user_view view w i = Some u" "kv w' = kv w"
    | (miss) "r = Inr None" "user_view view w i = None" "kv w' = kv w"
    | (failed) x where "r = Inl x" "kv w' = kv w"
  using assms unfolding UserCacheStore_GetByID_def Let_def
proof (cases rule: attempt_cases)
  case (err e w1)
  then show thesis
    using miss failed by (auto simp: user_view_def split: if_splits elim!: redis_Get_cases)
next
  case (ok data w1)
  then show thesis
    using hit failed by (cases "unmarshal_user data") (auto simp: user_view_def elim!: redis_Get_cases)
qed

end

sublocale redis_spec \<subseteq> session: session_repository "SessionStore R" "session_view view" storable_session stored_session
proof
  fix d t ttl w w' u x r
  show "storable_session d \<Longrightarrow> stored_session d = Some (d\<lparr>sd_ExpiresAt := time_Unix (Unix (sd_ExpiresAt d))\<rparr>)"
    by (rule session_json_roundtrip)
  show "stored_session d = Some d' \<Longrightarrow> d' = d\<lparr>sd_ExpiresAt := time_Unix (Unix (sd_ExpiresAt d))\<rparr>" for d'
    by (rule stored_session_same)
  obtain data where data: "marshal_session d = Inr data"
    by (simp add: marshal_session_def)
  note put = session_view_put [OF _ data]
  show "session_view view w' = (session_view view w)(sd_Token d := stored_session d)"
    if "sess_Create (SessionStore R) d ttl w = (Inr u, w')"
    using that data put by (auto simp: session_store_defs elim!: attempt_Errorf redis_Set_cases)
  show "session_view view w' = session_view view w \<or> session_view view w' = (session_view view w)(sd_Token d := stored_session d)"
    if "sess_Create (SessionStore R) d ttl w = (Inl x, w')"
    using that data put by (auto simp: session_store_defs session_view_def elim!: attempt_Errorf redis_Set_cases)
  show "session_view view w' = session_view view w" if "sess_GetByToken (SessionStore R) t w = (r, w')"
    using that unfolding SessionStore_def session_repo.simps by (cases rule: GetByToken_cases) (simp_all add: session_view_kv [of w' w])
  show "session_view view w t = Some d \<and> sd_Token d = t" if "sess_GetByToken (SessionStore R) t w = (Inr d, w')"
    using that unfolding SessionStore_def session_repo.simps by (cases rule: GetByToken_cases) simp_all
  show "session_view view w t = None"
    if "sess_GetByToken (SessionStore R) t w = (Inl x, w')" "errors_Is x ErrSessionNotFound"
    using that unfolding SessionStore_def session_repo.simps by (cases rule: GetByToken_cases) simp_all
  show "session_view view w' = (session_view view w)(t := None)" if "sess_Delete (SessionStore R) t w = (Inr u, w')"
    using that by (auto simp: session_store_defs session_view_def fun_eq_iff elim!: attempt_Errorf redis_Del_cases)
  show "session_view view w' = session_view view w \<or> session_view view w' = (session_view view w)(t := None)"
    if "sess_Delete (SessionStore R) t w = (Inl x, w')"
    using that by (auto simp: session_store_defs session_view_def fun_eq_iff elim!: attempt_Errorf redis_Del_cases)
qed

sublocale redis_spec \<subseteq> user_cache: user_cache "UserCacheStore R cacheTTL" "user_view view" cacheable_user kept_user
  for cacheTTL
proof
  fix i u w w' x v r
  show "cacheable_user u \<Longrightarrow> kept_user u = Some u"
    by (rule user_json_roundtrip)
  obtain data where data: "marshal_user u = Inr data"
    by (simp add: marshal_user_def)
  note put = user_view_put [OF _ data]
  show "user_view view w' = user_view view w" if "uc_GetByID (UserCacheStore R cacheTTL) i w = (r, w')"
    using that unfolding UserCacheStore_def user_cache_repo.simps by (cases rule: UserCache_Get_cases) (simp_all add: user_view_kv [of w' w])
  show "user_view view w i = Some u" if "uc_GetByID (UserCacheStore R cacheTTL) i w = (Inr (Some u), w')"
    using that unfolding UserCacheStore_def user_cache_repo.simps by (cases rule: UserCache_Get_cases) simp_all
  show "user_view view w i = None" if "uc_GetByID (UserCacheStore R cacheTTL) i w = (Inr None, w')"
    using that unfolding UserCacheStore_def user_cache_repo.simps by (cases rule: UserCache_Get_cases) simp_all
  show "user_view view w' = (user_view view w)(i := kept_user u)"
    if "uc_SetByID (UserCacheStore R cacheTTL) i u w = (Inr v, w')"
    using that data put by (auto simp: user_store_defs Let_def elim!: attempt_Errorf redis_Set_cases)
  show "user_view view w' = user_view view w \<or> user_view view w' = (user_view view w)(i := kept_user u)"
    if "uc_SetByID (UserCacheStore R cacheTTL) i u w = (Inl x, w')"
    using that data put by (auto simp: user_store_defs Let_def user_view_def elim!: attempt_Errorf redis_Set_cases)
  show "user_view view w' = (user_view view w)(i := None)"
    if "uc_DeleteByID (UserCacheStore R cacheTTL) i w = (Inr v, w')"
    using that by (auto simp: user_store_defs Let_def user_view_def fun_eq_iff dest: Itoa_inj elim!: attempt_Errorf redis_Del_cases)
  show "user_view view w' = user_view view w \<or> user_view view w' = (user_view view w)(i := None)"
    if "uc_DeleteByID (UserCacheStore R cacheTTL) i w = (Inl x, w')"
    using that by (auto simp: user_store_defs Let_def user_view_def fun_eq_iff dest: Itoa_inj elim!: attempt_Errorf redis_Del_cases)
qed

interpretation kv_otp: otp_repository "OTPStore keyspace_redis" "otp_view ks_view"
  by (rule ks.otp.otp_repository_axioms)

interpretation kv_state: oauth_state_repository "OAuthStateStore keyspace_redis" "state_view ks_view"
  by (rule ks.oauth_state.oauth_state_repository_axioms)

interpretation kv_session: session_repository "SessionStore keyspace_redis" "session_view ks_view" storable_session stored_session
  by (rule ks.session.session_repository_axioms)

interpretation kv_user: user_cache "UserCacheStore keyspace_redis cacheTTL" "user_view ks_view" cacheable_user kept_user
  for cacheTTL
  by (rule ks.user_cache.user_cache_axioms)

section \<open>Passing time\<close>

end
