(* ===== verification/Token_Bucket.thy ===== *)
theory Token_Bucket
  imports Kv_Stores
begin

text \<open>
  The token bucket of \<^verbatim>\<open>token_bucket_store.go\<close> with its Lua script, and the per-address limiter
  of \<^verbatim>\<open>internal/usecase/globalratelimit\<close>. Lua numbers are doubles and the script stores the
  token count as decimal text, so the script is parameterised by the two roundings it suffers:
  \<open>fl\<close> of an arithmetic result and \<open>pr\<close> of a number printed and read back. The
  results bound the traffic a bucket admits over any run of calls, with the rounding error made
  explicit.
\<close>

section \<open>The script\<close>

record lua =
  fl :: "rat \<Rightarrow> rat"
  pr :: "rat \<Rightarrow> rat"

definition tokenBucketKeyPrefix :: string where "tokenBucketKeyPrefix = ''ratelimit:tb:''"

definition lua_nil_error :: error where
  "lua_nil_error = External ''attempt to perform arithmetic on a nil value''"

text \<open>The refill: the tokens at \<open>now\<close> of a bucket that held \<open>tokens\<close> at \<open>updated\<close>.\<close>

definition refilled :: "lua \<Rightarrow> int \<Rightarrow> int \<Rightarrow> int \<Rightarrow> rat \<Rightarrow> rat \<Rightarrow> rat" where
  "refilled L capacity refill_ms now tokens updated =
     (let elapsed = of_int now - updated;
          elapsed = (if elapsed < 0 then 0 else elapsed)
      in min (of_int capacity) (fl L (tokens + fl L (elapsed / of_int refill_ms))))"

text \<open>The verdict on the refilled count: allowed, milliseconds to wait, tokens left.\<close>

definition spend :: "lua \<Rightarrow> int \<Rightarrow> rat \<Rightarrow> int \<times> int \<times> rat" where
  "spend L refill_ms tokens =
     (if 1 \<le> tokens then (1, 0, fl L (tokens - 1))
      else (0, \<lceil>fl L (fl L (1 - tokens) * of_int refill_ms)\<rceil>, tokens))"

definition tokenBucketScript :: "lua \<Rightarrow> 's redis \<Rightarrow> string \<Rightarrow> int \<Rightarrow> int \<Rightarrow> int \<Rightarrow> 's \<Rightarrow> (error + reply) \<times> 's" where
  "tokenBucketScript L R key capacity refill_ms now_ms s =
     (case (HGET R key ''t'' s, HGET R key ''u'' s) of
        (Inl e, _) \<Rightarrow> (Inl e, s)
      | (_, Inl e) \<Rightarrow> (Inl e, s)
      | (Inr (Some _), Inr None) \<Rightarrow> (Inl lua_nil_error, s)
      | (Inr t, Inr u) \<Rightarrow>
          let (tokens, updated) = (case (t, u) of (Some x, Some y) \<Rightarrow> (x, y) | _ \<Rightarrow> (of_int capacity, of_int now_ms));
              tokens = refilled L capacity refill_ms now_ms tokens updated;
              (allowed, retry_ms, tokens) = spend L refill_ms tokens
          in (case HSET R key [(''t'', pr L tokens), (''u'', of_int now_ms)] s of
                Inl e \<Rightarrow> (Inl e, s)
              | Inr s' \<Rightarrow> (Inr (ArrayReply [IntReply allowed, IntReply retry_ms, IntReply \<lfloor>tokens\<rfloor>]),
                            PEXPIRE R key (capacity * refill_ms) s')))"

section \<open>TokenBucketStore.Allow\<close>

record bucket_decision =
  tb_Allowed :: bool
  tb_Remaining :: int
  tb_RetryAfter :: duration

record 'w token_bucket_repo =
  tb_Allow :: "string \<Rightarrow> int \<Rightarrow> duration \<Rightarrow> ('w, bucket_decision) eff"

text \<open>\<^verbatim>\<open>time.Now().UnixMilli()\<close>\<close>

definition UnixMilli :: "int \<Rightarrow> int" where
  "UnixMilli t = t div Millisecond"

text \<open>The three numbers of a reply; an index past the end of the slice panics, which the reply shape excludes.\<close>

definition reply3 :: "reply list \<Rightarrow> (error + int) \<times> (error + int) \<times> (error + int)" where
  "reply3 rs = (case rs of [a, b, c] \<Rightarrow> (redisInt a, redisInt b, redisInt c)
     | _ \<Rightarrow> (Inl (External ''index out of range''), Inl (External ''index out of range''), Inl (External ''index out of range'')))"

definition TokenBucketStore_Allow :: "lua \<Rightarrow> 's redis \<Rightarrow> string \<Rightarrow> int \<Rightarrow> duration \<Rightarrow> ('s world, bucket_decision) eff" where
  "TokenBucketStore_Allow L R key capacity refill w =
     (let ms = Milliseconds refill in
      if capacity \<le> 0 \<or> ms \<le> 0 then (Inl (Msg ''token bucket: invalid capacity or refill interval''), w)
      else attempt
        (attempt (script_call (tokenBucketScript L R (tokenBucketKeyPrefix @ key) capacity ms (UnixMilli (wall w)))) fail
           (\<lambda>r. case reply_Slice r of Inl e \<Rightarrow> fail e | Inr rs \<Rightarrow> return rs))
        (\<lambda>e. fail (Errorf ''token bucket allow'' e))
        (\<lambda>res. case reply3 res of
            (Inl e, _, _) \<Rightarrow> fail e
          | (_, Inl e, _) \<Rightarrow> fail e
          | (_, _, Inl e) \<Rightarrow> fail e
          | (Inr allowed, Inr retry, Inr remaining) \<Rightarrow>
              return \<lparr>tb_Allowed = (allowed = 1), tb_Remaining = remaining,
                tb_RetryAfter = (if allowed \<noteq> 1 \<and> 0 < retry then retry * Millisecond else 0)\<rparr>) w)"

definition TokenBucketStore :: "lua \<Rightarrow> 's redis \<Rightarrow> 's world token_bucket_repo" where
  "TokenBucketStore L R = \<lparr>tb_Allow = TokenBucketStore_Allow L R\<rparr>"

section \<open>internal/usecase/globalratelimit\<close>

record decision =
  Allowed :: bool
  RetryAfter :: duration

record limiter_config =
  Capacity :: int
  RefillInterval :: duration

text \<open>\<open>errv\<close> is the value an error takes in a field map.\<close>

definition AllowIP :: "'w token_bucket_repo \<Rightarrow> 'w sink option \<Rightarrow> limiter_config \<Rightarrow> (error \<Rightarrow> any) \<Rightarrow> string \<Rightarrow> ('w, decision) eff" where
  "AllowIP repo lg cfg errv ip =
     (if ip = [] then fail (New CodeTooManyRequests ''rate limit: client IP unavailable'' [])
      else attempt (tb_Allow repo (''global:ip:'' @ ip) (Capacity cfg) (RefillInterval cfg))
        (\<lambda>e. perform (Warn (or_noop lg) ''global rate limit lookup failed''
                 (FromPairs [AString ''ip'', AString ip, AString ''error'', errv e]))
               (fail (Wrap e CodeUnavailable ''rate limiter unavailable'' [])))
        (\<lambda>d. return \<lparr>Allowed = tb_Allowed d, RetryAfter = tb_RetryAfter d\<rparr>))"

section \<open>Rounding\<close>

text \<open>
  What the results ask of the roundings, on the range \<open>0 \<le> x \<le> bound\<close> in which the script uses them:
  they lose or gain at most \<open>\<epsilon>\<close>, and keep zero and order.
\<close>

locale lua_arith =
  fixes L :: lua and bound :: rat and \<epsilon> :: rat
  assumes eps: "0 \<le> \<epsilon>"
    and fl_near: "0 \<le> x \<Longrightarrow> x \<le> bound \<Longrightarrow> \<bar>fl L x - x\<bar> \<le> \<epsilon>"
    and pr_near: "0 \<le> x \<Longrightarrow> x \<le> bound \<Longrightarrow> \<bar>pr L x - x\<bar> \<le> \<epsilon>"
    and fl_nonneg: "0 \<le> x \<Longrightarrow> 0 \<le> fl L x"
    and pr_nonneg: "0 \<le> x \<Longrightarrow> 0 \<le> pr L x"
    and fl_mono: "x \<le> y \<Longrightarrow> fl L x \<le> fl L y"
    and pr_mono: "x \<le> y \<Longrightarrow> pr L x \<le> pr L y"
    and fl_int: "0 \<le> n \<Longrightarrow> of_int n \<le> bound \<Longrightarrow> fl L (of_int n) = of_int n"
    and pr_int: "0 \<le> n \<Longrightarrow> of_int n \<le> bound \<Longrightarrow> pr L (of_int n) = of_int n"
begin

lemma refilled_bounds:
  assumes "0 \<le> capacity" "0 < refill" "of_int capacity + of_int capacity + \<epsilon> \<le> bound" "0 \<le> tokens" "tokens \<le> of_int capacity"
  shows "0 \<le> refilled L capacity refill now tokens updated"
    and "refilled L capacity refill now tokens updated \<le> of_int capacity"
    and "refilled L capacity refill now tokens updated
           \<le> min (of_int capacity) (tokens + max 0 (of_int now - updated) / of_int refill) + 2 * \<epsilon>"
proof -
  let ?c = "of_int capacity :: rat" and ?e = "max 0 (of_int now - updated) / of_int refill :: rat"
  have e: "0 \<le> ?e"
    using assms(2) by simp
  have eq: "refilled L capacity refill now tokens updated = min ?c (fl L (tokens + fl L ?e))"
    by (simp add: refilled_def Let_def max_def not_less)
  show "refilled L capacity refill now tokens updated \<le> ?c"
    by (simp add: eq)
  show "0 \<le> refilled L capacity refill now tokens updated"
    using assms fl_nonneg [OF e] fl_nonneg [of "tokens + fl L ?e"] by (simp add: eq)
  show "refilled L capacity refill now tokens updated \<le> min ?c (tokens + ?e) + 2 * \<epsilon>"
  proof (cases "?e \<le> ?c")
    case True
    then have "fl L ?e \<le> ?e + \<epsilon>"
      using fl_near [OF e] assms(1,3) eps by (simp add: abs_le_iff)
    moreover from this have "fl L (tokens + fl L ?e) \<le> tokens + fl L ?e + \<epsilon>"
      using fl_near [of "tokens + fl L ?e"] fl_nonneg [OF e] assms True by (simp add: abs_le_iff)
    ultimately show ?thesis
      using eps by (simp add: eq min_def)
  next
    case False
    then show ?thesis
      using eps assms(4) by (simp add: eq min_def)
  qed
qed

end

section \<open>One bucket\<close>

text \<open>
  A bucket of capacity \<open>C\<close> that gains a token every \<open>r\<close> milliseconds, used by clients whose clock is
  \<open>off\<close> milliseconds ahead of the server's.
\<close>

locale bucket = redis_spec R view clock tick + lua_arith L bound \<epsilon>
  for R :: "'s redis" and view clock tick L bound \<epsilon> +
  fixes C :: int and r :: int and off :: int and k :: string
  assumes C_pos: "0 < C" and r_pos: "0 < r" and eps_small: "\<epsilon> \<le> 1 / 4" and wide: "2 * of_int C + 1 \<le> bound"
begin

definition holds :: "'s \<Rightarrow> rat \<Rightarrow> int \<Rightarrow> bool" where
  "holds s t u \<longleftrightarrow> (\<exists>h. view s k = Some (RHash h, Some (u - off + C * r)) \<and> map_of h ''t'' = Some t \<and>
     map_of h ''u'' = Some (of_int u))"

definition inv :: "'s \<Rightarrow> bool" where
  "inv s \<longleftrightarrow> view s k = None \<or> (\<exists>t u. holds s t u \<and> 0 \<le> t \<and> t \<le> of_int C \<and> u \<le> clock s + off)"

definition level :: "'s \<Rightarrow> rat" where
  "level s = (case view s k of Some (RHash h, _) \<Rightarrow>
       min (of_int C) (the (map_of h ''t'') + (of_int (clock s + off) - the (map_of h ''u'')) / of_int r)
     | _ \<Rightarrow> of_int C)"

lemma inv_cases:
  assumes "inv s"
  obtains (absent) "view s k = None" "level s = of_int C"
    | (present) t u where "holds s t u" "0 \<le> t" "t \<le> of_int C" "u \<le> clock s + off"
        "level s = min (of_int C) (t + of_int (clock s + off - u) / of_int r)"
  using assms by (auto simp: inv_def level_def holds_def)

lemma level_le: "inv s \<Longrightarrow> level s \<le> of_int C"
  by (erule inv_cases) simp_all

lemma tick_inv:
  assumes "inv s" "0 \<le> d"
  shows "inv (tick d s)" "level (tick d s) \<le> level s + of_int d / of_int r"
proof -
  have dr: "0 \<le> (of_int d :: rat) / of_int r"
    using assms(2) r_pos by simp
  have "inv (tick d s) \<and> level (tick d s) \<le> level s + of_int d / of_int r"
    using assms(1)
  proof (cases rule: inv_cases)
    case absent
    then have "view (tick d s) k = None"
      using assms(2) by (simp add: view_tick)
    with absent dr show ?thesis
      by (simp add: inv_def level_def)
  next
    case (present t u)
    then obtain h where h: "view s k = Some (RHash h, Some (u - off + C * r))" "map_of h ''t'' = Some t"
      "map_of h ''u'' = Some (of_int u)"
      by (auto simp: holds_def)
    let ?now = "clock s + off" and ?gain = "\<lambda>m. of_int m / of_int r :: rat"
    show ?thesis
    proof (cases "clock s + d < u - off + C * r")
      case True
      then have view: "view (tick d s) k = view s k"
        using assms(2) h by (simp add: view_tick)
      have "(of_int (clock s + d + off) - of_int u) / of_int r = ?gain (?now - u) + ?gain d"
        by (simp add: add_divide_distrib diff_divide_distrib)
      then have "level (tick d s) = min (of_int C) (t + (?gain (?now - u) + ?gain d))"
        using view h assms(2) by (simp add: level_def)
      moreover have "min c (x + (y + z)) \<le> min c (x + y) + z" if "0 \<le> z" for c x y z :: rat
        using that by (simp add: min_def)
      moreover have "inv (tick d s)"
        using present view h assms(2) by (auto simp: inv_def holds_def)
      ultimately show ?thesis
        using present(5) dr by simp
    next
      case False
      then have view: "view (tick d s) k = None"
        using assms(2) h by (simp add: view_tick)
      have "C * r \<le> ?now + d - u"
        using False by simp
      then have "of_int C \<le> ?gain (?now + d - u)"
        using r_pos by (simp add: pos_le_divide_eq del: of_int_add of_int_diff flip: of_int_mult)
      also have "?gain (?now + d - u) = ?gain (?now - u) + ?gain d"
        by (simp add: add_divide_distrib diff_divide_distrib)
      finally show ?thesis
        using present view dr by (auto simp: inv_def level_def min_def)
    qed
  qed
  then show "inv (tick d s)" "level (tick d s) \<le> level s + of_int d / of_int r"
    by simp_all
qed

lemma script_eq:
  assumes "hash_at (view s k) = Inr h" "map_of h ''t'' = None \<longleftrightarrow> map_of h ''u'' = None"
    and tok: "tok = refilled L C r now (case map_of h ''t'' of None \<Rightarrow> of_int C | Some t \<Rightarrow> t)
                 (case map_of h ''u'' of None \<Rightarrow> of_int now | Some u \<Rightarrow> u)"
    and spend: "spend L r tok = (a, retry, rest)"
  obtains s' h' where "tokenBucketScript L R k C r now s = (Inr (ArrayReply [IntReply a, IntReply retry, IntReply \<lfloor>rest\<rfloor>]), s')"
    "view s' k = Some (RHash h', Some (clock s + C * r))" "map_of h' ''t'' = Some (pr L rest)" "map_of h' ''u'' = Some (of_int now)"
    "clock s' = clock s" "\<And>k'. k' \<noteq> k \<Longrightarrow> view s' k' = view s k'"
proof -
  let ?fs = "[(''t'', pr L rest), (''u'', of_int now)]"
  let ?h = "fold (\<lambda>(f, x). AList.update f x) ?fs h"
  obtain s1 where s1: "HSET R k ?fs s = Inr s1" "view s1 = (view s)(k \<mapsto> (RHash ?h, ttl_at (view s k)))" "clock s1 = clock s"
    using HSET [OF assms(1)] by blast
  have "0 < C * r"
    using C_pos r_pos by simp
  then have "view (PEXPIRE R k (C * r) s1) = (view s)(k \<mapsto> (RHash ?h, Some (clock s + C * r)))"
    using s1 by (simp add: PEXPIRE)
  moreover have "tokenBucketScript L R k C r now s =
      (Inr (ArrayReply [IntReply a, IntReply retry, IntReply \<lfloor>rest\<rfloor>]), PEXPIRE R k (C * r) s1)"
    using assms(1,2) s1(1) spend unfolding tok
    by (cases "map_of h ''t''"; cases "map_of h ''u''") (simp_all add: tokenBucketScript_def HGET)
  moreover have "map_of ?h ''t'' = Some (pr L rest)" "map_of ?h ''u'' = Some (of_int now)"
    by (simp_all add: update_conv')
  ultimately show thesis
    using s1(3) by (intro that [of "PEXPIRE R k (C * r) s1" ?h]) auto
qed

lemma spend_bounds:
  assumes "spend L r tok = (a, retry, rest)" "0 \<le> tok" "tok \<le> of_int C"
  shows "a = 0 \<or> a = 1" "0 \<le> pr L rest" "pr L rest \<le> of_int C" "pr L rest + of_int a \<le> tok + 2 * \<epsilon>"
proof -
  have range: "of_int C \<le> bound" "1 \<le> (of_int C :: rat)"
    using wide C_pos by simp_all
  have ad: "a = (if 1 \<le> tok then 1 else 0)" "rest = (if 1 \<le> tok then fl L (tok - 1) else tok)"
    using assms(1) by (auto simp: spend_def split: if_splits)
  have taken: "fl L (tok - 1) \<le> tok - 1 + \<epsilon>" "0 \<le> fl L (tok - 1)" if "1 \<le> tok"
    using that fl_near [of "tok - 1"] fl_nonneg [of "tok - 1"] assms(3) range by (simp_all add: abs_le_iff)
  have rest: "0 \<le> rest" "rest \<le> of_int C" "rest + of_int a \<le> tok + \<epsilon>"
    using ad taken assms(2,3) eps_small eps by (auto split: if_splits)
  show "a = 0 \<or> a = 1"
    using ad by simp
  show "0 \<le> pr L rest"
    using rest pr_nonneg by simp
  show "pr L rest \<le> of_int C"
    using pr_mono [OF rest(2)] pr_int [of C] C_pos range by simp
  show "pr L rest + of_int a \<le> tok + 2 * \<epsilon>"
    using pr_near [of rest] rest range by (simp add: abs_le_iff)
qed

lemma script_step:
  assumes "inv s"
  obtains a retry rem s' where
    "tokenBucketScript L R k C r (clock s + off) s = (Inr (ArrayReply [IntReply a, IntReply retry, IntReply rem]), s')"
    "inv s'" "clock s' = clock s" "a = 0 \<or> a = 1" "level s' + of_int a \<le> level s + 4 * \<epsilon>"
proof -
  let ?now = "clock s + off"
  have small: "of_int C + of_int C + \<epsilon> \<le> bound" "0 \<le> C"
    using wide eps_small C_pos by simp_all
  obtain h tok where h: "hash_at (view s k) = Inr h" "map_of h ''t'' = None \<longleftrightarrow> map_of h ''u'' = None"
    and tok: "tok = refilled L C r ?now (case map_of h ''t'' of None \<Rightarrow> of_int C | Some t \<Rightarrow> t)
                 (case map_of h ''u'' of None \<Rightarrow> of_int ?now | Some u \<Rightarrow> u)"
    and bounds: "0 \<le> tok" "tok \<le> of_int C" "tok \<le> level s + 2 * \<epsilon>"
    using assms
  proof (cases rule: inv_cases)
    case absent
    then show thesis
      using refilled_bounds [OF small(2) r_pos small(1), of "of_int C" ?now "of_int ?now"] C_pos
      by (intro that [of "[]"]) (simp_all add: hash_at_def)
  next
    case (present t u)
    then obtain h where "view s k = Some (RHash h, Some (u - off + C * r))" "map_of h ''t'' = Some t"
      "map_of h ''u'' = Some (of_int u)"
      by (auto simp: holds_def)
    moreover have "max 0 (of_int ?now - of_int u :: rat) = of_int (?now - u)"
      using present(4) by (simp add: max_def flip: of_int_add of_int_diff)
    ultimately show thesis
      using refilled_bounds [OF small(2) r_pos small(1) present(2,3), of ?now "of_int u"] present(5)
      by (intro that [of h]) (simp_all add: hash_at_def)
  qed
  obtain a retry rest where spend: "spend L r tok = (a, retry, rest)"
    by (cases "spend L r tok")
  note sb = spend_bounds [OF spend bounds(1,2)]
  obtain s' h' where s': "tokenBucketScript L R k C r ?now s = (Inr (ArrayReply [IntReply a, IntReply retry, IntReply \<lfloor>rest\<rfloor>]), s')"
    "view s' k = Some (RHash h', Some (clock s + C * r))" "map_of h' ''t'' = Some (pr L rest)"
    "map_of h' ''u'' = Some (of_int ?now)" "clock s' = clock s"
    using script_eq [OF h tok spend] by metis
  have "holds s' (pr L rest) ?now"
    using s' by (simp add: holds_def)
  then have "inv s'"
    using sb s'(5) by (auto simp: inv_def)
  moreover have "level s' \<le> pr L rest"
    using s' by (simp add: level_def)
  then have "level s' + of_int a \<le> level s + 4 * \<epsilon>"
    using sb(4) bounds(3) by simp
  ultimately show thesis
    using s' sb that by blast
qed

end

section \<open>Traffic admitted by a bucket\<close>

text \<open>
  A run of calls on one key: \<open>ds\<close> are the milliseconds between a call and the one before it. The
  result is the number of calls that were told to proceed.
\<close>

fun allow_run :: "lua \<Rightarrow> 's redis \<Rightarrow> (int \<Rightarrow> 's \<Rightarrow> 's) \<Rightarrow> string \<Rightarrow> int \<Rightarrow> duration \<Rightarrow> int list \<Rightarrow> 's world \<Rightarrow> nat" where
  "allow_run L R tick key capacity refill [] w = 0"
| "allow_run L R tick key capacity refill (d # ds) w =
     (case TokenBucketStore_Allow L R key capacity refill (advance tick d w) of (res, w') \<Rightarrow>
        (case res of Inl _ \<Rightarrow> 0 | Inr dec \<Rightarrow> if tb_Allowed dec then 1 else 0)
        + allow_run L R tick key capacity refill ds w')"

lemma UnixMilli_advance: "UnixMilli (wall (advance tick d w)) = UnixMilli (wall w) + d"
  by (simp add: UnixMilli_def advance_def)

lemma kv_advance [simp]: "kv (advance tick d w) = tick d (kv w)"
  by (simp add: advance_def)

lemma Allow_script:
  assumes "TokenBucketStore_Allow L R key capacity refill w = (res, w')" "0 < capacity" "0 < Milliseconds refill"
    and script: "tokenBucketScript L R (tokenBucketKeyPrefix @ key) capacity (Milliseconds refill) (UnixMilli (wall w)) (kv w)
        = (Inr (ArrayReply [IntReply a, IntReply retry, IntReply rem]), s')"
  obtains (answer) "res = Inr \<lparr>tb_Allowed = (a = 1), tb_Remaining = rem,
        tb_RetryAfter = (if a \<noteq> 1 \<and> 0 < retry then retry * Millisecond else 0)\<rparr>" "kv w' = s'" "wall w' = wall w"
    | (lost) e where "res = Inl e" "kv w' = kv w \<or> kv w' = s'" "wall w' = wall w"
proof -
  let ?f = "tokenBucketScript L R (tokenBucketKeyPrefix @ key) capacity (Milliseconds refill) (UnixMilli (wall w))"
  obtain q where call: "script_call ?f w = (q, w')"
    and res: "res = (case q of Inl e \<Rightarrow> Inl (Errorf ''token bucket allow'' e) | Inr rep \<Rightarrow>
       (case reply_Slice rep of Inl e \<Rightarrow> Inl (Errorf ''token bucket allow'' e) | Inr rs \<Rightarrow>
         (case reply3 rs of (Inl e, _, _) \<Rightarrow> Inl e | (_, Inl e, _) \<Rightarrow> Inl e | (_, _, Inl e) \<Rightarrow> Inl e
          | (Inr x, Inr y, Inr z) \<Rightarrow> Inr \<lparr>tb_Allowed = (x = 1), tb_Remaining = z,
                tb_RetryAfter = (if x \<noteq> 1 \<and> 0 < y then y * Millisecond else 0)\<rparr>)))"
    using assms(1-3) unfolding TokenBucketStore_Allow_def Let_def
    by (auto elim!: attempt_cases split: sum.splits prod.splits)
  from call show thesis
  proof (cases rule: script_call_cases)
    case (script x)
    then have "x = Inr (ArrayReply [IntReply a, IntReply retry, IntReply rem])" "kv w' = s'"
      using assms(4) by auto
    with script show thesis
      using res script_call_frame [OF call]
      by (intro answer) (simp_all add: reply_Slice_def reply3_def redisInt_def)
  next
    case (lost t)
    then show thesis
      using assms(4) res script_call_frame [OF call] that(2) by auto
  qed
qed

context bucket
begin

lemma Allow_level:
  assumes "TokenBucketStore_Allow L R key C refill w = (res, w')" "k = tokenBucketKeyPrefix @ key" "r = Milliseconds refill"
    and sync: "UnixMilli (wall w) = clock (kv w) + off" and inv: "inv (kv w)"
  shows "inv (kv w')" "UnixMilli (wall w') = clock (kv w') + off"
    "level (kv w') + (case res of Inl _ \<Rightarrow> 0 | Inr dec \<Rightarrow> if tb_Allowed dec then 1 else 0) \<le> level (kv w) + 4 * \<epsilon>"
proof -
  obtain a retry rem s' where s':
    "tokenBucketScript L R k C r (clock (kv w) + off) (kv w) = (Inr (ArrayReply [IntReply a, IntReply retry, IntReply rem]), s')"
    "inv s'" "clock s' = clock (kv w)" "a = 0 \<or> a = 1" "level s' + of_int a \<le> level (kv w) + 4 * \<epsilon>"
    using script_step [OF inv] by metis
  have "tokenBucketScript L R (tokenBucketKeyPrefix @ key) C (Milliseconds refill) (UnixMilli (wall w)) (kv w)
      = (Inr (ArrayReply [IntReply a, IntReply retry, IntReply rem]), s')"
    using s'(1) sync assms(2,3) by simp
  from assms(1) C_pos r_pos [unfolded assms(3)] this
  have "inv (kv w') \<and> UnixMilli (wall w') = clock (kv w') + off \<and>
    level (kv w') + (case res of Inl _ \<Rightarrow> 0 | Inr dec \<Rightarrow> if tb_Allowed dec then 1 else 0) \<le> level (kv w) + 4 * \<epsilon>"
  proof (cases rule: Allow_script)
    case answer
    then show ?thesis
      using s' sync by auto
  next
    case (lost e)
    moreover have "0 \<le> (of_int a :: rat)"
      using s'(4) by auto
    ultimately show ?thesis
      using s' sync eps inv by auto
  qed
  then show "inv (kv w')" "UnixMilli (wall w') = clock (kv w') + off"
    "level (kv w') + (case res of Inl _ \<Rightarrow> 0 | Inr dec \<Rightarrow> if tb_Allowed dec then 1 else 0) \<le> level (kv w) + 4 * \<epsilon>"
    by simp_all
qed

lemma allow_run_level:
  assumes "k = tokenBucketKeyPrefix @ key" "r = Milliseconds refill" "list_all (\<lambda>d. 0 \<le> d) ds"
    and "UnixMilli (wall w) = clock (kv w) + off" "inv (kv w)"
  shows "of_nat (allow_run L R tick key C refill ds w) \<le> level (kv w) + of_int (sum_list ds) / of_int r + 4 * \<epsilon> * of_nat (length ds)"
  using assms(3-)
proof (induction ds arbitrary: w)
  case Nil
  have "0 \<le> level (kv w)"
    using Nil.prems(3) C_pos r_pos by (auto elim!: inv_cases)
  then show ?case
    by simp
next
  case (Cons d ds)
  let ?w = "advance tick d w"
  have d: "0 \<le> d"
    using Cons.prems(1) by simp
  obtain res w' where allow: "TokenBucketStore_Allow L R key C refill ?w = (res, w')"
    by (cases "TokenBucketStore_Allow L R key C refill ?w")
  have sync: "UnixMilli (wall ?w) = clock (kv ?w) + off"
    using Cons.prems(2) d by (simp add: UnixMilli_advance)
  note step = Allow_level [OF allow assms(1,2) sync, simplified kv_advance, OF tick_inv(1) [OF Cons.prems(3) d]]
  note tick = tick_inv(2) [OF Cons.prems(3) d]
  have "of_nat (allow_run L R tick key C refill ds w') \<le> level (kv w') + of_int (sum_list ds) / of_int r + 4 * \<epsilon> * of_nat (length ds)"
    using Cons.IH [of w'] Cons.prems(1) step(1,2) by simp
  moreover define n :: nat where "n = (case res of Inl _ \<Rightarrow> 0 | Inr dec \<Rightarrow> if tb_Allowed dec then 1 else 0)"
  have "allow_run L R tick key C refill (d # ds) w = n + allow_run L R tick key C refill ds w'"
    using allow by (simp add: n_def)
  moreover have "level (kv w') + of_nat n \<le> level (tick d (kv w)) + 4 * \<epsilon>"
    using step(3) by (simp add: n_def split: sum.splits if_splits)
  ultimately show ?case
    using tick by (simp add: algebra_simps add_divide_distrib)
qed

end

context bucket
begin

text \<open>At one instant a bucket that holds \<open>m\<close> whole tokens admits \<open>m\<close> calls.\<close>

definition full_at :: "'s \<Rightarrow> int \<Rightarrow> bool" where
  "full_at s m \<longleftrightarrow> (view s k = None \<and> m = C) \<or> holds s (of_int m) (clock s + off)"

lemma full_at_tick: "full_at s m \<Longrightarrow> full_at (tick 0 s) m"
  using mult_pos_pos [OF C_pos r_pos] by (auto simp: full_at_def holds_def view_tick)

lemma full_at_script:
  assumes "full_at s m" "0 \<le> m" "m \<le> C"
  obtains retry rem s' where "tokenBucketScript L R k C r (clock s + off) s =
      (Inr (ArrayReply [IntReply (if 1 \<le> m then 1 else 0), IntReply retry, IntReply rem]), s')"
    "full_at s' (if 1 \<le> m then m - 1 else m)" "clock s' = clock s"
proof -
  let ?now = "clock s + off" and ?m = "if 1 \<le> m then m - 1 else m"
  have int: "0 \<le> n \<Longrightarrow> n \<le> C \<Longrightarrow> fl L (of_int n) = of_int n \<and> pr L (of_int n) = of_int n" for n
    using wide fl_int [of n] pr_int [of n] C_pos by (simp add: order_trans [of "of_int n" "of_int C" bound])
  obtain h where h: "hash_at (view s k) = Inr h" "map_of h ''t'' = None \<longleftrightarrow> map_of h ''u'' = None"
    and tok: "of_int m = refilled L C r ?now (case map_of h ''t'' of None \<Rightarrow> of_int C | Some t \<Rightarrow> t)
                 (case map_of h ''u'' of None \<Rightarrow> of_int ?now | Some u \<Rightarrow> u)"
  proof (cases "view s k")
    case None
    then have "m = C"
      using assms(1) by (simp add: full_at_def holds_def)
    then show thesis
      using None int [of C] int [of 0] C_pos by (intro that [of "[]"]) (simp_all add: hash_at_def refilled_def)
  next
    case (Some e)
    then obtain h where "view s k = Some (RHash h, Some (clock s + C * r))" "map_of h ''t'' = Some (of_int m)"
      "map_of h ''u'' = Some (of_int ?now)"
      using assms(1) by (auto simp: full_at_def holds_def)
    then show thesis
      using int [of m] int [of 0] assms(2,3) C_pos by (intro that [of h]) (simp_all add: hash_at_def refilled_def)
  qed
  obtain retry where spend: "spend L r (of_int m) = (if 1 \<le> m then 1 else 0, retry, of_int ?m)"
    using int [of "m - 1"] assms(2,3) by (cases "1 \<le> m") (auto simp: spend_def)
  obtain s' h' where s': "tokenBucketScript L R k C r ?now s =
      (Inr (ArrayReply [IntReply (if 1 \<le> m then 1 else 0), IntReply retry, IntReply \<lfloor>of_int ?m :: rat\<rfloor>]), s')"
    "view s' k = Some (RHash h', Some (clock s + C * r))" "map_of h' ''t'' = Some (pr L (of_int ?m))"
    "map_of h' ''u'' = Some (of_int ?now)" "clock s' = clock s"
    using script_eq [OF h tok spend] by metis
  moreover have "pr L (of_int ?m) = of_int ?m"
    using int [of ?m] assms(2,3) by simp
  ultimately show thesis
    by (intro that [of retry "\<lfloor>of_int ?m :: rat\<rfloor>" s']) (simp_all add: full_at_def holds_def)
qed

lemma burst:
  assumes "k = tokenBucketKeyPrefix @ key" "r = Milliseconds refill"
    and "UnixMilli (wall w) = clock (kv w) + off" "full_at (kv w) m" "0 \<le> m" "m \<le> C" "net w = []"
  shows "allow_run L R tick key C refill (replicate n 0) w = min n (nat m)"
  using assms(3-)
proof (induction n arbitrary: w m)
  case (Suc n)
  let ?w = "advance tick 0 w" and ?m = "if 1 \<le> m then m - 1 else m"
  obtain retry rem s' where s': "tokenBucketScript L R k C r (clock (tick 0 (kv w)) + off) (tick 0 (kv w)) =
      (Inr (ArrayReply [IntReply (if 1 \<le> m then 1 else 0), IntReply retry, IntReply rem]), s')"
    "full_at s' ?m" "clock s' = clock (tick 0 (kv w))"
    using full_at_script [OF full_at_tick [OF Suc.prems(2)] Suc.prems(3,4)] by metis
  have sync: "UnixMilli (wall ?w) = clock (tick 0 (kv w)) + off"
    using Suc.prems(1) by (simp add: UnixMilli_advance)
  obtain dec where "TokenBucketStore_Allow L R key C refill ?w = (Inr dec, ?w\<lparr>kv := s', net := []\<rparr>)"
    "tb_Allowed dec \<longleftrightarrow> 1 \<le> m"
    using s'(1) sync Suc.prems(5) C_pos r_pos assms(1,2)
    by (simp add: TokenBucketStore_Allow_def Let_def attempt_def script_call_def redis_call_def next_delivery_def
        advance_def reply_Slice_def reply3_def redisInt_def)
  moreover have "allow_run L R tick key C refill (replicate n 0) (?w\<lparr>kv := s', net := []\<rparr>) = min n (nat ?m)"
    using Suc.IH [of "?w\<lparr>kv := s', net := []\<rparr>" ?m] s' sync Suc.prems(3,4) by simp
  ultimately show ?case
    by (cases "1 \<le> m") (auto simp: nat_diff_distrib)
qed simp

end

section \<open>A rounding\<close>

text \<open>Rounding down to multiples of \<open>1 / q\<close>, as fixed-point arithmetic would.\<close>

definition fixed_point :: "int \<Rightarrow> rat \<Rightarrow> rat" where
  "fixed_point q x = of_int \<lfloor>x * of_int q\<rfloor> / of_int q"

lemma fixed_point_near:
  assumes "0 < q"
  shows "\<bar>fixed_point q x - x\<bar> \<le> 1 / of_int q"
proof -
  have "\<bar>of_int \<lfloor>x * of_int q\<rfloor> - x * of_int q\<bar> \<le> (1::rat)"
    by linarith
  moreover have "fixed_point q x - x = (of_int \<lfloor>x * of_int q\<rfloor> - x * of_int q) / of_int q"
    using assms by (simp add: fixed_point_def field_simps)
  ultimately show ?thesis
    using assms by (simp add: divide_right_mono)
qed

definition fixed_lua :: lua where
  "fixed_lua = \<lparr>fl = fixed_point (2 ^ 40), pr = fixed_point (10 ^ 12)\<rparr>"

interpretation fixed: lua_arith fixed_lua bound "1 / 10 ^ 12" for bound
proof
  have mono: "x \<le> y \<Longrightarrow> fixed_point q x \<le> fixed_point q y" if "0 < q" for q x y
    using that by (simp add: fixed_point_def divide_right_mono floor_mono)
  have nonneg: "0 \<le> x \<Longrightarrow> 0 \<le> fixed_point q x" if "0 < q" for q x
    using that by (simp add: fixed_point_def)
  have int: "fixed_point q (of_int n) = of_int n" if "0 < q" for q n
  proof -
    have "\<lfloor>of_int n * of_int q :: rat\<rfloor> = n * q"
      by (simp flip: of_int_mult)
    then show ?thesis
      using that by (simp add: fixed_point_def)
  qed
  have near: "\<bar>fixed_point q x - x\<bar> \<le> 1 / 10 ^ 12" if "10 ^ 12 \<le> q" for q x
  proof -
    have "of_int (10 ^ 12) \<le> (of_int q :: rat)"
      using that by (simp only: of_int_le_iff)
    then have "1 / of_int q \<le> (1 / of_int (10 ^ 12) :: rat)"
      by (intro divide_left_mono) auto
    moreover have "\<bar>fixed_point q x - x\<bar> \<le> 1 / of_int q"
      using that by (intro fixed_point_near) simp
    ultimately have "\<bar>fixed_point q x - x\<bar> \<le> 1 / of_int (10 ^ 12)"
      by (rule order_trans [rotated])
    then show ?thesis
      by simp
  qed
  show "0 \<le> (1 / 10 ^ 12 :: rat)"
    by simp
  fix x y :: rat and n :: int
  show "\<bar>fl fixed_lua x - x\<bar> \<le> 1 / 10 ^ 12" "\<bar>pr fixed_lua x - x\<bar> \<le> 1 / 10 ^ 12"
    using near [of "2 ^ 40" x] near [of "10 ^ 12" x] by (simp_all add: fixed_lua_def)
  show "x \<le> y \<Longrightarrow> fl fixed_lua x \<le> fl fixed_lua y" "x \<le> y \<Longrightarrow> pr fixed_lua x \<le> pr fixed_lua y"
    using mono [of "2 ^ 40" x y] mono [of "10 ^ 12" x y] by (simp_all add: fixed_lua_def)
  show "0 \<le> x \<Longrightarrow> 0 \<le> fl fixed_lua x" "0 \<le> x \<Longrightarrow> 0 \<le> pr fixed_lua x"
    using nonneg [of "2 ^ 40" x] nonneg [of "10 ^ 12" x] by (simp_all add: fixed_lua_def)
  show "fl fixed_lua (of_int n) = of_int n" "pr fixed_lua (of_int n) = of_int n"
    using int [of "2 ^ 40" n] int [of "10 ^ 12" n] by (simp_all add: fixed_lua_def)
qed

interpretation ks_bucket: bucket keyspace_redis ks_view ks_clock ks_tick fixed_lua 1000 "1 / 10 ^ 12" 20 1000 off k for off k
  by unfold_locales auto

section \<open>Properties\<close>

text \<open>
  (C1) Whatever calls are lost on the way to Redis, the calls a fresh token bucket lets through over
  a run are at most its capacity, plus one per refill interval of the time the run takes, plus the
  rounding the script's arithmetic can add per call. The client clock may be off, but runs with the
  server's.
\<close>

theorem token_bucket_rate:
  assumes "redis_spec R view clock tick" "lua_arith L bound \<epsilon>" "\<epsilon> \<le> 1 / 4" "2 * of_int capacity + 1 \<le> bound"
    and "0 < capacity" "0 < Milliseconds refill" "list_all (\<lambda>d. 0 \<le> d) ds"
    and "view (kv w) (tokenBucketKeyPrefix @ key) = None"
  shows "of_nat (allow_run L R tick key capacity refill ds w)
           \<le> of_int capacity + of_int (sum_list ds) / of_int (Milliseconds refill) + 4 * \<epsilon> * of_nat (length ds)"
proof -
  let ?off = "UnixMilli (wall w) - clock (kv w)"
  have b: "bucket R view clock tick L bound \<epsilon> capacity (Milliseconds refill)"
    using assms by (intro bucket.intro bucket_axioms.intro)
  let ?k = "tokenBucketKeyPrefix @ key"
  have "bucket.inv view clock capacity (Milliseconds refill) ?off ?k (kv w)"
    using assms(8) by (simp add: bucket.inv_def [OF b])
  from bucket.allow_run_level [OF b _ _ assms(7) _ this, of key refill]
    bucket.level_le [OF b this]
  show ?thesis
    by simp
qed

theorem token_bucket_rate_witness:
  "of_nat (allow_run fixed_lua keyspace_redis ks_tick ''global:ip:10.0.0.1'' 20 (1 * Second) [0, 0, 500, 1500]
      (start_world \<lparr>ks_clock = 0, ks_data = (\<lambda>_. None)\<rparr> []\<lparr>net := [LostReply TDeadline]\<rparr>))
     \<le> (of_int 20 + of_int 2000 / of_int (Milliseconds (1 * Second)) + 4 * (1 / 10 ^ 12) * of_nat 4 :: rat)"
  using token_bucket_rate [OF ks.redis_spec_axioms fixed.lua_arith_axioms [of 1000], of 20 "1 * Second" "[0, 0, 500, 1500]"
      "(start_world \<lparr>ks_clock = 0, ks_data = (\<lambda>_. None)\<rparr> []\<lparr>net := [LostReply TDeadline]\<rparr>)" "''global:ip:10.0.0.1''"]
  by (simp add: start_world_def ks_view_def Milliseconds_def quot_trunc_def)

text \<open>
  A fresh bucket of capacity \<open>c\<close> admits the first \<open>c\<close> of any number of calls made at one instant
  and refuses the others.
\<close>

theorem token_bucket_burst:
  assumes "redis_spec R view clock tick" "lua_arith L bound \<epsilon>" "\<epsilon> \<le> 1 / 4" "2 * of_int capacity + 1 \<le> bound"
    and "0 < capacity" "0 < Milliseconds refill" "view (kv w) (tokenBucketKeyPrefix @ key) = None" "net w = []"
  shows "allow_run L R tick key capacity refill (replicate n 0) w = min n (nat capacity)"
proof -
  let ?off = "UnixMilli (wall w) - clock (kv w)"
  have b: "bucket R view clock tick L bound \<epsilon> capacity (Milliseconds refill)"
    using assms by (intro bucket.intro bucket_axioms.intro)
  have "bucket.full_at view clock capacity (Milliseconds refill) ?off (tokenBucketKeyPrefix @ key) (kv w) capacity"
    using assms(7) by (simp add: bucket.full_at_def [OF b])
  from bucket.burst [OF b _ _ _ this _ _ assms(8), of key refill n] show ?thesis
    using assms(5) by simp
qed

theorem token_bucket_burst_witness:
  "allow_run fixed_lua keyspace_redis ks_tick ''global:ip:10.0.0.1'' 20 (1 * Second) (replicate 30 0)
      (start_world \<lparr>ks_clock = 0, ks_data = (\<lambda>_. None)\<rparr> []) = 20"
  using token_bucket_burst [OF ks.redis_spec_axioms fixed.lua_arith_axioms [of 1000], of 20 "1 * Second"
      "(start_world \<lparr>ks_clock = 0, ks_data = (\<lambda>_. None)\<rparr> [])" "''global:ip:10.0.0.1''" 30]
  by (simp add: start_world_def ks_view_def Milliseconds_def quot_trunc_def)

section \<open>Callers with different clocks\<close>

text \<open>
  The bound above is for callers that share a clock. The script stores the caller's time also when it
  lies behind the stored one, so a caller whose clock lags by one refill interval lets another one
  collect the same interval twice: a bucket of one token admits two calls at the same instant.
\<close>

definition exact_lua :: lua where
  "exact_lua = \<lparr>fl = id, pr = id\<rparr>"

lemma clock_skew_credits_twice:
  "\<exists>s1 s2 s3.
     tokenBucketScript exact_lua keyspace_redis ''k'' 1 1000 5000 \<lparr>ks_clock = 0, ks_data = (\<lambda>_. None)\<rparr> = (Inr (ArrayReply [IntReply 1, IntReply 0, IntReply 0]), s1) \<and>
     tokenBucketScript exact_lua keyspace_redis ''k'' 1 1000 4000 s1 = (Inr (ArrayReply [IntReply 0, IntReply 1000, IntReply 0]), s2) \<and>
     tokenBucketScript exact_lua keyspace_redis ''k'' 1 1000 5000 s2 = (Inr (ArrayReply [IntReply 1, IntReply 0, IntReply 0]), s3)"
  by (simp add: tokenBucketScript_def exact_lua_def keyspace_redis_def hash_at_def ks_view_def ks_put_def ttl_at_def refilled_def spend_def Let_def)

end
