(* ===== verification/Sliding_Window.thy ===== *)
theory Sliding_Window
  imports Token_Bucket
begin

text \<open>
  The sliding-window limiter of \<^verbatim>\<open>sliding_window_store.go\<close>: the Lua function \<open>admit\<close>, the
  single and the tiered script, and the Go methods around them. The results: over any run the
  limiter never admits more than its limit within one window, and the tiered script stops at the
  first tier that refuses.
\<close>

section \<open>The scripts\<close>

definition slidingWindowKeyPrefix :: string where "slidingWindowKeyPrefix = ''ratelimit:sw:''"

text \<open>\<open>admit\<close> returns whether the call is admitted, the calls that remain and the milliseconds to wait.\<close>

definition admit :: "'s redis \<Rightarrow> string \<Rightarrow> int \<Rightarrow> int \<Rightarrow> int \<Rightarrow> string \<Rightarrow> 's \<Rightarrow> (error + bool \<times> int \<times> int) \<times> 's" where
  "admit R key now_ms window_ms limit member s =
     (case ZREMRANGEBYSCORE R key (now_ms - window_ms) s of
        Inl e \<Rightarrow> (Inl e, s)
      | Inr s1 \<Rightarrow>
          (case ZCARD R key s1 of
             Inl e \<Rightarrow> (Inl e, s1)
           | Inr count \<Rightarrow>
               if limit \<le> int count then
                 (case ZMIN R key s1 of
                    Inl e \<Rightarrow> (Inl e, s1)
                  | Inr oldest \<Rightarrow>
                      let retry = (case oldest of None \<Rightarrow> window_ms | Some (_, sc) \<Rightarrow> sc + window_ms - now_ms)
                      in (Inr (False, 0, if retry < 1 then 1 else retry), s1))
               else
                 (case ZADD R key now_ms member s1 of
                    Inl e \<Rightarrow> (Inl e, s1)
                  | Inr s2 \<Rightarrow> (Inr (True, limit - int count - 1, 0), PEXPIRE R key window_ms s2))))"

definition slidingWindowScript :: "'s redis \<Rightarrow> string \<Rightarrow> int \<Rightarrow> int \<Rightarrow> int \<Rightarrow> string \<Rightarrow> 's \<Rightarrow> (error + reply) \<times> 's" where
  "slidingWindowScript R key now_ms window_ms limit member s =
     (case admit R key now_ms window_ms limit member s of
        (Inl e, s') \<Rightarrow> (Inl e, s')
      | (Inr (admitted, remaining, retry_ms), s') \<Rightarrow>
          (Inr (ArrayReply (if admitted then [IntReply 1, IntReply 0, IntReply remaining]
                            else [IntReply 0, IntReply retry_ms, IntReply 0])), s'))"

text \<open>The loop over the tiers; \<open>i\<close> is the 1-based index of the first tier of the list.\<close>

fun tiers_loop :: "'s redis \<Rightarrow> int \<Rightarrow> string \<Rightarrow> int \<Rightarrow> (string \<times> int \<times> int) list \<Rightarrow> 's \<Rightarrow> (error + reply) \<times> 's" where
  "tiers_loop R now_ms member i [] s = (Inr (ArrayReply [IntReply 1, IntReply 0, IntReply 0]), s)"
| "tiers_loop R now_ms member i ((key, limit, window) # ts) s =
     (case admit R key now_ms window limit member s of
        (Inl e, s') \<Rightarrow> (Inl e, s')
      | (Inr (admitted, _, retry_ms), s') \<Rightarrow>
          if \<not> admitted then (Inr (ArrayReply [IntReply 0, IntReply i, IntReply retry_ms]), s')
          else tiers_loop R now_ms member (i + 1) ts s')"

definition slidingWindowTieredScript :: "'s redis \<Rightarrow> int \<Rightarrow> string \<Rightarrow> (string \<times> int \<times> int) list \<Rightarrow> 's \<Rightarrow> (error + reply) \<times> 's" where
  "slidingWindowTieredScript R now_ms member = tiers_loop R now_ms member 1"

section \<open>SlidingWindowStore\<close>

record sliding_decision =
  sw_Allowed :: bool
  sw_Remaining :: int
  sw_RetryAfter :: duration

record sliding_tier =
  Tier_Key :: string
  Tier_Limit :: int
  Tier_Window :: duration

record tiered_decision =
  tw_Allowed :: bool
  tw_RejectedTier :: string
  tw_RetryAfter :: duration

definition rateLimitMember :: "('s world, string) eff" where
  "rateLimitMember = attempt (rand_Read 8) fail
     (\<lambda>b w. return (Itoa (wall w) @ '':'' @ EncodeToString b) w)"

definition SlidingWindowStore_Allow :: "'s redis \<Rightarrow> string \<Rightarrow> int \<Rightarrow> duration \<Rightarrow> ('s world, sliding_decision) eff" where
  "SlidingWindowStore_Allow R key limit window =
     (let ms = Milliseconds window in
      if limit \<le> 0 \<or> ms \<le> 0 then fail (Msg ''sliding window: invalid limit or window'')
      else attempt rateLimitMember fail (\<lambda>member w.
        attempt
          (attempt (script_call (slidingWindowScript R (slidingWindowKeyPrefix @ key) (UnixMilli (wall w)) ms limit member)) fail
             (\<lambda>r. case reply_Slice r of Inl e \<Rightarrow> fail e | Inr rs \<Rightarrow> return rs))
          (\<lambda>e. fail (Errorf ''sliding window allow'' e))
          (\<lambda>res. case reply3 res of
              (Inl e, _, _) \<Rightarrow> fail e
            | (_, Inl e, _) \<Rightarrow> fail e
            | (_, _, Inl e) \<Rightarrow> fail e
            | (Inr allowed, Inr retry, Inr remaining) \<Rightarrow>
                return \<lparr>sw_Allowed = (allowed = 1), sw_Remaining = remaining,
                  sw_RetryAfter = (if allowed \<noteq> 1 \<and> 0 < retry then retry * Millisecond else 0)\<rparr>) w))"

definition valid_tier :: "sliding_tier \<Rightarrow> bool" where
  "valid_tier t \<longleftrightarrow> \<not> (Tier_Limit t \<le> 0 \<or> Milliseconds (Tier_Window t) \<le> 0)"

definition tier_args :: "sliding_tier \<Rightarrow> string \<times> int \<times> int" where
  "tier_args t = (slidingWindowKeyPrefix @ Tier_Key t, Tier_Limit t, Milliseconds (Tier_Window t))"

definition SlidingWindowStore_AllowTiered :: "'s redis \<Rightarrow> sliding_tier list \<Rightarrow> ('s world, tiered_decision) eff" where
  "SlidingWindowStore_AllowTiered R tiers =
     (if tiers = [] then return \<lparr>tw_Allowed = True, tw_RejectedTier = [], tw_RetryAfter = 0\<rparr>
      else attempt rateLimitMember fail (\<lambda>member w.
        case find (\<lambda>t. \<not> valid_tier t) tiers of
          Some t \<Rightarrow> fail (Msg (''sliding window: invalid tier '' @ quoted (Tier_Key t))) w
        | None \<Rightarrow>
          attempt
            (attempt (script_call (slidingWindowTieredScript R (UnixMilli (wall w)) member (map tier_args tiers))) fail
               (\<lambda>r. case reply_Slice r of Inl e \<Rightarrow> fail e | Inr rs \<Rightarrow> return rs))
            (\<lambda>e. fail (Errorf ''sliding window tiered allow'' e))
            (\<lambda>res. case reply3 res of
                (Inl e, _, _) \<Rightarrow> fail e
              | (Inr allowed, idx, retry) \<Rightarrow>
                  if allowed = 1 then return \<lparr>tw_Allowed = True, tw_RejectedTier = [], tw_RetryAfter = 0\<rparr>
                  else (case (idx, retry) of
                     (Inl e, _) \<Rightarrow> fail e
                   | (_, Inl e) \<Rightarrow> fail e
                   | (Inr i, Inr ms) \<Rightarrow>
                       return \<lparr>tw_Allowed = False,
                         tw_RejectedTier = (if 1 \<le> i \<and> i \<le> int (length tiers) then Tier_Key (tiers ! nat (i - 1)) else []),
                         tw_RetryAfter = (if 0 < ms then ms * Millisecond else 0)\<rparr>)) w))"

section \<open>One window\<close>

text \<open>The run of \<open>admit\<close> on one key: for every call the milliseconds since the last and a member name; the times of the admitted calls.\<close>

fun admit_run :: "'s redis \<Rightarrow> (int \<Rightarrow> 's \<Rightarrow> 's) \<Rightarrow> string \<Rightarrow> int \<Rightarrow> int \<Rightarrow> (int \<times> string) list \<Rightarrow> int \<Rightarrow> 's \<Rightarrow> int list" where
  "admit_run R tick key window limit [] now s = []"
| "admit_run R tick key window limit ((d, member) # calls) now s =
     (case admit R key (now + d) window limit member (tick d s) of (res, s') \<Rightarrow>
        (case res of Inr (True, _, _) \<Rightarrow> [now + d] | _ \<Rightarrow> [])
        @ admit_run R tick key window limit calls (now + d) s')"

lemma update_fresh: "m \<notin> fst ` set z \<Longrightarrow> AList.update m x z = z @ [(m, x)]"
  by (induction z) auto

text \<open>Admission times of which no \<open>n + 1\<close> lie within one window.\<close>

definition spaced :: "int \<Rightarrow> nat \<Rightarrow> int list \<Rightarrow> bool" where
  "spaced W n A \<longleftrightarrow> (\<forall>i. i + n < length A \<longrightarrow> W \<le> A ! (i + n) - A ! i)"

lemma spaced_snoc:
  assumes "sorted A" "\<forall>t\<in>set A. t \<le> now" "spaced W n A" "length [t \<leftarrow> A. now - W < t] < n"
  shows "spaced W n (A @ [now])"
proof -
  have "W \<le> now - A ! i" if i: "i + n = length A" for i
  proof (rule ccontr)
    assume "\<not> W \<le> now - A ! i"
    then have "now - W < A ! i"
      by simp
    moreover have "A ! i \<le> t" if "t \<in> set (drop i A)" for t
      using that assms(1) i by (auto simp: in_set_conv_nth intro: sorted_nth_mono)
    ultimately have "[t \<leftarrow> drop i A. now - W < t] = drop i A"
      by (fastforce simp: filter_id_conv)
    moreover have "[t \<leftarrow> A. now - W < t] = [t \<leftarrow> take i A. now - W < t] @ [t \<leftarrow> drop i A. now - W < t]"
      by (simp flip: filter_append)
    ultimately have "length (drop i A) \<le> length [t \<leftarrow> A. now - W < t]"
      by simp
    with assms(4) i show False
      by simp
  qed
  moreover have "i < length A" if "i + n < length (A @ [now])" for i
    using that assms(4) by simp
  ultimately show ?thesis
    using assms(3) unfolding spaced_def by (auto simp: nth_append)
qed

locale rolling_window = redis_spec R view clock tick
  for R :: "'s redis" and view clock tick +
  fixes W :: int and limit :: int and k :: string
  assumes W_pos: "0 < W" and limit_pos: "0 < limit"
begin

text \<open>
  \<open>A\<close> are the times admitted so far and \<open>ms\<close> the members used: the set at the key holds those that are
  later than some moment at least a window ago.
\<close>

definition win_inv :: "int list \<Rightarrow> string set \<Rightarrow> int \<Rightarrow> 's \<Rightarrow> bool" where
  "win_inv A ms now s \<longleftrightarrow> sorted A \<and> (\<forall>t\<in>set A. t \<le> now) \<and>
     (view s k = None \<and> (\<forall>t\<in>set A. t \<le> now - W) \<or>
      (\<exists>z e cut. view s k = Some (RZSet z, Some e) \<and> fst ` set z \<subseteq> ms \<and> cut \<le> now - W \<and>
         map snd z = [t \<leftarrow> A. cut < t] \<and> (\<forall>t\<in>set A. t + W \<le> e - clock s + now)))"

lemma win_inv_tick:
  assumes "win_inv A ms now s" "0 \<le> d"
  shows "win_inv A ms (now + d) (tick d s)"
proof -
  have A: "sorted A" "\<forall>t\<in>set A. t \<le> now"
    using assms(1) by (simp_all add: win_inv_def)
  consider "view s k = None" "\<forall>t\<in>set A. t \<le> now - W"
    | z e cut where "view s k = Some (RZSet z, Some e)" "fst ` set z \<subseteq> ms" "cut \<le> now - W"
        "map snd z = [t \<leftarrow> A. cut < t]" "\<forall>t\<in>set A. t + W \<le> e - clock s + now"
    using assms(1) by (auto simp: win_inv_def)
  then show ?thesis
  proof cases
    case 1
    then have "\<forall>t\<in>set A. t \<le> now + d - W"
      using assms(2) by force
    then show ?thesis
      using 1 A assms(2) by (force simp: win_inv_def view_tick)
  next
    case (2 z e cut)
    show ?thesis
    proof (cases "clock s + d < e")
      case True
      then have "view (tick d s) k = Some (RZSet z, Some e)"
        using 2 assms(2) by (simp add: view_tick)
      moreover have "cut \<le> now + d - W"
        using 2(3) assms(2) by simp
      ultimately show ?thesis
        using 2 A assms(2) unfolding win_inv_def by (auto intro!: exI [of _ cut])
    next
      case False
      then have "view (tick d s) k = None"
        using 2 assms(2) by (simp add: view_tick)
      moreover have "t \<le> now + d - W" if "t \<in> set A" for t
        using 2(5) that False by force
      ultimately show ?thesis
        using A assms(2) by (force simp: win_inv_def)
    qed
  qed
qed

text \<open>What \<open>admit\<close> does in a state of the invariant.\<close>

lemma admit_step:
  assumes "win_inv A ms now s" "m \<notin> ms"
  defines "recent \<equiv> [t \<leftarrow> A. now - W < t]"
  obtains (refused) retry s' where "admit R k now W limit m s = (Inr (False, 0, retry), s')" "win_inv A ms now s'"
        "clock s' = clock s" "limit \<le> int (length recent)" "0 < retry"
    | (admitted) s' where "admit R k now W limit m s = (Inr (True, limit - int (length recent) - 1, 0), s')"
        "win_inv (A @ [now]) (insert m ms) now s'" "clock s' = clock s" "int (length recent) < limit"
proof -
  obtain z where z: "zset_at (view s k) = Inr z" "map snd [p \<leftarrow> z. now - W < snd p] = recent" "fst ` set z \<subseteq> ms"
    and ttl: "z \<noteq> [] \<Longrightarrow> \<exists>e. ttl_at (view s k) = Some e \<and> (\<forall>t\<in>set A. t + W \<le> e - clock s + now)"
  proof -
    consider "view s k = None" "\<forall>t\<in>set A. t \<le> now - W"
      | z e cut where "view s k = Some (RZSet z, Some e)" "fst ` set z \<subseteq> ms" "cut \<le> now - W"
          "map snd z = [t \<leftarrow> A. cut < t]" "\<forall>t\<in>set A. t + W \<le> e - clock s + now"
      using assms(1) by (auto simp: win_inv_def)
    then show thesis
    proof cases
      case 1
      then have "recent = []"
        by (auto simp: recent_def filter_empty_conv)
      then show thesis
        using 1 by (intro that [of "[]"]) (simp_all add: zset_at_def)
    next
      case (2 z e cut)
      have "map snd [p \<leftarrow> z. now - W < snd p] = [t \<leftarrow> map snd z. now - W < t]"
        by (simp add: filter_map o_def)
      also have "\<dots> = recent"
        using 2(3) unfolding 2(4) recent_def filter_filter by (intro filter_cong) auto
      finally show thesis
        using 2 by (intro that [of z]) (auto simp: zset_at_def ttl_at_def)
    qed
  qed
  let ?z = "[p \<leftarrow> z. now - W < snd p]"
  have len: "length ?z = length recent" and sub: "fst ` set ?z \<subseteq> ms"
    using z(2,3) by (auto simp flip: length_map [of snd])
  obtain s1 where rem: "ZREMRANGEBYSCORE R k (now - W) s = Inr s1"
    and view1: "view s1 = (view s)(k := if ?z = [] then None else Some (RZSet ?z, ttl_at (view s k)))" "clock s1 = clock s"
    using ZREM [OF z(1)] by blast
  have at1: "zset_at (view s1 k) = Inr ?z"
    using view1 by (simp add: zset_at_def)
  have A: "sorted A" "\<forall>t\<in>set A. t \<le> now"
    using assms(1) by (simp_all add: win_inv_def)
  show thesis
  proof (cases "limit \<le> int (length recent)")
    case True
    then have "?z \<noteq> []" "z \<noteq> []"
      using limit_pos len by auto
    then obtain e where e: "view s1 k = Some (RZSet ?z, Some e)" "\<forall>t\<in>set A. t + W \<le> e - clock s + now"
      using ttl view1(1) by auto
    have "win_inv A ms now s1"
      unfolding win_inv_def using A e sub z(2) view1(2)
      by (intro conjI disjI2 exI [of _ ?z] exI [of _ e] exI [of _ "now - W"]) (simp_all add: recent_def)
    moreover obtain retry where "admit R k now W limit m s = (Inr (False, 0, retry), s1)" "0 < retry"
      using rem at1 True len by (simp add: admit_def ZCARD ZMIN Let_def)
    ultimately show thesis
      using refused True view1(2) by blast
  next
    case False
    obtain s2 where add: "ZADD R k now m s1 = Inr s2" "clock s2 = clock s1"
      and view2: "view s2 = (view s1)(k \<mapsto> (RZSet (AList.update m now ?z), ttl_at (view s1 k)))"
      using ZADD [OF at1] by blast
    let ?s = "PEXPIRE R k W s2"
    have upd: "AList.update m now ?z = ?z @ [(m, now)]"
      using sub assms(2) by (intro update_fresh) auto
    have "view ?s k = Some (RZSet (?z @ [(m, now)]), Some (clock s + W))"
      using W_pos view2 upd add(2) view1(2) by (simp add: PEXPIRE)
    moreover have "map snd (?z @ [(m, now)]) = [t \<leftarrow> A @ [now]. now - W < t]"
      using z(2) W_pos by (simp add: recent_def)
    moreover have "sorted (A @ [now])"
      using A by (simp add: sorted_append)
    ultimately have "win_inv (A @ [now]) (insert m ms) now ?s"
      unfolding win_inv_def using A sub add(2) view1(2)
      by (intro conjI disjI2 exI [of _ "?z @ [(m, now)]"] exI [of _ "clock s + W"] exI [of _ "now - W"]) auto
    moreover have "admit R k now W limit m s = (Inr (True, limit - int (length recent) - 1, 0), ?s)"
      using rem at1 False len add by (simp add: admit_def ZCARD)
    ultimately show thesis
      using admitted False add(2) view1(2) by simp
  qed
qed

lemma admit_run_spaced:
  assumes "win_inv A ms now s" "spaced W (nat limit) A" "list_all (\<lambda>(d, m). 0 \<le> d \<and> m \<notin> ms) calls" "distinct (map snd calls)"
  shows "spaced W (nat limit) (A @ admit_run R tick k W limit calls now s)"
  using assms
proof (induction calls arbitrary: A ms now s)
  case (Cons c calls)
  obtain d m where c: "c = (d, m)"
    by (cases c)
  have pre: "0 \<le> d" "m \<notin> ms" "list_all (\<lambda>(d, m). 0 \<le> d \<and> m \<notin> ms) calls" "m \<notin> snd ` set calls" "distinct (map snd calls)"
    using Cons.prems(3,4) c by (auto simp: list_all_iff)
  have inv: "win_inv A ms (now + d) (tick d s)"
    using win_inv_tick Cons.prems(1) pre(1) by blast
  from inv pre(2) show ?case
  proof (cases rule: admit_step)
    case (refused retry s')
    then show ?thesis
      using Cons.IH [OF refused(2) Cons.prems(2) pre(3,5)] c by simp
  next
    case (admitted s')
    have "spaced W (nat limit) (A @ [now + d])"
      using inv Cons.prems(2) admitted(4) limit_pos by (intro spaced_snoc) (auto simp: win_inv_def)
    moreover have "list_all (\<lambda>(d, x). 0 \<le> d \<and> x \<notin> insert m ms) calls"
      using pre(3,4) by (auto simp: list_all_iff image_iff)
    ultimately show ?thesis
      using Cons.IH [OF admitted(2) _ _ pre(5)] admitted(1) c by simp
  qed
qed simp

end

lemma admit_run_sound:
  assumes "redis_spec R view clock tick" "0 < window" "0 < limit" "list_all (\<lambda>(d, _). 0 \<le> d) calls" "distinct (map snd calls)"
    and "view s key = None"
  shows "spaced window (nat limit) (admit_run R tick key window limit calls now s)"
proof -
  have w: "rolling_window R view clock tick window limit"
    using assms by (intro rolling_window.intro rolling_window_axioms.intro)
  have "rolling_window.win_inv view clock window key [] {} now s"
    using assms(6) by (simp add: rolling_window.win_inv_def [OF w])
  from rolling_window.admit_run_spaced [OF w this] show ?thesis
    using assms(4,5) by (simp add: spaced_def list_all_iff)
qed

interpretation ks_window: rolling_window keyspace_redis ks_view ks_clock ks_tick 60000 5 k for k
  by unfold_locales auto

section \<open>Tiers\<close>

lemma admit_retry: "admit R key now window limit m s = (Inr (False, rem, retry), s') \<Longrightarrow> 0 < retry"
  by (auto simp: admit_def Let_def split: sum.splits if_splits option.splits)

text \<open>A refusal of the tiered script carries the 1-based index of a tier and a positive wait.\<close>

lemma tiers_loop_reply:
  assumes "tiers_loop R now m i ts s = (Inr rep, s')"
  shows "rep = ArrayReply [IntReply 1, IntReply 0, IntReply 0] \<or>
    (\<exists>n < length ts. \<exists>retry > 0. rep = ArrayReply [IntReply 0, IntReply (i + int n), IntReply retry])"
  using assms
proof (induction R now m i ts s rule: tiers_loop.induct)
  case (2 R now m i key limit window ts s)
  obtain res s1 where adm: "admit R key now window limit m s = (res, s1)"
    by (cases "admit R key now window limit m s")
  show ?case
  proof (cases res)
    case (Inl e)
    then show ?thesis
      using "2.prems" adm by simp
  next
    case (Inr x)
    obtain a rem retry where x: "x = (a, rem, retry)"
      by (cases x)
    show ?thesis
    proof (cases a)
      case True
      then have "tiers_loop R now m (i + 1) ts s1 = (Inr rep, s')"
        using "2.prems" adm Inr x by simp
      then have "rep = ArrayReply [IntReply 1, IntReply 0, IntReply 0] \<or>
          (\<exists>n < length ts. \<exists>retry > 0. rep = ArrayReply [IntReply 0, IntReply (i + 1 + int n), IntReply retry])"
        using "2.IH" adm Inr x True by simp
      then show ?thesis
        by (elim disjE exE conjE) (auto intro!: exI [of _ "Suc _"])
    next
      case False
      then show ?thesis
        using "2.prems" adm Inr x admit_retry [of R key now window limit m s rem retry s1]
        by (intro disjI2 exI [of _ 0] conjI exI [of _ retry]) auto
    qed
  qed
qed simp

section \<open>Properties\<close>

text \<open>
  (C2) The sliding window is strict: when time passes and members do not repeat, any admission and
  the one \<open>limit\<close> admissions before it are at least a window apart, so no window contains more
  than \<open>limit\<close> of them.
\<close>

theorem sliding_window_strict:
  assumes "redis_spec R view clock tick" "0 < window" "0 < limit" "list_all (\<lambda>(d, _). 0 \<le> d) calls" "distinct (map snd calls)"
    and "view s key = None" "i + nat limit < length (admit_run R tick key window limit calls now s)"
  shows "window \<le> admit_run R tick key window limit calls now s ! (i + nat limit) - admit_run R tick key window limit calls now s ! i"
  using admit_run_sound [OF assms(1-6)] assms(7) by (simp add: spaced_def)

theorem sliding_window_strict_witness:
  "10 \<le> admit_run keyspace_redis ks_tick ''k'' 10 1 [(0, ''a''), (4, ''b''), (7, ''c'')] 0 \<lparr>ks_clock = 0, ks_data = (\<lambda>_. None)\<rparr> ! 1
      - admit_run keyspace_redis ks_tick ''k'' 10 1 [(0, ''a''), (4, ''b''), (7, ''c'')] 0 \<lparr>ks_clock = 0, ks_data = (\<lambda>_. None)\<rparr> ! 0"
proof -
  have "length (admit_run keyspace_redis ks_tick ''k'' 10 1 [(0, ''a''), (4, ''b''), (7, ''c'')] 0 \<lparr>ks_clock = 0, ks_data = (\<lambda>_. None)\<rparr>) = 2"
    by (simp add: admit_def keyspace_redis_def ks_view_def ks_tick_def ks_put_def zset_at_def ttl_at_def Let_def min_score_def)
  then show ?thesis
    using sliding_window_strict [OF ks.redis_spec_axioms, of 10 1 "[(0, ''a''), (4, ''b''), (7, ''c'')]"
        "\<lparr>ks_clock = 0, ks_data = (\<lambda>_. None)\<rparr>" "''k''" 0 0]
    by (simp add: ks_view_def)
qed

text \<open>
  When the tiered limiter refuses a call it names one of the caller's tiers and a positive time
  to wait; with no tiers it refuses nothing.
\<close>

theorem tiered_refusal:
  assumes "SlidingWindowStore_AllowTiered R tiers w = (Inr dec, w')" "\<not> tw_Allowed dec"
  shows "tw_RejectedTier dec \<in> Tier_Key ` set tiers \<and> 0 < tw_RetryAfter dec"
proof -
  obtain now m rep w1 where call: "script_call (slidingWindowTieredScript R now m (map tier_args tiers)) w1 = (Inr rep, w')"
    and dec: "\<exists>rs. rep = ArrayReply rs \<and> (case reply3 rs of (Inr allowed, Inr i, Inr ms) \<Rightarrow> allowed \<noteq> 1 \<and>
        tw_RejectedTier dec = (if 1 \<le> i \<and> i \<le> int (length tiers) then Tier_Key (tiers ! nat (i - 1)) else []) \<and>
        tw_RetryAfter dec = (if 0 < ms then ms * Millisecond else 0) | _ \<Rightarrow> False)"
    using assms unfolding SlidingWindowStore_AllowTiered_def
    by (auto simp: reply_Slice_def elim!: attempt_cases split: if_splits option.splits sum.splits reply.splits prod.splits)
  from call obtain s' where "slidingWindowTieredScript R now m (map tier_args tiers) (kv w1) = (Inr rep, s')"
    by (cases rule: script_call_cases) (auto split: sum.splits reply.splits)
  then have "rep = ArrayReply [IntReply 1, IntReply 0, IntReply 0] \<or>
    (\<exists>n < length tiers. \<exists>retry > 0. rep = ArrayReply [IntReply 0, IntReply (1 + int n), IntReply retry])"
    using tiers_loop_reply [of R now m 1 "map tier_args tiers"] by (simp add: slidingWindowTieredScript_def)
  with dec show ?thesis
    by (auto simp: reply3_def redisInt_def)
qed

theorem tiered_refusal_witness:
  "\<exists>dec w w'. SlidingWindowStore_AllowTiered keyspace_redis [\<lparr>Tier_Key = ''minute'', Tier_Limit = 1, Tier_Window = 1 * Minute\<rparr>] w
      = (Inr dec, w') \<and> \<not> tw_Allowed dec \<and> tw_RejectedTier dec = ''minute'' \<and> 0 < tw_RetryAfter dec"
proof -
  let ?tiers = "[\<lparr>Tier_Key = ''minute'', Tier_Limit = 1, Tier_Window = 1 * Minute\<rparr>]"
  let ?w = "start_world \<lparr>ks_clock = 0, ks_data = [''ratelimit:sw:minute'' \<mapsto> (RZSet [(''a'', 0)], None)]\<rparr> [[7]]"
  obtain dec w' where run: "SlidingWindowStore_AllowTiered keyspace_redis ?tiers ?w = (Inr dec, w')" "\<not> tw_Allowed dec"
    by (simp add: SlidingWindowStore_AllowTiered_def rateLimitMember_def attempt_def start_world_def rand_Read_def valid_tier_def
        tier_args_def slidingWindowTieredScript_def slidingWindowKeyPrefix_def script_call_def redis_call_def next_delivery_def
        Milliseconds_def quot_trunc_def UnixMilli_def admit_def keyspace_redis_def ks_view_def zset_at_def ttl_at_def ks_put_def
        min_score_def reply_Slice_def reply3_def redisInt_def)
  then show ?thesis
    using tiered_refusal [OF run] by auto
qed

end
