(* ===== verification/Retry.thy ===== *)
theory Retry
  imports Go_Errors
begin

text \<open>
  \<^verbatim>\<open>internal/util/retry\<close>: bounded repetition of a fallible call with a pause in between, under a
  context that may end at any time.
\<close>

section \<open>Contexts and timers\<close>

text \<open>
  What the loop asks of its surroundings: \<open>ctx_error\<close> is \<^verbatim>\<open>ctx.Err()\<close>, and \<open>await d\<close> is the
  select between \<^verbatim>\<open>ctx.Done()\<close> and a timer of \<open>d\<close>, which answers whether the timer won.
\<close>

record 'w clockwork =
  ctx_error :: "'w \<Rightarrow> error option"
  await :: "duration \<Rightarrow> 'w \<Rightarrow> bool \<times> 'w"

text \<open>The contract of a Go context: its \<open>Done\<close> channel is ready only once \<open>Err\<close> is not nil.\<close>

locale context_contract =
  fixes cw :: "'w clockwork"
  assumes done_err: "await cw d w = (False, w') \<Longrightarrow> ctx_error cw w' \<noteq> None"

section \<open>The loop\<close>

record 'w retry_options =
  MaxAttempts :: int
  Delay :: duration
  OnRetry :: "(nat \<Rightarrow> error \<Rightarrow> duration \<Rightarrow> 'w \<Rightarrow> 'w) option"
  ShouldRetry :: "(error \<Rightarrow> bool) option"

definition Sleep :: "'w clockwork \<Rightarrow> duration \<Rightarrow> 'w \<Rightarrow> bool \<times> 'w" where
  "Sleep cw d w = (if d \<le> 0 then (ctx_error cw w = None, w) else await cw d w)"

definition maxAttempts :: "'w retry_options \<Rightarrow> nat" where
  "maxAttempts opts = (if MaxAttempts opts \<le> 0 then 1 else nat (MaxAttempts opts))"

text \<open>
  \<open>on_retry\<close> is the optional callback. A Go result is a value and an error that may be nil, and
  both are returned in every case: \<open>zero\<close> is the zero value of the type.
\<close>

definition on_retry :: "'w retry_options \<Rightarrow> nat \<Rightarrow> error \<Rightarrow> 'w \<Rightarrow> 'w" where
  "on_retry opts k e w = (case OnRetry opts of None \<Rightarrow> w | Some f \<Rightarrow> f k e (Delay opts) w)"

definition gives_up :: "'w retry_options \<Rightarrow> error \<Rightarrow> bool" where
  "gives_up opts e \<longleftrightarrow> (case ShouldRetry opts of None \<Rightarrow> False | Some p \<Rightarrow> \<not> p e)"

function Do_from :: "'w clockwork \<Rightarrow> 'w retry_options \<Rightarrow> 'a \<Rightarrow> (nat \<Rightarrow> 'w \<Rightarrow> ('a \<times> error option) \<times> 'w) \<Rightarrow>
    nat \<Rightarrow> error option \<Rightarrow> 'w \<Rightarrow> ('a \<times> error option) \<times> 'w" where
  "Do_from cw opts zero fn k lastErr w =
     (if maxAttempts opts < k then ((zero, lastErr), w)
      else case ctx_error cw w of Some e \<Rightarrow> ((zero, Some e), w)
      | None \<Rightarrow> (case fn k w of
            ((v, None), w1) \<Rightarrow> ((v, None), w1)
          | ((v, Some e), w1) \<Rightarrow>
              if gives_up opts e then ((zero, Some e), w1)
              else if k = maxAttempts opts then ((zero, Some e), w1)
              else (case Sleep cw (Delay opts) (on_retry opts k e w1) of
                   (False, w2) \<Rightarrow> ((zero, ctx_error cw w2), w2)
                 | (True, w2) \<Rightarrow> Do_from cw opts zero fn (k + 1) (Some e) w2)))"
  by pat_completeness auto
termination
  by (relation "measure (\<lambda>(cw, opts, zero, fn, k, lastErr, w). Suc (maxAttempts opts) - k)") auto

declare Do_from.simps [simp del]

definition retry_Do :: "'w clockwork \<Rightarrow> 'w retry_options \<Rightarrow> 'a \<Rightarrow> (nat \<Rightarrow> 'w \<Rightarrow> ('a \<times> error option) \<times> 'w) \<Rightarrow>
    'w \<Rightarrow> ('a \<times> error option) \<times> 'w" where
  "retry_Do cw opts zero fn = Do_from cw opts zero fn 1 None"

section \<open>The specification\<close>

text \<open>
  \<open>retried a w b w'\<close>: attempts \<open>a\<close> up to (not including) \<open>b\<close> were made, each under a live context,
  each failed with an error worth retrying, and each was followed by the callback and a full pause.
\<close>

inductive retried :: "'w clockwork \<Rightarrow> 'w retry_options \<Rightarrow> (nat \<Rightarrow> 'w \<Rightarrow> ('a \<times> error option) \<times> 'w) \<Rightarrow> nat \<Rightarrow> 'w \<Rightarrow> nat \<Rightarrow> 'w \<Rightarrow> bool"
  for cw opts fn where
  here: "retried cw opts fn a w a w"
| again: "ctx_error cw w = None \<Longrightarrow> fn a w = ((v, Some e), w1) \<Longrightarrow> \<not> gives_up opts e \<Longrightarrow>
     Sleep cw (Delay opts) (on_retry opts a e w1) = (True, w2) \<Longrightarrow> retried cw opts fn (a + 1) w2 b w' \<Longrightarrow> retried cw opts fn a w b w'"

text \<open>How the run ends at attempt \<open>n\<close> in the world \<open>u\<close>.\<close>

inductive ending :: "'w clockwork \<Rightarrow> 'w retry_options \<Rightarrow> 'a \<Rightarrow> (nat \<Rightarrow> 'w \<Rightarrow> ('a \<times> error option) \<times> 'w) \<Rightarrow> nat \<Rightarrow> 'w \<Rightarrow> 'a \<Rightarrow> error option \<Rightarrow> 'w \<Rightarrow> bool"
  for cw opts zero fn n u where
  over: "ctx_error cw u = Some e \<Longrightarrow> ending cw opts zero fn n u zero (Some e) u"
| success: "ctx_error cw u = None \<Longrightarrow> fn n u = ((v, None), w') \<Longrightarrow> ending cw opts zero fn n u v None w'"
| fatal: "ctx_error cw u = None \<Longrightarrow> fn n u = ((v, Some e), w') \<Longrightarrow> gives_up opts e \<or> n = maxAttempts opts \<Longrightarrow>
     ending cw opts zero fn n u zero (Some e) w'"
| interrupted: "ctx_error cw u = None \<Longrightarrow> fn n u = ((v, Some e), w1) \<Longrightarrow> \<not> gives_up opts e \<Longrightarrow> n < maxAttempts opts \<Longrightarrow>
     Sleep cw (Delay opts) (on_retry opts n e w1) = (False, w') \<Longrightarrow> ctx_error cw w' = Some c \<Longrightarrow> ending cw opts zero fn n u zero (Some c) w'"

lemma ending_over: "Some e = ctx_error cw u \<Longrightarrow> ending cw opts zero fn n u zero (ctx_error cw u) u"
  using ending.over [of cw u e] by simp

lemma maxAttempts_pos: "1 \<le> maxAttempts opts"
  by (cases "MaxAttempts opts \<le> 0") (simp_all add: maxAttempts_def)

context context_contract
begin

lemma Sleep_ended: "Sleep cw d w = (False, w') \<Longrightarrow> \<exists>c. ctx_error cw w' = Some c"
  using done_err [of d w w'] by (auto simp: Sleep_def split: if_splits)

lemma ending_interrupted:
  assumes "ctx_error cw u = None" "fn n u = ((v, Some e), w1)" "\<not> gives_up opts e" "n < maxAttempts opts"
    and sleep: "Sleep cw (Delay opts) (on_retry opts n e w1) = (False, w')"
  shows "ending cw opts zero fn n u zero (ctx_error cw w') w'"
  using Sleep_ended [OF sleep] ending.interrupted [where fn = fn and zero = zero, OF assms] by auto

lemma Do_from_spec:
  assumes "a \<le> maxAttempts opts" "Do_from cw opts zero fn a lastErr w = ((v, r), w')"
  shows "\<exists>n u. a \<le> n \<and> n \<le> maxAttempts opts \<and> retried cw opts fn a w n u \<and> ending cw opts zero fn n u v r w'"
  using assms
proof (induction "maxAttempts opts - a" arbitrary: a lastErr w)
  case 0
  then have a: "a = maxAttempts opts"
    by simp
  have "ending cw opts zero fn a w v r w'"
    using 0(3) unfolding a Do_from.simps [of _ _ _ _ "maxAttempts opts"]
    by (cases "ctx_error cw w") (auto intro: ending.intros ending_over split: option.splits prod.splits if_splits)
  then show ?case
    using a retried.here [of cw opts fn a w] by blast
next
  case (Suc m)
  then have less: "a < maxAttempts opts"
    by simp
  note eq = Suc.prems(2) [unfolded Do_from.simps [of _ _ _ _ a]]
  show ?case
  proof (cases "\<exists>x e w1 w2. ctx_error cw w = None \<and> fn a w = ((x, Some e), w1) \<and> \<not> gives_up opts e \<and>
      Sleep cw (Delay opts) (on_retry opts a e w1) = (True, w2)")
    case True
    then obtain x e w1 w2 where step: "ctx_error cw w = None" "fn a w = ((x, Some e), w1)" "\<not> gives_up opts e"
      "Sleep cw (Delay opts) (on_retry opts a e w1) = (True, w2)"
      by blast
    have "Do_from cw opts zero fn (a + 1) (Some e) w2 = ((v, r), w')"
      using eq step less by simp
    moreover have "m = maxAttempts opts - (a + 1)" "a + 1 \<le> maxAttempts opts"
      using Suc.hyps(2) less by auto
    ultimately obtain n u where n: "a + 1 \<le> n" "n \<le> maxAttempts opts" "retried cw opts fn (a + 1) w2 n u" "ending cw opts zero fn n u v r w'"
      using Suc.hyps(1) by blast
    then show ?thesis
      using retried.again [OF step n(3)] by (intro exI [of _ n] exI [of _ u]) auto
  next
    case False
    have "ending cw opts zero fn a w v r w'"
      using eq False less
      by (cases "ctx_error cw w") (auto intro: ending.intros ending_over ending_interrupted split: option.splits prod.splits if_splits bool.splits)
    then show ?thesis
      using less retried.here [of cw opts fn a w] by (intro exI [of _ a] exI [of _ w]) auto
  qed
qed

end

section \<open>A context with a deadline\<close>

text \<open>The world of a \<^verbatim>\<open>context.WithTimeout\<close>: the time, the deadline, and the attempts observed so far.\<close>

record timed =
  td_now :: int
  td_deadline :: int
  td_seen :: "nat list"

definition with_timeout :: "timed clockwork" where
  "with_timeout = \<lparr>ctx_error = (\<lambda>w. if td_deadline w \<le> td_now w then Some (Sentinel ContextDeadlineExceeded) else None),
     await = (\<lambda>d w. if td_now w + d < td_deadline w then (True, w\<lparr>td_now := td_now w + d\<rparr>)
                    else (False, w\<lparr>td_now := max (td_now w) (td_deadline w)\<rparr>))\<rparr>"

interpretation timeout: context_contract with_timeout
  by unfold_locales (auto simp: with_timeout_def split: if_splits)

section \<open>Properties\<close>

text \<open>
  (C23) A retried call always returns, and says the truth: for every context, options and function it
  returns after at most the configured number of attempts (one, when the number is not positive),
  numbered from 1 without gaps, none of them under an ended context. It returns a nil error only with
  the value of a successful attempt; otherwise the zero value with the error of the last attempt (the
  first that is not worth retrying, or that of the last one allowed) or with the error of the context
  that ended.
\<close>

theorem retry_bounded:
  assumes "context_contract cw"
  shows "\<exists>v r w' n u. retry_Do cw opts zero fn w = ((v, r), w') \<and> 1 \<le> n \<and> n \<le> maxAttempts opts \<and>
     retried cw opts fn 1 w n u \<and> ending cw opts zero fn n u v r w'"
proof -
  obtain v r w' where run: "retry_Do cw opts zero fn w = ((v, r), w')"
    by (metis surj_pair)
  then obtain n u where "1 \<le> n" "n \<le> maxAttempts opts" "retried cw opts fn 1 w n u" "ending cw opts zero fn n u v r w'"
    using context_contract.Do_from_spec [OF assms maxAttempts_pos, of opts zero fn None w] by (auto simp: retry_Do_def)
  with run show ?thesis
    by blast
qed

definition flaky :: "nat \<Rightarrow> timed \<Rightarrow> (int \<times> error option) \<times> timed" where
  "flaky k w = ((if k < 3 then (0, Some (Msg ''not yet'')) else (42, None)), w\<lparr>td_seen := td_seen w @ [k]\<rparr>)"

definition three_times :: "timed retry_options" where
  "three_times = \<lparr>MaxAttempts = 3, Delay = 10, OnRetry = None, ShouldRetry = None\<rparr>"

theorem retry_bounded_witness:
  "\<exists>v r w' n u. retry_Do with_timeout three_times 0 flaky \<lparr>td_now = 0, td_deadline = 100, td_seen = []\<rparr> = ((v, r), w') \<and> n \<le> 3 \<and>
     ending with_timeout three_times 0 flaky n u v r w' \<and> v = 42 \<and> r = None \<and> td_seen w' = [1, 2, 3]"
proof -
  let ?w = "\<lparr>td_now = 0, td_deadline = 100, td_seen = []\<rparr>"
  have run: "retry_Do with_timeout three_times 0 flaky ?w = ((42, None), \<lparr>td_now = 20, td_deadline = 100, td_seen = [1, 2, 3]\<rparr>)"
    by (simp add: retry_Do_def Do_from.simps maxAttempts_def three_times_def with_timeout_def flaky_def gives_up_def on_retry_def Sleep_def)
  show ?thesis
    using retry_bounded [OF timeout.context_contract_axioms, of three_times 0 flaky ?w] run
    by (auto simp: maxAttempts_def three_times_def)
qed

end
