(* ===== verification/Lifecycle.thy ===== *)
theory Lifecycle
  imports Go_Errors
begin

text \<open>
  The process lifecycle: \<^verbatim>\<open>internal/app/runtime\<close>, the two applications under \<^verbatim>\<open>internal/app\<close>,
  the connection pool of \<^verbatim>\<open>internal/infra/db/postgres\<close>, the telemetry providers of
  \<^verbatim>\<open>internal/infra/observability/otel\<close>, the start and shutdown of both servers, and the
  \<^verbatim>\<open>main\<close> packages. What is acquired and released is the subject; log lines are left out.
\<close>

section \<open>Resources and library calls\<close>

text \<open>
  The calls into libraries that can fail, acquire or release something. A journal lists those made,
  in order, each with the error it returned; the environment answers the next call, depending on all
  earlier ones.
\<close>

datatype resource = TracerProvider | LoggerProvider | MeterProvider | ZapLogger | DBPool | RedisClient | HTTPServer | GRPCListener | HealthReporter

datatype lib_call = Try string | Acquire resource | Release resource

type_synonym journal = "(lib_call \<times> error option) list"
type_synonym environment = "lib_call \<Rightarrow> journal \<Rightarrow> error option"

text \<open>A call that may fail, one that cannot; a release with an error to collect, and one that returns nothing.\<close>

definition try_call :: "environment \<Rightarrow> lib_call \<Rightarrow> (journal, unit) eff" where
  "try_call env c j = (case env c j of None \<Rightarrow> (Inr (), j @ [(c, None)]) | Some e \<Rightarrow> (Inl e, j @ [(c, Some e)]))"

definition acquire :: "resource \<Rightarrow> journal \<Rightarrow> journal" where
  "acquire r j = j @ [(Acquire r, None)]"

definition release :: "environment \<Rightarrow> resource \<Rightarrow> journal \<Rightarrow> error option \<times> journal" where
  "release env r j = (env (Release r) j, j @ [(Release r, env (Release r) j)])"

definition release_silent :: "resource \<Rightarrow> journal \<Rightarrow> journal" where
  "release_silent r j = j @ [(Release r, None)]"

text \<open>A failure after which something is cleaned up: the error joined with the errors of the clean-up.\<close>

definition fail_after :: "error \<Rightarrow> (journal \<Rightarrow> error option list \<times> journal) \<Rightarrow> (journal, 'a) eff" where
  "fail_after e cleanup j = (case cleanup j of (es, j') \<Rightarrow> (Inl (the (errutil_Join (Some e) es)), j'))"

section \<open>Telemetry\<close>

definition otel_Shutdown :: "environment \<Rightarrow> journal \<Rightarrow> error option \<times> journal" where
  "otel_Shutdown env j =
     (let (e1, j1) = release env MeterProvider j; (e2, j2) = release env LoggerProvider j1; (e3, j3) = release env TracerProvider j2 in
      (errutil_Join (Step ''shutdown meter provider'' e1) [Step ''shutdown logger provider'' e2, Step ''shutdown tracer provider'' e3], j3))"

definition otel_Setup :: "environment \<Rightarrow> bool \<Rightarrow> (journal, unit) eff" where
  "otel_Setup env exportEnabled =
     attempt (try_call env (Try ''resource.New'')) (\<lambda>e j. (Inl e, j)) (\<lambda>_.
       if \<not> exportEnabled then perform (\<lambda>j. acquire MeterProvider (acquire LoggerProvider (acquire TracerProvider j))) (return ())
       else attempt (try_call env (Try ''otlptracehttp.New'')) (\<lambda>e j. (Inl e, j)) (\<lambda>_.
         perform (acquire TracerProvider)
         (attempt (try_call env (Try ''otlploghttp.New''))
           (\<lambda>e. fail_after e (\<lambda>j. let (s, j1) = release env TracerProvider j in
              ([Step ''shutdown tracer provider after log exporter init failure'' s], j1)))
           (\<lambda>_. perform (acquire LoggerProvider)
             (attempt (try_call env (Try ''otlpmetrichttp.New''))
               (\<lambda>e. fail_after e (\<lambda>j. let (s1, j1) = release env LoggerProvider j; (s2, j2) = release env TracerProvider j1 in
                  ([Step ''shutdown logger provider after metric exporter init failure'' s1,
                    Step ''shutdown tracer provider after metric exporter init failure'' s2], j2)))
               (\<lambda>_. perform (acquire MeterProvider) (return ())))))))"

text \<open>Which members of a \<^verbatim>\<open>Telemetry\<close> are not nil.\<close>

record telemetry =
  tl_Logger :: bool
  tl_Observability :: bool

definition NewTelemetry :: "environment \<Rightarrow> bool \<Rightarrow> (journal, telemetry) eff" where
  "NewTelemetry env exportEnabled =
     attempt (otel_Setup env exportEnabled) (\<lambda>e j. (Inl e, j)) (\<lambda>_.
       attempt (try_call env (Acquire ZapLogger))
         (\<lambda>e. fail_after e (\<lambda>j. let (s, j1) = otel_Shutdown env j in ([Step ''shutdown observability after logger init failure'' s], j1)))
         (\<lambda>_. return \<lparr>tl_Logger = True, tl_Observability = True\<rparr>))"

definition Telemetry_Shutdown :: "environment \<Rightarrow> telemetry option \<Rightarrow> journal \<Rightarrow> error option \<times> journal" where
  "Telemetry_Shutdown env t j = (case t of None \<Rightarrow> (None, j) | Some tm \<Rightarrow>
     let (e1, j1) = (if tl_Observability tm
           then (let (s, j') = otel_Shutdown env j in (errors_Join [None, Step ''shutdown observability'' s], j')) else (None, j));
         (e2, j2) = (if tl_Logger tm
           then (let (s, j') = release env ZapLogger j1 in (errors_Join [e1, Step ''sync logger'' s], j')) else (e1, j1))
     in (e2, j2))"

section \<open>The shared runtime\<close>

definition NewPool :: "environment \<Rightarrow> (journal, unit) eff" where
  "NewPool env =
     attempt (try_call env (Try ''pgxpool.ParseConfig'')) (\<lambda>e j. (Inl (Errorf ''parse db config'' e), j)) (\<lambda>_.
       attempt (try_call env (Acquire DBPool)) (\<lambda>e j. (Inl (Errorf ''create db pool'' e), j)) (\<lambda>_.
         attempt (try_call env (Try ''pool.Ping'')) (\<lambda>e. perform (release_silent DBPool) (\<lambda>j. (Inl (Errorf ''ping db'' e), j)))
           (\<lambda>_. return ())))"

definition ClosePool :: "bool \<Rightarrow> journal \<Rightarrow> journal" where
  "ClosePool pool j = (if pool then release_silent DBPool j else j)"

record runtime =
  rt_Telemetry :: telemetry
  rt_DBPool :: bool
  rt_RedisClient :: bool

definition runtime_New :: "environment \<Rightarrow> bool \<Rightarrow> (journal, runtime) eff" where
  "runtime_New env exportEnabled =
     attempt (NewTelemetry env exportEnabled) (\<lambda>e j. (Inl e, j)) (\<lambda>tm.
       attempt (NewPool env)
         (\<lambda>e. fail_after e (\<lambda>j. let (s, j1) = Telemetry_Shutdown env (Some tm) j in ([Step ''shutdown telemetry after db init failure'' s], j1)))
         (\<lambda>_. perform (acquire RedisClient) (return \<lparr>rt_Telemetry = tm, rt_DBPool = True, rt_RedisClient = True\<rparr>)))"

definition Runtime_Shutdown :: "environment \<Rightarrow> runtime \<Rightarrow> journal \<Rightarrow> error option \<times> journal" where
  "Runtime_Shutdown env r j =
     (let (e1, j1) = (if rt_RedisClient r then (let (s, j') = release env RedisClient j in (errors_Join [None, s], j')) else (None, j));
          j2 = ClosePool (rt_DBPool r) j1;
          (s, j3) = Telemetry_Shutdown env (Some (rt_Telemetry r)) j2
      in (errors_Join [e1, s], j3))"

text \<open>A server that cannot be built takes the runtime with it.\<close>

definition undo_runtime :: "environment \<Rightarrow> runtime \<Rightarrow> string \<Rightarrow> error \<Rightarrow> (journal, 'a) eff" where
  "undo_runtime env rt m e = fail_after e (\<lambda>j. let (s, j1) = Runtime_Shutdown env rt j in ([Step m s], j1))"

section \<open>The HTTP application\<close>

text \<open>
  \<open>load\<close> is the result of loading the configuration (whether telemetry is exported), and \<open>build\<close>
  that of building the server from it, which opens nothing: the server listens when it is started.
\<close>

definition http_Server_Shutdown :: "environment \<Rightarrow> journal \<Rightarrow> error option \<times> journal" where
  "http_Server_Shutdown env j = (let (e, j1) = release env HTTPServer j in
     (case e of None \<Rightarrow> None | Some x \<Rightarrow> if x = Sentinel HttpErrServerClosed then None else Some (Errorf ''http server shutdown'' x), j1))"

definition http_Server_Start :: "error option \<Rightarrow> error option" where
  "http_Server_Start served = (case served of None \<Rightarrow> None | Some x \<Rightarrow> if errors_Is x HttpErrServerClosed then None else Some x)"

definition httpapi_New :: "environment \<Rightarrow> error + bool \<Rightarrow> error option \<Rightarrow> (journal, runtime) eff" where
  "httpapi_New env load build = (case load of Inl e \<Rightarrow> (\<lambda>j. (Inl e, j)) | Inr exportEnabled \<Rightarrow>
     attempt (runtime_New env exportEnabled) (\<lambda>e j. (Inl e, j)) (\<lambda>rt.
       case build of
         Some e \<Rightarrow> undo_runtime env rt ''shutdown runtime after server init failure'' e
       | None \<Rightarrow> return rt))"

definition join_if :: "error option \<Rightarrow> error option \<Rightarrow> error option" where
  "join_if acc e = (case e of None \<Rightarrow> acc | Some _ \<Rightarrow> errors_Join [acc, e])"

definition httpapi_Shutdown :: "environment \<Rightarrow> runtime \<Rightarrow> journal \<Rightarrow> error option \<times> journal" where
  "httpapi_Shutdown env rt j =
     (let (e1, j1) = http_Server_Shutdown env j; (e2, j2) = Runtime_Shutdown env rt j1 in (join_if (join_if None e1) e2, j2))"

section \<open>The gRPC application\<close>

text \<open>
  Building the gRPC server opens its listener. Its shutdown races the graceful stop with the
  context: \<open>ended\<close> is the context's error when the context wins, and then the server is stopped at once.
\<close>

definition grpc_Server_Shutdown :: "error option \<Rightarrow> journal \<Rightarrow> error option \<times> journal" where
  "grpc_Server_Shutdown ended j =
     (let j1 = release_silent GRPCListener j in
      (map_option (Errorf ''gRPC server graceful shutdown'') ended, if ended = None then j1 else j1 @ [(Try ''grpcServer.Stop'', None)]))"

definition grpc_Server_Start :: "error option \<Rightarrow> error option" where
  "grpc_Server_Start served = (case served of None \<Rightarrow> None
     | Some x \<Rightarrow> if errors_Is x GrpcErrServerStopped then None else Some (Errorf ''serve gRPC'' x))"

definition grpcapi_New :: "environment \<Rightarrow> error + bool \<Rightarrow> error option \<Rightarrow> (journal, runtime) eff" where
  "grpcapi_New env load build = (case load of Inl e \<Rightarrow> (\<lambda>j. (Inl e, j)) | Inr exportEnabled \<Rightarrow>
     attempt (runtime_New env exportEnabled) (\<lambda>e j. (Inl e, j)) (\<lambda>rt.
       let undo = undo_runtime env rt ''shutdown runtime after gRPC server init failure'' in
       case build of
         Some e \<Rightarrow> undo e
       | None \<Rightarrow> attempt (try_call env (Acquire GRPCListener)) (\<lambda>e. undo (Errorf ''listen for gRPC connections'' e)) (\<lambda>_. return rt)))"

definition grpcapi_Shutdown :: "environment \<Rightarrow> error option \<Rightarrow> runtime \<Rightarrow> journal \<Rightarrow> error option \<times> journal" where
  "grpcapi_Shutdown env ended rt j =
     (let (e1, j1) = release env HealthReporter j; (e2, j2) = grpc_Server_Shutdown ended j1; (e3, j3) = Runtime_Shutdown env rt j2
      in (join_if (join_if (join_if None e1) e2) e3, j3))"

section \<open>Running to the end\<close>

text \<open>
  \<^verbatim>\<open>RunLifecycle\<close> as a step relation over its two goroutines: the main one runs \<open>Start\<close>, then cancels
  the root context and waits; the other waits for the root context, which a signal may end at any
  time, and runs \<open>Shutdown\<close>. What \<open>Start\<close> and \<open>Shutdown\<close> return is part of the step.
\<close>

datatype main_phase = Starting | Draining int | Exited int

datatype shutdown_phase = Waiting | ShuttingDown | ShutdownDone "error option"

record lifecycle =
  lc_main :: main_phase
  lc_shutdown :: shutdown_phase
  lc_root_done :: bool
  lc_start_err :: "error option"
  lc_shutdown_calls :: nat
  lc_logged :: "(string \<times> error) list"

definition RunLifecycle_init :: lifecycle where
  "RunLifecycle_init = \<lparr>lc_main = Starting, lc_shutdown = Waiting, lc_root_done = False, lc_start_err = None, lc_shutdown_calls = 0, lc_logged = []\<rparr>"

definition log_if :: "string \<Rightarrow> error option \<Rightarrow> lifecycle \<Rightarrow> lifecycle" where
  "log_if m e s = (case e of None \<Rightarrow> s | Some x \<Rightarrow> s\<lparr>lc_logged := lc_logged s @ [(m, x)]\<rparr>)"

inductive lifecycle_step :: "bool \<Rightarrow> lifecycle \<Rightarrow> lifecycle \<Rightarrow> bool" for has_shutdown where
  interrupt: "lifecycle_step has_shutdown s (s\<lparr>lc_root_done := True\<rparr>)"
| shutdown_begins: "lc_shutdown s = Waiting \<Longrightarrow> lc_root_done s \<Longrightarrow> has_shutdown \<Longrightarrow>
     lifecycle_step has_shutdown s (s\<lparr>lc_shutdown := ShuttingDown, lc_shutdown_calls := lc_shutdown_calls s + 1\<rparr>)"
| shutdown_missing: "lc_shutdown s = Waiting \<Longrightarrow> lc_root_done s \<Longrightarrow> \<not> has_shutdown \<Longrightarrow>
     lifecycle_step has_shutdown s (s\<lparr>lc_shutdown := ShutdownDone None\<rparr>)"
| shutdown_returns: "lc_shutdown s = ShuttingDown \<Longrightarrow> lifecycle_step has_shutdown s (s\<lparr>lc_shutdown := ShutdownDone e\<rparr>)"
| start_returns: "lc_main s = Starting \<Longrightarrow> lifecycle_step has_shutdown s
     (log_if ''server exited with error'' e (s\<lparr>lc_main := Draining (if e = None then 0 else 1), lc_root_done := True, lc_start_err := e\<rparr>))"
| exits: "lc_main s = Draining c \<Longrightarrow> lc_shutdown s = ShutdownDone e \<Longrightarrow> lifecycle_step has_shutdown s
     (log_if ''graceful shutdown failed'' e (s\<lparr>lc_main := Exited (if e = None then c else 1)\<rparr>))"

inductive lifecycle_run :: "bool \<Rightarrow> lifecycle \<Rightarrow> lifecycle \<Rightarrow> bool" for has_shutdown where
  refl: "lifecycle_run has_shutdown s s"
| step: "lifecycle_run has_shutdown s s' \<Longrightarrow> lifecycle_step has_shutdown s' s'' \<Longrightarrow> lifecycle_run has_shutdown s s''"

inductive_cases lifecycle_step_cases: "lifecycle_step b s s'"

text \<open>The \<^verbatim>\<open>main\<close> packages: a failed bootstrap exits with 1, otherwise the lifecycle decides.\<close>

definition main_run :: "error + 'a \<Rightarrow> ('a \<Rightarrow> int) \<Rightarrow> int" where
  "main_run boot lifecycle = (case boot of Inl _ \<Rightarrow> 1 | Inr app \<Rightarrow> lifecycle app)"

section \<open>What is held\<close>

text \<open>Successful acquisitions less releases.\<close>

fun weight :: "resource \<Rightarrow> lib_call \<times> error option \<Rightarrow> int" where
  "weight x (Acquire r, None) = (if r = x then 1 else 0)"
| "weight x (Release r, _) = (if r = x then - 1 else 0)"
| "weight x _ = 0"

definition held :: "journal \<Rightarrow> resource \<Rightarrow> int" where
  "held j x = sum_list (map (weight x) j)"

lemma held_Nil [simp]: "held [] x = 0"
  by (simp add: held_def)

lemma held_snoc [simp]: "held (j @ [c]) x = held j x + weight x c"
  by (simp add: held_def)

lemma held_steps [simp]:
  "held (acquire r j) x = held j x + (if r = x then 1 else 0)"
  "held (release_silent r j) x = held j x - (if r = x then 1 else 0)"
  "release env r j = (e, j') \<Longrightarrow> held j' x = held j x - (if r = x then 1 else 0)"
  by (auto simp: acquire_def release_silent_def release_def)

lemma try_call_held:
  assumes "try_call env c j = (r, j')"
  shows "held j' x = held j x + (if r = Inr () \<and> c = Acquire x then 1 else 0) - (if c = Release x then 1 else 0)"
  using assms by (cases c) (auto simp: try_call_def split: option.splits)

lemma fail_after_run:
  assumes "fail_after e cleanup j = (r, j')"
  obtains es where "cleanup j = (es, j')" "r = Inl (Joined (e # List.map_filter id es))"
  using assms by (cases "cleanup j") (auto simp: fail_after_def errutil_Join_def errors_Join_def List.map_filter_def)

lemma otel_Shutdown_held:
  "otel_Shutdown env j = (e, j') \<Longrightarrow> held j' x = held j x - (if x \<in> {TracerProvider, LoggerProvider, MeterProvider} then 1 else 0)"
  by (auto simp: otel_Shutdown_def release_def)

lemma otel_Setup_held:
  assumes "otel_Setup env b j = (r, j')"
  shows "held j' x = held j x + (if r = Inr () \<and> x \<in> {TracerProvider, LoggerProvider, MeterProvider} then 1 else 0)"
  using assms unfolding otel_Setup_def
  by (elim attempt_cases) (auto split: if_splits prod.splits elim!: attempt_cases fail_after_run simp: perform_def try_call_held)

lemma NewTelemetry_held:
  assumes "NewTelemetry env b j = (r, j')"
  shows "held j' x = held j x + (if \<not> isl r \<and> x \<in> {TracerProvider, LoggerProvider, MeterProvider, ZapLogger} then 1 else 0) \<and>
    (\<forall>tm. r = Inr tm \<longrightarrow> tl_Logger tm \<and> tl_Observability tm)"
  using assms unfolding NewTelemetry_def
  by (elim attempt_cases) (auto split: prod.splits elim!: attempt_cases fail_after_run simp: otel_Setup_held try_call_held otel_Shutdown_held)

lemma Telemetry_Shutdown_held:
  assumes "tl_Logger tm" "tl_Observability tm" "Telemetry_Shutdown env (Some tm) j = (e, j')"
  shows "held j' x = held j x - (if x \<in> {TracerProvider, LoggerProvider, MeterProvider, ZapLogger} then 1 else 0)"
  using assms by (auto simp: Telemetry_Shutdown_def otel_Shutdown_held Let_def split: prod.splits)

lemma NewPool_held:
  assumes "NewPool env j = (r, j')"
  shows "held j' x = held j x + (if r = Inr () \<and> x = DBPool then 1 else 0)"
  using assms unfolding NewPool_def
  by (elim attempt_cases) (auto elim!: attempt_cases simp: perform_def try_call_held)

definition runtime_resources :: "resource set" where
  "runtime_resources = {TracerProvider, LoggerProvider, MeterProvider, ZapLogger, DBPool, RedisClient}"

definition complete :: "runtime \<Rightarrow> bool" where
  "complete rt \<longleftrightarrow> tl_Logger (rt_Telemetry rt) \<and> tl_Observability (rt_Telemetry rt) \<and> rt_DBPool rt \<and> rt_RedisClient rt"

lemma runtime_New_held:
  assumes "runtime_New env b j = (r, j')"
  shows "held j' x = held j x + (if \<not> isl r \<and> x \<in> runtime_resources then 1 else 0) \<and> (\<forall>rt. r = Inr rt \<longrightarrow> complete rt)"
  using assms unfolding runtime_New_def
proof (cases rule: attempt_cases)
  case (err e w)
  then show ?thesis
    using NewTelemetry_held [OF err(1), of x] by auto
next
  case (ok tm w)
  note tele = NewTelemetry_held [OF ok(1), of x]
  from ok(2) show ?thesis
  proof (cases rule: attempt_cases)
    case (err e v)
    from err(2) obtain s where "Telemetry_Shutdown env (Some tm) v = (s, j')" "isl r"
      by (elim fail_after_run) (auto split: prod.splits)
    then show ?thesis
      using Telemetry_Shutdown_held [of tm env v s j' x] NewPool_held [OF err(1), of x] tele by auto
  next
    case (ok u v)
    then show ?thesis
      using NewPool_held [OF ok(1), of x] tele by (auto simp: perform_def runtime_resources_def complete_def)
  qed
qed

lemma Runtime_Shutdown_held:
  assumes "complete rt" "Runtime_Shutdown env rt j = (e, j')"
  shows "held j' x = held j x - (if x \<in> runtime_resources then 1 else 0)"
  using assms
  by (auto simp: Runtime_Shutdown_def complete_def ClosePool_def runtime_resources_def Telemetry_Shutdown_held Let_def split: prod.splits)

lemma undo_held:
  assumes "undo_runtime env rt m e j = (r, j')" "complete rt"
  shows "isl r" "r \<noteq> Inr y" "held j' x = held j x - (if x \<in> runtime_resources then 1 else 0)"
  using assms(1) Runtime_Shutdown_held [OF assms(2)] unfolding undo_runtime_def by (auto elim!: fail_after_run split: prod.splits)

lemma httpapi_New_held:
  assumes "httpapi_New env load build j = (r, j')"
  shows "held j' x = held j x + (if \<not> isl r \<and> x \<in> runtime_resources then 1 else 0) \<and> (\<forall>rt. r = Inr rt \<longrightarrow> complete rt)"
proof (cases load)
  case (Inr b)
  from assms [unfolded httpapi_New_def Inr, simplified] show ?thesis
  proof (cases rule: attempt_cases)
    case (err e w)
    then show ?thesis
      using runtime_New_held [OF err(1), of x] by auto
  next
    case (ok rt w)
    note rt = runtime_New_held [OF ok(1), of x]
    show ?thesis
    proof (cases build)
      case (Some e)
      then show ?thesis
        using ok(2) undo_held [of env rt _ _ _ r j'] rt by simp
    qed (use ok(2) rt in auto)
  qed
qed (use assms in \<open>auto simp: httpapi_New_def\<close>)

lemma grpcapi_New_held:
  assumes "grpcapi_New env load build j = (r, j')"
  shows "held j' x = held j x + (if \<not> isl r \<and> x \<in> insert GRPCListener runtime_resources then 1 else 0) \<and> (\<forall>rt. r = Inr rt \<longrightarrow> complete rt)"
proof (cases load)
  case (Inr b)
  from assms [unfolded grpcapi_New_def Inr, simplified] show ?thesis
  proof (cases rule: attempt_cases)
    case (err e w)
    then show ?thesis
      using runtime_New_held [OF err(1), of x] by auto
  next
    case (ok rt w)
    note rt = runtime_New_held [OF ok(1), of x]
    show ?thesis
    proof (cases build)
      case None
      from ok(2) [unfolded None, simplified] show ?thesis
      proof (cases rule: attempt_cases)
        case (err e v)
        then show ?thesis
          using undo_held [of env rt _ _ _ r j'] try_call_held [OF err(1), of x] rt by simp
      next
        case (ok u v)
        then show ?thesis
          using try_call_held [OF ok(1), of x] rt by (auto simp: runtime_resources_def)
      qed
    next
      case (Some e)
      then show ?thesis
        using ok(2) undo_held [of env rt _ _ _ r j'] rt by simp
    qed
  qed
qed (use assms in \<open>auto simp: grpcapi_New_def\<close>)

section \<open>Shutting down\<close>

definition releases :: "journal \<Rightarrow> resource list" where
  "releases j = List.map_filter (\<lambda>(c, _). case c of Release r \<Rightarrow> Some r | _ \<Rightarrow> None) j"

text \<open>What a release reports as a failure: any error, but that of an HTTP server that is already closed.\<close>

definition failed_release :: "lib_call \<times> error option \<Rightarrow> bool" where
  "failed_release c \<longleftrightarrow> (\<exists>r e. c = (Release r, Some e) \<and> \<not> (r = HTTPServer \<and> e = Sentinel HttpErrServerClosed))"

lemma errors_Join_None [simp]: "errors_Join es = None \<longleftrightarrow> list_all (\<lambda>e. e = None) es"
  by (induction es) (auto simp: errors_Join_def List.map_filter_def Let_def)

lemma None_errors_Join [simp]: "None = errors_Join es \<longleftrightarrow> list_all (\<lambda>e. e = None) es"
  using errors_Join_None [of es] by (metis (no_types))

lemma Step_None [simp]: "Step m e = None \<longleftrightarrow> e = None" "None = Step m e \<longleftrightarrow> e = None"
  by (auto simp: Step_def)

lemma join_if_None [simp]: "join_if acc e = None \<longleftrightarrow> acc = None \<and> e = None"
  by (cases e) (auto simp: join_if_def)

lemma release_run: "release env r j = (e, j') \<Longrightarrow> j' = j @ [(Release r, e)]"
  by (auto simp: release_def)

lemma releases_simps [simp]: "releases [] = []" "releases ((Release r, e) # j) = r # releases j" "releases ((Try s, e) # j) = releases j"
  "releases (j @ k) = releases j @ releases k"
  by (simp_all add: releases_def List.map_filter_def)

lemma failed_release_simps [simp]:
  "failed_release (Release r, e) \<longleftrightarrow> e \<noteq> None \<and> \<not> (r = HTTPServer \<and> e = Some (Sentinel HttpErrServerClosed))"
  "\<not> failed_release (Try s, e)"
  by (auto simp: failed_release_def)

lemma Runtime_Shutdown_journal:
  assumes "complete rt" "Runtime_Shutdown env rt j = (e, j')"
  shows "\<exists>new. j' = j @ new \<and> releases new = [RedisClient, DBPool, MeterProvider, LoggerProvider, TracerProvider, ZapLogger] \<and>
    (e = None \<longleftrightarrow> \<not> list_ex failed_release new)"
  using assms
  by (auto simp: Runtime_Shutdown_def complete_def ClosePool_def Telemetry_Shutdown_def otel_Shutdown_def release_silent_def
      errutil_Join_def Let_def split: prod.splits dest!: release_run)

lemma httpapi_Shutdown_journal:
  assumes "complete rt" "httpapi_Shutdown env rt j = (e, j')"
  shows "\<exists>new. j' = j @ new \<and> releases new = [HTTPServer, RedisClient, DBPool, MeterProvider, LoggerProvider, TracerProvider, ZapLogger] \<and>
    (e = None \<longleftrightarrow> \<not> list_ex failed_release new)"
proof -
  obtain e1 e2 j1 where run: "release env HTTPServer j = (e1, j1)" "Runtime_Shutdown env rt j1 = (e2, j')"
    "e = join_if (join_if None (case e1 of None \<Rightarrow> None | Some x \<Rightarrow> if x = Sentinel HttpErrServerClosed then None else Some (Errorf ''http server shutdown'' x))) e2"
    using assms(2) by (auto simp: httpapi_Shutdown_def http_Server_Shutdown_def split: prod.splits)
  then show ?thesis
    using Runtime_Shutdown_journal [OF assms(1) run(2)] by (auto dest!: release_run split: option.splits)
qed

lemma grpcapi_Shutdown_journal:
  assumes "complete rt" "grpcapi_Shutdown env ended rt j = (e, j')"
  shows "\<exists>new. j' = j @ new \<and> releases new = [HealthReporter, GRPCListener, RedisClient, DBPool, MeterProvider, LoggerProvider, TracerProvider, ZapLogger] \<and>
    (e = None \<longleftrightarrow> ended = None \<and> \<not> list_ex failed_release new)"
proof -
  obtain e1 e3 j1 j2 where run: "release env HealthReporter j = (e1, j1)" "Runtime_Shutdown env rt j2 = (e3, j')"
    "j2 = j1 @ (Release GRPCListener, None) # (if ended = None then [] else [(Try ''grpcServer.Stop'', None)])"
    "e = join_if (join_if (join_if None e1) (map_option (Errorf ''gRPC server graceful shutdown'') ended)) e3"
    using assms(2) by (cases ended) (auto simp: grpcapi_Shutdown_def grpc_Server_Shutdown_def release_silent_def Let_def split: prod.splits)
  then show ?thesis
    using Runtime_Shutdown_journal [OF assms(1) run(2)] by (auto dest!: release_run)
qed

section \<open>The two goroutines\<close>

text \<open>What holds in every reachable state of the lifecycle.\<close>

definition lifecycle_inv :: "bool \<Rightarrow> lifecycle \<Rightarrow> bool" where
  "lifecycle_inv has_shutdown s \<longleftrightarrow>
     lc_shutdown_calls s = (if has_shutdown \<and> lc_shutdown s \<noteq> Waiting then 1 else 0) \<and>
     (\<not> has_shutdown \<longrightarrow> lc_shutdown s \<in> {Waiting, ShutdownDone None}) \<and>
     (case lc_main s of
        Starting \<Rightarrow> lc_start_err s = None \<and> lc_logged s = []
      | Draining c \<Rightarrow> lc_root_done s \<and> c = (if lc_start_err s = None then 0 else 1) \<and>
          lc_logged s = (case lc_start_err s of None \<Rightarrow> [] | Some x \<Rightarrow> [(''server exited with error'', x)])
      | Exited c \<Rightarrow> (\<exists>e. lc_shutdown s = ShutdownDone e \<and> (c = 0 \<longleftrightarrow> lc_start_err s = None \<and> e = None) \<and> c \<in> {0, 1} \<and>
          lc_logged s = (case lc_start_err s of None \<Rightarrow> [] | Some x \<Rightarrow> [(''server exited with error'', x)]) @
            (case e of None \<Rightarrow> [] | Some x \<Rightarrow> [(''graceful shutdown failed'', x)])))"

lemma lifecycle_inv_init: "lifecycle_inv b RunLifecycle_init"
  by (simp add: lifecycle_inv_def RunLifecycle_init_def)

lemma lifecycle_inv_step: "lifecycle_step b s s' \<Longrightarrow> lifecycle_inv b s \<Longrightarrow> lifecycle_inv b s'"
  by (elim lifecycle_step_cases) (auto simp: lifecycle_inv_def log_if_def split: option.splits main_phase.splits)

lemma lifecycle_inv_run: "lifecycle_run b s s' \<Longrightarrow> lifecycle_inv b s \<Longrightarrow> lifecycle_inv b s'"
  by (induction rule: lifecycle_run.induct) (auto intro: lifecycle_inv_step)

section \<open>Properties\<close>

text \<open>
  (C24) The HTTP application leaks nothing: wherever its construction fails, everything acquired so far
  has been released; when it succeeds it holds its six resources once each, and shutting it down, in
  whatever environment and whichever of the releases fail, stops the server and then releases each of
  the six exactly once, the logger last. The shutdown reports an error exactly when a release failed
  (an HTTP server that is already closed is no failure).
\<close>

theorem http_resources_released:
  "case httpapi_New env load build [] of
     (Inl e, j) \<Rightarrow> (\<forall>x. held j x = 0)
   | (Inr rt, j) \<Rightarrow> (\<forall>x. held j x = (if x \<in> runtime_resources then 1 else 0)) \<and>
       (case httpapi_Shutdown env' rt j of (e, j') \<Rightarrow>
          \<exists>new. j' = j @ new \<and> releases new = [HTTPServer, RedisClient, DBPool, MeterProvider, LoggerProvider, TracerProvider, ZapLogger] \<and>
            (e = None \<longleftrightarrow> \<not> list_ex failed_release new))"
proof -
  obtain r j where run: "httpapi_New env load build [] = (r, j)"
    by (cases "httpapi_New env load build []")
  note h = httpapi_New_held [OF run]
  show ?thesis
  proof (cases r)
    case (Inr rt)
    obtain e j' where shut: "httpapi_Shutdown env' rt j = (e, j')"
      by (cases "httpapi_Shutdown env' rt j")
    then show ?thesis
      using run h Inr httpapi_Shutdown_journal [OF _ shut] by simp
  qed (use run h in simp)
qed

text \<open>
  The same of the gRPC application, which also holds its listener, and stops the health reporter
  first and the server next; its shutdown also reports that the graceful stop had to be cut short.
\<close>

theorem grpc_resources_released:
  "case grpcapi_New env load build [] of
     (Inl e, j) \<Rightarrow> (\<forall>x. held j x = 0)
   | (Inr rt, j) \<Rightarrow> (\<forall>x. held j x = (if x \<in> insert GRPCListener runtime_resources then 1 else 0)) \<and>
       (case grpcapi_Shutdown env' ended rt j of (e, j') \<Rightarrow>
          \<exists>new. j' = j @ new \<and>
            releases new = [HealthReporter, GRPCListener, RedisClient, DBPool, MeterProvider, LoggerProvider, TracerProvider, ZapLogger] \<and>
            (e = None \<longleftrightarrow> ended = None \<and> \<not> list_ex failed_release new))"
proof -
  obtain r j where run: "grpcapi_New env load build [] = (r, j)"
    by (cases "grpcapi_New env load build []")
  note h = grpcapi_New_held [OF run]
  show ?thesis
  proof (cases r)
    case (Inr rt)
    obtain e j' where shut: "grpcapi_Shutdown env' ended rt j = (e, j')"
      by (cases "grpcapi_Shutdown env' ended rt j")
    then show ?thesis
      using run h Inr grpcapi_Shutdown_journal [OF _ shut] by simp
  qed (use run h in simp)
qed

text \<open>
  (C25) The exit code tells the truth: however the signal, the server and the shutdown are interleaved,
  the process exits only after the shutdown, called exactly once, has returned; it exits with 0 exactly
  when neither the server nor the shutdown failed and with 1 otherwise, and has then logged exactly
  the errors that occurred.
\<close>

theorem lifecycle_exit:
  assumes "lifecycle_run has_shutdown RunLifecycle_init s" "lc_main s = Exited c"
  shows "\<exists>e. lc_shutdown s = ShutdownDone e \<and> lc_shutdown_calls s = (if has_shutdown then 1 else 0) \<and>
    c = (if lc_start_err s = None \<and> e = None then 0 else 1) \<and>
    lc_logged s = (case lc_start_err s of None \<Rightarrow> [] | Some x \<Rightarrow> [(''server exited with error'', x)]) @
      (case e of None \<Rightarrow> [] | Some x \<Rightarrow> [(''graceful shutdown failed'', x)])"
  using lifecycle_inv_run [OF assms(1) lifecycle_inv_init] assms(2) by (auto simp: lifecycle_inv_def)

theorem lifecycle_exit_witness:
  "\<exists>s. lifecycle_run True RunLifecycle_init s \<and> lc_main s = Exited 1 \<and> lc_shutdown_calls s = 1"
proof -
  let ?s0 = "RunLifecycle_init\<lparr>lc_root_done := True\<rparr>"
  let ?s1 = "?s0\<lparr>lc_shutdown := ShuttingDown, lc_shutdown_calls := lc_shutdown_calls ?s0 + 1\<rparr>"
  let ?s2 = "log_if ''server exited with error'' None (?s1\<lparr>lc_main := Draining (if None = (None :: error option) then 0 else 1), lc_root_done := True, lc_start_err := None\<rparr>)"
  let ?s3 = "?s2\<lparr>lc_shutdown := ShutdownDone (Some (Msg ''late''))\<rparr>"
  let ?s4 = "log_if ''graceful shutdown failed'' (Some (Msg ''late'')) (?s3\<lparr>lc_main := Exited (if Some (Msg ''late'') = None then 0 else 1)\<rparr>)"
  have s0: "lifecycle_step True RunLifecycle_init ?s0"
    by (rule lifecycle_step.interrupt)
  have s1: "lifecycle_step True ?s0 ?s1"
    by (rule lifecycle_step.shutdown_begins) (simp_all add: RunLifecycle_init_def)
  have s2: "lifecycle_step True ?s1 ?s2"
    by (rule lifecycle_step.start_returns) (simp add: RunLifecycle_init_def)
  have s3: "lifecycle_step True ?s2 ?s3"
    by (rule lifecycle_step.shutdown_returns) (simp add: RunLifecycle_init_def log_if_def)
  have s4: "lifecycle_step True ?s3 ?s4"
    by (rule lifecycle_step.exits) (simp_all add: RunLifecycle_init_def log_if_def)
  note run = lifecycle_run.step [OF lifecycle_run.step [OF lifecycle_run.step [OF lifecycle_run.step [OF
        lifecycle_run.step [OF lifecycle_run.refl s0] s1] s2] s3] s4]
  have exit: "lc_main ?s4 = Exited 1"
    by (simp add: log_if_def)
  show ?thesis
    using lifecycle_exit [OF run exit] run exit by auto
qed

end
