(* ===== verification/Auth_Session.thy ===== *)
theory Auth_Session
  imports Kv_Stores
begin

text \<open>
  \<^verbatim>\<open>internal/usecase/auth\<close>: identities, sessions and tokens, and the server-side session manager of
  \<^verbatim>\<open>session_usecase.go\<close>. The usecases are written over any world; what they use of the runtime (clock,
  random source, SHA-256) is the record \<open>host\<close>, what they use of the storage the repository records.
\<close>

section \<open>Types and tokens\<close>

abbreviation MethodOTP :: string where "MethodOTP \<equiv> ''otp''"
abbreviation MethodOAuth :: string where "MethodOAuth \<equiv> ''oauth''"

record auth_identity =
  ai_UserID :: int
  ai_Email :: string
  ai_Method :: string

record auth_session =
  as_Token :: string
  as_UserID :: int
  as_Email :: string
  as_Method :: string
  as_ExpiresAt :: int

record 'w host =
  Now :: "'w \<Rightarrow> int"
  Read_random :: "nat \<Rightarrow> ('w, nat list) eff"
  Rand_Int :: "nat \<Rightarrow> ('w, nat) eff"
  Sum256 :: "string \<Rightarrow> nat list"

definition GenerateToken :: "'w host \<Rightarrow> nat \<Rightarrow> ('w, string) eff" where
  "GenerateToken h bytes =
     attempt (Read_random h bytes) (\<lambda>e. fail (Errorf ''crypto/rand'' e)) (\<lambda>b. return (EncodeToString b))"

section \<open>The session manager\<close>

record 'w session_manager =
  sm_log :: "'w sink"
  sm_tracer :: "'w sink"
  sm_meter :: "'w sink"
  sm_repo :: "'w session_repo"
  sm_ttl :: duration

definition NewServerSessionManager :: "'w sink option \<Rightarrow> 'w sink option \<Rightarrow> 'w sink option \<Rightarrow> 'w session_repo \<Rightarrow> duration \<Rightarrow> 'w session_manager" where
  "NewServerSessionManager tr lg mt repo ttl =
     \<lparr>sm_log = or_noop lg, sm_tracer = or_noop tr, sm_meter = or_noop mt, sm_repo = repo, sm_ttl = ttl\<rparr>"

definition session_Create :: "'w host \<Rightarrow> 'w session_manager \<Rightarrow> auth_identity \<Rightarrow> ('w, auth_session) eff" where
  "session_Create h m identity =
     with_span (sm_tracer m) ''usecase'' ''session_manager.create'' None (\<lambda>_ w. w)
       (attempt (GenerateToken h 32) (\<lambda>e. fail (Wrap e CodeInternal ''generate session token'' []))
          (\<lambda>token w.
             let expiresAt = Now h w + sm_ttl m;
                 data = \<lparr>sd_Token = token, sd_UserID = ai_UserID identity, sd_Email = ai_Email identity,
                         sd_Method = ai_Method identity, sd_ExpiresAt = expiresAt\<rparr>
             in attempt (sess_Create (sm_repo m) data (sm_ttl m)) (\<lambda>e. fail (Wrap e CodeInternal ''store session'' []))
                  (\<lambda>_. perform (sm_meter m (CounterAdd ''auth_session_create_total'' 1
                                  (FromPairs [AString ''auth.method'', AString (ai_Method identity)])))
                         (return \<lparr>as_Token = token, as_UserID = ai_UserID identity, as_Email = ai_Email identity,
                                  as_Method = ai_Method identity, as_ExpiresAt = expiresAt\<rparr>)) w))"

text \<open>\<open>errv\<close> is the value an error takes in a field map.\<close>

definition session_Validate :: "'w host \<Rightarrow> 'w session_manager \<Rightarrow> (error \<Rightarrow> any) \<Rightarrow> string \<Rightarrow> ('w, auth_session) eff" where
  "session_Validate h m errv token =
     with_span (sm_tracer m) ''usecase'' ''session_manager.validate'' None (\<lambda>_ w. w)
       (if token = [] then fail (New CodeUnauthorized ''missing session token'' [])
        else attempt (sess_GetByToken (sm_repo m) token)
          (\<lambda>e. if errors_Is e ErrSessionNotFound then fail (Wrap e CodeUnauthorized ''invalid or expired session'' [])
                else fail (Wrap e CodeUnavailable ''session store unavailable'' []))
          (\<lambda>data w.
             if sd_ExpiresAt data < Now h w then
               attempt (sess_Delete (sm_repo m) token)
                 (\<lambda>de. perform (Warn (sm_log m) ''session repository cleanup failed; expired session rejected''
                                  (FromPairs [AString ''error'', errv de]))
                          (fail (New CodeUnauthorized ''session expired'' [])))
                 (\<lambda>_. fail (New CodeUnauthorized ''session expired'' [])) w
             else return \<lparr>as_Token = sd_Token data, as_UserID = sd_UserID data, as_Email = sd_Email data,
                          as_Method = sd_Method data, as_ExpiresAt = sd_ExpiresAt data\<rparr> w))"

definition session_Revoke :: "'w session_manager \<Rightarrow> string \<Rightarrow> ('w, unit) eff" where
  "session_Revoke m token =
     with_span (sm_tracer m) ''usecase'' ''session_manager.revoke'' None (\<lambda>_ w. w)
       (attempt (sess_Delete (sm_repo m) token) (\<lambda>e. fail (Wrap e CodeInternal ''revoke session'' [])) return)"

section \<open>What the manager guarantees\<close>

text \<open>
  The manager over any session repository: telemetry leaves the sessions alone, the random source
  does not touch them, and the clock does not run backwards.
\<close>

locale session_management = session_repository repo sessions storable stored
  for repo :: "'w session_repo" and sessions storable stored +
  fixes h :: "'w host" and m :: "'w session_manager" and errv :: "error \<Rightarrow> any"
  assumes repo: "sm_repo m = repo"
    and sink_sessions: "sk \<in> {sm_log m, sm_tracer m, sm_meter m} \<Longrightarrow> sessions (sk ev w) = sessions w"
    and random_sessions: "Read_random h n w = (r, w') \<Longrightarrow> sessions w' = sessions w"
    and now_sink: "sk \<in> {sm_log m, sm_tracer m, sm_meter m} \<Longrightarrow> Now h (sk ev w) = Now h w"
    and now_Get: "sess_GetByToken repo t w = (q, w') \<Longrightarrow> Now h w \<le> Now h w'"
begin

lemma sink_simps [simp]:
  "sessions (sm_log m ev w) = sessions w" "sessions (sm_tracer m ev w) = sessions w" "sessions (sm_meter m ev w) = sessions w"
  "Now h (sm_log m ev w) = Now h w" "Now h (sm_tracer m ev w) = Now h w" "Now h (sm_meter m ev w) = Now h w"
  using sink_sessions now_sink by simp_all

lemma GenerateToken_sessions: "GenerateToken h n w = (r, w') \<Longrightarrow> sessions w' = sessions w"
  by (auto simp: GenerateToken_def elim!: attempt_cases dest: random_sessions)

lemma Validate_cases:
  assumes "session_Validate h m errv token w = (r, w')"
  obtains (valid) d where "r = Inr \<lparr>as_Token = token, as_UserID = sd_UserID d, as_Email = sd_Email d,
                               as_Method = sd_Method d, as_ExpiresAt = sd_ExpiresAt d\<rparr>"
        "sessions w token = Some d" "sd_Token d = token" "Now h w \<le> sd_ExpiresAt d" "sessions w' = sessions w" "token \<noteq> []"
    | (missing) x where "r = Inl (New CodeUnauthorized ''missing session token'' [])" "token = []" "sessions w' = sessions w"
    | (absent) x where "r = Inl (Wrap x CodeUnauthorized ''invalid or expired session'' [])" "errors_Is x ErrSessionNotFound"
        "sessions w token = None" "sessions w' = sessions w"
    | (unavailable) x where "r = Inl (Wrap x CodeUnavailable ''session store unavailable'' [])" "\<not> errors_Is x ErrSessionNotFound"
        "sessions w' = sessions w"
    | (expired) d where "r = Inl (New CodeUnauthorized ''session expired'' [])" "sessions w token = Some d"
        "sessions w' = sessions w \<or> sessions w' = (sessions w)(token := None)"
        "\<exists>q v w2. sess_GetByToken repo token v = (q, w2) \<and> Now h v = Now h w \<and> sd_ExpiresAt d < Now h w2"
proof -
  define w0 where "w0 = sm_tracer m (SpanStart SpanInternal ''usecase'' ''session_manager.validate'' None) w"
  have w0: "sessions w0 = sessions w" "Now h w0 = Now h w"
    by (simp_all add: w0_def)
  obtain w1 where w': "sessions w' = sessions w1" and body:
    "(if token = [] then fail (New CodeUnauthorized ''missing session token'' [])
      else attempt (sess_GetByToken repo token)
          (\<lambda>e. if errors_Is e ErrSessionNotFound then fail (Wrap e CodeUnauthorized ''invalid or expired session'' [])
                else fail (Wrap e CodeUnavailable ''session store unavailable'' []))
          (\<lambda>data w.
             if sd_ExpiresAt data < Now h w then
               attempt (sess_Delete repo token)
                 (\<lambda>de. perform (Warn (sm_log m) ''session repository cleanup failed; expired session rejected''
                                  (FromPairs [AString ''error'', errv de]))
                          (fail (New CodeUnauthorized ''session expired'' [])))
                 (\<lambda>_. fail (New CodeUnauthorized ''session expired'' [])) w
             else return \<lparr>as_Token = sd_Token data, as_UserID = sd_UserID data, as_Email = sd_Email data,
                          as_Method = sd_Method data, as_ExpiresAt = sd_ExpiresAt data\<rparr> w)) w0 = (r, w1)"
    using assms unfolding session_Validate_def with_span_eq repo w0_def [symmetric] by auto
  show thesis
  proof (cases "token = []")
    case True
    then show thesis
      using body missing w' w0 by auto
  next
    case False
    then have "attempt (sess_GetByToken repo token)
          (\<lambda>e. if errors_Is e ErrSessionNotFound then fail (Wrap e CodeUnauthorized ''invalid or expired session'' [])
                else fail (Wrap e CodeUnavailable ''session store unavailable'' []))
          (\<lambda>data w.
             if sd_ExpiresAt data < Now h w then
               attempt (sess_Delete repo token)
                 (\<lambda>de. perform (Warn (sm_log m) ''session repository cleanup failed; expired session rejected''
                                  (FromPairs [AString ''error'', errv de]))
                          (fail (New CodeUnauthorized ''session expired'' [])))
                 (\<lambda>_. fail (New CodeUnauthorized ''session expired'' [])) w
             else return \<lparr>as_Token = sd_Token data, as_UserID = sd_UserID data, as_Email = sd_Email data,
                          as_Method = sd_Method data, as_ExpiresAt = sd_ExpiresAt data\<rparr> w) w0 = (r, w1)"
      using body by simp
    then show thesis
    proof (cases rule: attempt_cases)
      case (err e w2)
      then show thesis
        using absent [of e] unavailable [of e] Get_absent [OF err(1)] Get_frame [OF err(1)] w' w0
        by (auto split: if_splits)
    next
      case (ok d w2)
      have d: "sessions w token = Some d" "sd_Token d = token" "sessions w2 = sessions w" "Now h w \<le> Now h w2"
        using Get_ok [OF ok(1)] Get_frame [OF ok(1)] now_Get [OF ok(1)] w0 by simp_all
      show thesis
      proof (cases "sd_ExpiresAt d < Now h w2")
        case False
        then show thesis
          using ok(2) d w' \<open>token \<noteq> []\<close> by (intro valid [of d]) auto
      next
        case True
        with ok(1) w0 have late: "\<exists>q v w2. sess_GetByToken repo token v = (q, w2) \<and> Now h v = Now h w \<and> sd_ExpiresAt d < Now h w2"
          by blast
        from True have "attempt (sess_Delete repo token)
                 (\<lambda>de. perform (Warn (sm_log m) ''session repository cleanup failed; expired session rejected''
                                  (FromPairs [AString ''error'', errv de]))
                          (fail (New CodeUnauthorized ''session expired'' [])))
                 (\<lambda>_. fail (New CodeUnauthorized ''session expired'' [])) w2 = (r, w1)"
          using ok(2) by simp
        then show thesis
        proof (cases rule: attempt_cases)
          case (err x w3)
          then have "r = Inl (New CodeUnauthorized ''session expired'' [])" "sessions w1 = sessions w3"
            by (auto simp: Warn_def)
          then show thesis
            using expired [of d] Delete_err [OF err(1)] d w' late by simp
        next
          case (ok u w3)
          then show thesis
            using expired [of d] Delete_ok [OF ok(1)] d w' late by auto
        qed
      qed
    qed
  qed
qed

lemma Revoke_cases:
  assumes "session_Revoke m token w = (r, w')"
  obtains (ok) "r = Inr ()" "sessions w' = (sessions w)(token := None)"
    | (failed) x where "r = Inl (Wrap x CodeInternal ''revoke session'' [])" "sessions w' = sessions w \<or> sessions w' = (sessions w)(token := None)"
proof -
  define w0 where "w0 = sm_tracer m (SpanStart SpanInternal ''usecase'' ''session_manager.revoke'' None) w"
  obtain w1 where w': "sessions w' = sessions w1"
    and body: "attempt (sess_Delete repo token) (\<lambda>e. fail (Wrap e CodeInternal ''revoke session'' [])) return w0 = (r, w1)"
    using assms unfolding session_Revoke_def with_span_eq repo w0_def [symmetric] by auto
  have w0: "sessions w0 = sessions w"
    by (simp add: w0_def)
  from body show thesis
  proof (cases rule: attempt_cases)
    case (err e w2)
    then show thesis
      using failed [of e] Delete_err [OF err(1)] w' w0 by auto
  next
    case (ok u w2)
    then show thesis
      using that(1) Delete_ok [OF ok(1)] w' w0 by auto
  qed
qed

lemma Create_cases:
  assumes "session_Create h m ident w = (r, w')"
  obtains (ok) s d where "r = Inr s" "sessions w' = (sessions w)(as_Token s := stored d)"
        "d = \<lparr>sd_Token = as_Token s, sd_UserID = ai_UserID ident, sd_Email = ai_Email ident, sd_Method = ai_Method ident, sd_ExpiresAt = as_ExpiresAt s\<rparr>"
        "as_UserID s = ai_UserID ident" "as_Email s = ai_Email ident" "as_Method s = ai_Method ident"
    | (failed) x where "r = Inl x" "As x \<noteq> None" "sessions w' = sessions w"
    | (unknown) x d where "r = Inl x" "As x \<noteq> None" "sessions w' = (sessions w)(sd_Token d := stored d)"
        "sd_UserID d = ai_UserID ident" "sd_Email d = ai_Email ident" "sd_Method d = ai_Method ident"
proof -
  define w0 where "w0 = sm_tracer m (SpanStart SpanInternal ''usecase'' ''session_manager.create'' None) w"
  define data where "data token w = \<lparr>sd_Token = token, sd_UserID = ai_UserID ident, sd_Email = ai_Email ident,
                         sd_Method = ai_Method ident, sd_ExpiresAt = Now h w + sm_ttl m\<rparr>" for token w
  obtain w1 where w': "sessions w' = sessions w1" and body:
    "attempt (GenerateToken h 32) (\<lambda>e. fail (Wrap e CodeInternal ''generate session token'' []))
       (\<lambda>token w. attempt (sess_Create repo (data token w) (sm_ttl m)) (\<lambda>e. fail (Wrap e CodeInternal ''store session'' []))
          (\<lambda>_. perform (sm_meter m (CounterAdd ''auth_session_create_total'' 1
                                  (FromPairs [AString ''auth.method'', AString (ai_Method ident)])))
             (return \<lparr>as_Token = token, as_UserID = ai_UserID ident, as_Email = ai_Email ident,
                      as_Method = ai_Method ident, as_ExpiresAt = Now h w + sm_ttl m\<rparr>)) w) w0 = (r, w1)"
    using assms unfolding session_Create_def with_span_eq repo w0_def [symmetric] Let_def data_def by auto
  have w0: "sessions w0 = sessions w"
    by (simp add: w0_def)
  from body show thesis
  proof (cases rule: attempt_cases)
    case (err e w2)
    then show thesis
      using failed [of "Wrap e CodeInternal ''generate session token'' []"] GenerateToken_sessions [OF err(1)] w' w0 by auto
  next
    case (ok token w2)
    have w2: "sessions w2 = sessions w"
      using GenerateToken_sessions [OF ok(1)] w0 by simp
    from ok(2) show thesis
    proof (cases rule: attempt_cases)
      case (err e w3)
      then have "r = Inl (Wrap e CodeInternal ''store session'' [])" "w1 = w3"
        by auto
      then show thesis
        using Create_err [OF err(1)] w2 w' failed unknown [of "Wrap e CodeInternal ''store session'' []" "data token w2"]
        by (auto simp: data_def)
    next
      case (ok u w3)
      let ?s = "\<lparr>as_Token = token, as_UserID = ai_UserID ident, as_Email = ai_Email ident,
                      as_Method = ai_Method ident, as_ExpiresAt = Now h w2 + sm_ttl m\<rparr>"
      have "r = Inr ?s" "sessions w1 = sessions w3"
        using ok(2) by auto
      then show thesis
        using that(1) [of ?s "data token w2"] Create_ok [OF ok(1)] w2 w' by (simp add: data_def)
    qed
  qed
qed

end

section \<open>Histories\<close>

text \<open>
  Calls on the session manager, and time passing, in any order. A call's result is ignored here; what
  a validation at the end accepts is the question.
\<close>

datatype session_op = Op_Create auth_identity | Op_Validate string | Op_Revoke string | Op_Wait nat

fun session_step :: "'w host \<Rightarrow> 'w session_manager \<Rightarrow> (error \<Rightarrow> any) \<Rightarrow> (nat \<Rightarrow> 'w \<Rightarrow> 'w) \<Rightarrow> session_op \<Rightarrow> 'w \<Rightarrow> 'w" where
  "session_step h m errv wait (Op_Create i) w = snd (session_Create h m i w)"
| "session_step h m errv wait (Op_Validate t) w = snd (session_Validate h m errv t w)"
| "session_step h m errv wait (Op_Revoke t) w = snd (session_Revoke m t w)"
| "session_step h m errv wait (Op_Wait d) w = wait d w"

definition session_of :: "auth_session \<Rightarrow> auth_identity" where
  "session_of s = \<lparr>ai_UserID = as_UserID s, ai_Email = as_Email s, ai_Method = as_Method s\<rparr>"

definition identity_of :: "session_data \<Rightarrow> auth_identity" where
  "identity_of d = \<lparr>ai_UserID = sd_UserID d, ai_Email = sd_Email d, ai_Method = sd_Method d\<rparr>"

definition ascii_identity :: "auth_identity \<Rightarrow> bool" where
  "ascii_identity i \<longleftrightarrow> ascii (ai_Email i) \<and> ascii (ai_Method i)"

context session_management
begin

lemma Create_backed:
  assumes "session_Create h m ident w = (r, w')" "ascii_identity ident" "sessions w' t = Some d"
  shows "sessions w t = Some d \<or> identity_of d = ident"
  using assms(1)
proof (cases rule: Create_cases)
  case (ok s data)
  then show ?thesis
    using assms(2,3) stored_same [of data] by (auto simp: identity_of_def ascii_identity_def split: if_splits)
next
  case (unknown x data)
  then show ?thesis
    using assms(2,3) stored_same [of data] by (auto simp: identity_of_def ascii_identity_def split: if_splits)
qed (use assms(3) in simp)

lemma step_backed:
  assumes "\<And>d w. sessions (wait d w) \<subseteq>\<^sub>m sessions w" "\<And>i. op = Op_Create i \<Longrightarrow> ascii_identity i"
    and "sessions (session_step h m errv wait op w) t = Some d"
  shows "sessions w t = Some d \<or> op = Op_Create (identity_of d)"
proof (cases op)
  case (Op_Create i)
  then show ?thesis
    using Create_backed [of i w "fst (session_Create h m i w)" "snd (session_Create h m i w)" t d] assms(2,3) by auto
next
  case (Op_Validate t')
  have "sessions (snd (session_Validate h m errv t' w)) = sessions w \<or>
      sessions (snd (session_Validate h m errv t' w)) = (sessions w)(t' := None)"
    by (cases rule: Validate_cases [of t' w "fst (session_Validate h m errv t' w)" "snd (session_Validate h m errv t' w)"]) simp_all
  then show ?thesis
    using Op_Validate assms(3) by (auto split: if_splits)
next
  case (Op_Revoke t')
  have "sessions (snd (session_Revoke m t' w)) = sessions w \<or> sessions (snd (session_Revoke m t' w)) = (sessions w)(t' := None)"
    by (cases rule: Revoke_cases [of t' w "fst (session_Revoke m t' w)" "snd (session_Revoke m t' w)"]) simp_all
  then show ?thesis
    using Op_Revoke assms(3) by (auto split: if_splits)
next
  case (Op_Wait n)
  then show ?thesis
    using assms(1) [of n w] assms(3) by (auto simp: map_le_def dom_def)
qed

lemma run_backed:
  assumes "\<And>d w. sessions (wait d w) \<subseteq>\<^sub>m sessions w" "\<And>i. Op_Create i \<in> set ops \<Longrightarrow> ascii_identity i"
    and "sessions (fold (session_step h m errv wait) ops w) t = Some d"
  shows "sessions w t = Some d \<or> Op_Create (identity_of d) \<in> set ops"
  using assms(2,3)
proof (induction ops arbitrary: w)
  case (Cons op ops)
  then have "sessions (session_step h m errv wait op w) t = Some d \<or> Op_Create (identity_of d) \<in> set ops"
    by simp
  then show ?case
    using step_backed [where wait = wait and op = op and w = w and t = t and d = d] assms(1) Cons.prems(1) by auto
qed simp

text \<open>A session that a validation accepts belongs to an identity a session was created for, and has not expired.\<close>

lemma Validate_backed:
  assumes "\<And>d w. sessions (wait d w) \<subseteq>\<^sub>m sessions w" "\<And>i. Op_Create i \<in> set ops \<Longrightarrow> ascii_identity i" "\<And>t. sessions w t = None"
    and "session_Validate h m errv token (fold (session_step h m errv wait) ops w) = (Inr s, w')"
  shows "Op_Create (session_of s) \<in> set ops \<and> as_Token s = token \<and> Now h (fold (session_step h m errv wait) ops w) \<le> as_ExpiresAt s"
  using assms(4)
proof (cases rule: Validate_cases)
  case (valid d)
  have "Op_Create (identity_of d) \<in> set ops"
    using run_backed [OF assms(1,2) valid(2)] assms(3) [of token] by simp
  then show ?thesis
    using valid by (simp add: session_of_def identity_of_def)
qed simp_all

text \<open>After a revocation a token stays refused while no creation brings it back.\<close>

lemma Revoked_stays:
  assumes "\<And>d w. sessions (wait d w) \<subseteq>\<^sub>m sessions w" "session_Revoke m token w = (Inr u, w1)"
    and "\<And>i. Op_Create i \<notin> set ops"
  shows "sessions (fold (session_step h m errv wait) ops w1) token = None"
proof -
  have "sessions w1 token = None"
    using assms(2) by (cases rule: Revoke_cases) simp_all
  then show ?thesis
    using run_backed [where wait = wait and ops = ops and w = w1 and t = token] assms(1,3)
    by (cases "sessions (fold (session_step h m errv wait) ops w1) token") auto
qed

end

section \<open>The wired manager\<close>

definition world_host :: "(string \<Rightarrow> nat list) \<Rightarrow> 's world host" where
  "world_host sha = \<lparr>Now = wall, Read_random = rand_Read, Rand_Int = rand_Int, Sum256 = sha\<rparr>"

definition wired_sessions :: "'s redis \<Rightarrow> 's world sink \<Rightarrow> 's world sink \<Rightarrow> 's world sink \<Rightarrow> duration \<Rightarrow> 's world session_manager" where
  "wired_sessions R tr lg mt ttl = NewServerSessionManager (Some tr) (Some lg) (Some mt) (SessionStore R) ttl"

lemma rand_Read_frame: "rand_Read n w = (r, w') \<Longrightarrow> kv w' = kv w \<and> net w' = net w \<and> db w' = db w \<and> wall w' = wall w"
  by (auto simp: rand_Read_def split: list.splits)

lemma wired_sessions_simps [simp]:
  "sm_log (wired_sessions R tr lg mt ttl) = lg" "sm_tracer (wired_sessions R tr lg mt ttl) = tr"
  "sm_meter (wired_sessions R tr lg mt ttl) = mt" "sm_repo (wired_sessions R tr lg mt ttl) = SessionStore R"
  "sm_ttl (wired_sessions R tr lg mt ttl) = ttl"
  by (simp_all add: wired_sessions_def NewServerSessionManager_def or_noop_def)

lemma world_host_simps [simp]:
  "Now (world_host sha) = wall" "Read_random (world_host sha) = rand_Read" "Rand_Int (world_host sha) = rand_Int"
  "Sum256 (world_host sha) = sha"
  by (simp_all add: world_host_def)

lemma GetByToken_wall: "SessionStore_GetByToken R t w = (q, w') \<Longrightarrow> wall w' = wall w"
  by (auto simp: SessionStore_GetByToken_def redis_Get_def dest: redis_call_others elim!: attempt_cases split: if_splits sum.splits)

locale wired_session_manager = redis_spec R view clock tick
  for R :: "'s redis" and view clock tick +
  fixes tr lg mt :: "'s world sink" and ttl :: duration and sha :: "string \<Rightarrow> nat list" and errv :: "error \<Rightarrow> any"
  assumes quiet: "quiet tr" "quiet lg" "quiet mt"
begin

lemma wait_sessions: "session_view view (advance tick (int d) w) \<subseteq>\<^sub>m session_view view w"
proof -
  note string_at_advance [of d w]
  then have "session_view view (advance tick (int d) w) t = None \<or> session_view view (advance tick (int d) w) t = session_view view w t" for t
    unfolding session_view_def by (metis option.simps(4))
  then show ?thesis
    unfolding map_le_def dom_def by (metis (mono_tags, lifting) mem_Collect_eq)
qed

end

sublocale wired_session_manager \<subseteq> sessions: session_management "SessionStore R" "session_view view" storable_session stored_session
    "world_host sha" "wired_sessions R tr lg mt ttl" errv
proof unfold_locales
  fix sk ev w w' n r t q
  show "sm_repo (wired_sessions R tr lg mt ttl) = SessionStore R"
    by simp
  assume "sk \<in> {sm_log (wired_sessions R tr lg mt ttl), sm_tracer (wired_sessions R tr lg mt ttl), sm_meter (wired_sessions R tr lg mt ttl)}"
  then have sk: "quiet sk"
    using quiet by auto
  show "session_view view (sk ev w) = session_view view w"
    using quiet_apply(1) [OF sk] by (rule session_view_kv)
  show "Now (world_host sha) (sk ev w) = Now (world_host sha) w"
    using quiet_apply [OF sk] by simp
next
  fix w w' n r
  show "Read_random (world_host sha) n w = (r, w') \<Longrightarrow> session_view view w' = session_view view w"
    using rand_Read_frame [of n w r w'] by (intro session_view_kv) simp
next
  fix w w' t q
  show "sess_GetByToken (SessionStore R) t w = (q, w') \<Longrightarrow> Now (world_host sha) w \<le> Now (world_host sha) w'"
    using GetByToken_wall [of R t w q w'] by (simp add: SessionStore_def)
qed

interpretation ks_sessions: wired_session_manager keyspace_redis ks_view ks_clock ks_tick trace_sink trace_sink trace_sink ttl sha errv
  for ttl sha errv
  by unfold_locales simp_all

lemma wired_session_managerI:
  assumes "redis_spec R view clock tick" "quiet tr" "quiet lg" "quiet mt"
  shows "wired_session_manager R view clock tick tr lg mt"
  using assms by (intro wired_session_manager.intro wired_session_manager_axioms.intro)

context wired_session_manager
begin

lemma authentic:
  assumes "\<And>i. Op_Create i \<in> set ops \<Longrightarrow> ascii_identity i" "\<And>t. session_view view w t = None"
    and "session_Validate (world_host sha) (wired_sessions R tr lg mt ttl) errv token
           (fold (session_step (world_host sha) (wired_sessions R tr lg mt ttl) errv (\<lambda>d. advance tick (int d))) ops w) = (Inr s, w')"
  shows "Op_Create (session_of s) \<in> set ops \<and> as_Token s = token \<and>
    wall (fold (session_step (world_host sha) (wired_sessions R tr lg mt ttl) errv (\<lambda>d. advance tick (int d))) ops w) \<le> as_ExpiresAt s"
  using sessions.Validate_backed [OF wait_sessions assms] by simp

lemma fresh_accepted:
  assumes "session_Create (world_host sha) (wired_sessions R tr lg mt ttl) ident w = (Inr s, w1)"
    and "storable_session \<lparr>sd_Token = as_Token s, sd_UserID = ai_UserID ident, sd_Email = ai_Email ident, sd_Method = ai_Method ident,
          sd_ExpiresAt = as_ExpiresAt s\<rparr>"
    and "as_Token s \<noteq> []" "wall w1 \<le> time_Unix (Unix (as_ExpiresAt s))"
    and "session_Validate (world_host sha) (wired_sessions R tr lg mt ttl) errv (as_Token s) w1 = (r, w2)"
  shows "r = Inr (s\<lparr>as_ExpiresAt := time_Unix (Unix (as_ExpiresAt s))\<rparr>) \<or>
    (\<exists>x. r = Inl (Wrap x CodeUnavailable ''session store unavailable'' []))"
proof -
  let ?d = "\<lparr>sd_Token = as_Token s, sd_UserID = ai_UserID ident, sd_Email = ai_Email ident, sd_Method = ai_Method ident,
      sd_ExpiresAt = time_Unix (Unix (as_ExpiresAt s))\<rparr>"
  have s: "session_view view w1 (as_Token s) = Some ?d" "as_UserID s = ai_UserID ident" "as_Email s = ai_Email ident" "as_Method s = ai_Method ident"
    using assms(1)
    by (cases rule: sessions.Create_cases; use assms(2) in \<open>simp add: session_json_roundtrip\<close>)+
  from assms(5) show ?thesis
  proof (cases rule: sessions.Validate_cases)
    case (valid d)
    then show ?thesis
      using s by (cases s) auto
  next
    case (expired d)
    then obtain q v v2 where "SessionStore_GetByToken R (as_Token s) v = (q, v2)" "wall v = wall w1" "sd_ExpiresAt d < wall v2"
      by (auto simp: SessionStore_def)
    then have False
      using GetByToken_wall [of R "as_Token s" v q v2] expired(2) s(1) assms(4) by auto
    then show ?thesis ..
  qed (use s(1) assms(3) in auto)
qed

lemma revoked:
  assumes "session_Revoke (wired_sessions R tr lg mt ttl) token w = (Inr u, w1)" "\<And>i. Op_Create i \<notin> set ops"
  shows "session_view view (fold (session_step (world_host sha) (wired_sessions R tr lg mt ttl) errv (\<lambda>d. advance tick (int d))) ops w1) token = None"
  using sessions.Revoked_stays [OF wait_sessions assms] .

lemma revoked_refused:
  assumes "session_view view w token = None" "session_Validate (world_host sha) (wired_sessions R tr lg mt ttl) errv token w = (r, w')"
  obtains x a where "r = Inl x" "As x = Some a" "Code a = CodeUnauthorized \<or> Code a = CodeUnavailable"
  using assms(2)
proof (cases rule: sessions.Validate_cases)
  case (expired d)
  then show thesis
    using that assms(1) by simp
qed (use that assms(1) in \<open>auto simp: New_def Wrap_def\<close>)

end

section \<open>Properties\<close>



lemmas run_sessions = session_Create_def session_Validate_def session_Revoke_def GenerateToken_def with_span_def finally_do_def attempt_def
  rand_Read_def start_world_def trace_sink_def SessionStore_def SessionStore_Create_def SessionStore_GetByToken_def SessionStore_Delete_def
  marshal_session_def unmarshal_session_def redis_Set_def redis_Get_def redis_Del_def redis_call_def next_delivery_def redis_ttl_def
  Milliseconds_def quot_trunc_def keyspace_redis_def ks_view_def ks_put_def ks_tick_def advance_def EncodeToString_def hex_digit_def
  parse_print_object json_field_simps int64_range_def Unix_def time_Unix_def Let_def


definition alice :: auth_identity where
  "alice = \<lparr>ai_UserID = 7, ai_Email = ''a@b.c'', ai_Method = MethodOTP\<rparr>"




end
