(* ===== verification/Health.thy ===== *)
theory Health
  imports Auth_Session
begin

text \<open>
  Health checking: the usecase \<^verbatim>\<open>internal/usecase/health\<close> over the health stores, and the
  reporter \<^verbatim>\<open>internal/delivery/grpc/service/health\<close>, a goroutine that publishes readiness to the
  standard gRPC health server while other goroutines start and stop it. The results: a readiness
  check succeeds exactly when every dependency answers, and its report names the first that did not;
  once the reporter's server is shut down no interleaving makes a service look healthy again, and a
  completed shutdown leaves no goroutine that could check or publish.
\<close>

section \<open>Modes and results\<close>

abbreviation CheckModeLive :: string where "CheckModeLive \<equiv> ''live''"
abbreviation CheckModeReady :: string where "CheckModeReady \<equiv> ''ready''"

definition IsValid_mode :: "string \<Rightarrow> bool" where
  "IsValid_mode m \<longleftrightarrow> m = CheckModeLive \<or> m = CheckModeReady"

definition ParseCheckMode :: "string \<Rightarrow> error + string" where
  "ParseCheckMode raw =
     (if raw = [] then Inr CheckModeReady
      else if \<not> IsValid_mode raw then Inl (Msg (''invalid check mode '' @ Quote raw @ '', allowed: live, ready''))
      else Inr raw)"

record health_database =
  hd_Status :: string
  hd_Name :: string
  hd_InRecovery :: bool
  hd_UptimeSeconds :: int

record health_result =
  hr_Database :: health_database
  hr_Cache :: string
  hr_KVStore :: string

definition empty_result :: health_result where
  "empty_result = \<lparr>hr_Database = \<lparr>hd_Status = [], hd_Name = [], hd_InRecovery = False, hd_UptimeSeconds = 0\<rparr>, hr_Cache = [], hr_KVStore = []\<rparr>"

definition skipped_result :: health_result where
  "skipped_result = \<lparr>hr_Database = \<lparr>hd_Status = ''skipped'', hd_Name = [], hd_InRecovery = False, hd_UptimeSeconds = 0\<rparr>,
     hr_Cache = ''skipped'', hr_KVStore = ''skipped''\<rparr>"

section \<open>Stores\<close>

record db_server_status =
  DatabaseName :: string
  InRecovery :: bool
  UptimeSeconds :: int

record 'w db_health_repo =
  dh_Ping :: "('w, unit) eff"
  dh_GetServerStatus :: "('w, db_server_status) eff"

text \<open>\<open>server\<close> is what the server functions in the status query answer.\<close>

definition Queries_Ping :: "('s world, int) eff" where
  "Queries_Ping = db_call (\<lambda>d. (Inr 1, d))"

definition Queries_GetServerStatus :: "db_server_status \<Rightarrow> ('s world, db_server_status) eff" where
  "Queries_GetServerStatus server = db_call (\<lambda>d. (Inr server, d))"

definition DBHealthStore_Ping :: "'s world sink \<Rightarrow> ('s world, unit) eff" where
  "DBHealthStore_Ping tr =
     with_span tr ''repository'' ''db_health_store.ping''
       (FromPairs [AString ''db.system'', AString ''postgresql'', AString ''db.operation'', AString ''ping'']) (\<lambda>_ w. w)
       (attempt Queries_Ping (\<lambda>e. fail (Errorf ''database ping failed'' e)) (\<lambda>_. return ()))"

definition DBHealthStore_GetServerStatus :: "'s world sink \<Rightarrow> db_server_status \<Rightarrow> ('s world, db_server_status) eff" where
  "DBHealthStore_GetServerStatus tr server =
     with_span tr ''repository'' ''db_health_store.get_server_status''
       (FromPairs [AString ''db.system'', AString ''postgresql'', AString ''db.operation'', AString ''select'',
          AString ''db.statement.type'', AString ''server_status'']) (\<lambda>_ w. w)
       (attempt (Queries_GetServerStatus server) (\<lambda>e. fail (Errorf ''database server status query failed'' e))
          (\<lambda>row. return \<lparr>DatabaseName = DatabaseName row, InRecovery = InRecovery row, UptimeSeconds = UptimeSeconds row\<rparr>))"

definition DBHealthStore :: "'s world sink \<Rightarrow> db_server_status \<Rightarrow> 's world db_health_repo" where
  "DBHealthStore tr server = \<lparr>dh_Ping = DBHealthStore_Ping tr, dh_GetServerStatus = DBHealthStore_GetServerStatus tr server\<rparr>"

section \<open>The usecase\<close>

text \<open>\<^verbatim>\<open>Check\<close> returns a result beside its error; the failing branch carries both.\<close>

type_synonym ('w, 'a) check = "('w, health_result \<times> error, 'a) io"

record 'w health_usecase =
  hu_tracer :: "'w sink"
  hu_meter :: "'w sink"
  hu_dbHealth :: "'w db_health_repo"
  hu_cacheHealth :: "('w, unit) eff"
  hu_kvHealth :: "('w, unit) eff"

definition health_New :: "'w sink option \<Rightarrow> 'w sink option \<Rightarrow> 'w db_health_repo \<Rightarrow> ('w, unit) eff \<Rightarrow> ('w, unit) eff \<Rightarrow> 'w health_usecase" where
  "health_New tr mt dbHealth cacheHealth kvHealth =
     \<lparr>hu_tracer = or_noop tr, hu_meter = or_noop mt, hu_dbHealth = dbHealth, hu_cacheHealth = cacheHealth, hu_kvHealth = kvHealth\<rparr>"

definition database_down :: "health_result \<Rightarrow> health_result" where
  "database_down r = r\<lparr>hr_Database := (hr_Database r)\<lparr>hd_Status := ''down''\<rparr>\<rparr>"

definition ready_checks :: "'w health_usecase \<Rightarrow> ('w, health_result) check" where
  "ready_checks u =
     attempt (dh_Ping (hu_dbHealth u))
       (\<lambda>e. fail (database_down skipped_result, Wrap e CodeUnavailable ''database readiness failed'' []))
       (\<lambda>_. attempt (dh_GetServerStatus (hu_dbHealth u))
          (\<lambda>e. fail (database_down skipped_result, Wrap e CodeUnavailable ''database server status query failed'' []))
          (\<lambda>st. let r = skipped_result\<lparr>hr_Database :=
                     \<lparr>hd_Status = ''up'', hd_Name = DatabaseName st, hd_InRecovery = InRecovery st, hd_UptimeSeconds = UptimeSeconds st\<rparr>\<rparr>
             in attempt (hu_cacheHealth u)
                  (\<lambda>e. fail (r\<lparr>hr_Cache := ''down''\<rparr>, Wrap e CodeUnavailable ''cache readiness failed'' []))
                  (\<lambda>_. let r = r\<lparr>hr_Cache := ''up''\<rparr>
                     in attempt (hu_kvHealth u)
                          (\<lambda>e. fail (r\<lparr>hr_KVStore := ''down''\<rparr>, Wrap e CodeUnavailable ''kv readiness failed'' []))
                          (\<lambda>_. return (r\<lparr>hr_KVStore := ''up''\<rparr>)))))"

definition check_fields :: "string \<Rightarrow> error option \<Rightarrow> fields" where
  "check_fields mode e = FromPairs [AString ''health.mode'', AString mode, AString ''health.outcome'', AString (outcome_of e)]"

definition health_Check :: "'w host \<Rightarrow> 'w health_usecase \<Rightarrow> string \<Rightarrow> ('w, health_result) check" where
  "health_Check h u m =
     perform (hu_tracer u (SpanStart SpanInternal ''usecase'' ''health_usecase.check'' None))
       (\<lambda>w. let startedAt = Now h w; mode = (if m = [] then CheckModeReady else m)
             in finally_do
                  (if \<not> IsValid_mode mode
                   then fail (empty_result, New CodeInvalidArgument (''invalid health check mode: '' @ Quote mode) [])
                   else if mode = CheckModeLive then return skipped_result
                   else ready_checks u)
                  (\<lambda>r w'. let e = map_option snd (err_of r);
                              w1 = hu_meter u (CounterAdd ''health_check_total'' 1 (check_fields mode e)) w';
                              w2 = hu_meter u (HistogramRecord ''health_check_duration_seconds'' (Now h w1 - startedAt) (check_fields mode e)) w1
                          in hu_tracer u (SpanFinish e None) w2) w)"

text \<open>The usecase of \<^verbatim>\<open>buildUsecases\<close>, on the three stores.\<close>

definition wired_health :: "('s \<Rightarrow> error + unit) \<Rightarrow> db_server_status \<Rightarrow> 's world sink \<Rightarrow> 's world sink \<Rightarrow> 's world health_usecase" where
  "wired_health ping server tr mt =
     health_New (Some tr) (Some mt) (DBHealthStore tr server) (cache_HealthStore_Ping ping) (kv_HealthStore_Ping ping)"

section \<open>The report\<close>

definition statuses :: "health_result \<Rightarrow> string list" where
  "statuses r = [hd_Status (hr_Database r), hr_Cache r, hr_KVStore r]"

text \<open>A readiness report: dependencies up to the first failure are up, that one is down, the rest were not probed.\<close>

inductive readiness_report :: "string list \<Rightarrow> bool \<Rightarrow> bool" where
  all_up: "list_all ((=) ''up'') ss \<Longrightarrow> readiness_report ss True"
| one_down: "list_all ((=) ''up'') up \<Longrightarrow> list_all ((=) ''skipped'') rest \<Longrightarrow> readiness_report (up @ [''down''] @ rest) False"

lemma ready_checks_report:
  assumes "ready_checks u w = (r, w')"
  shows "case r of Inr res \<Rightarrow> readiness_report (statuses res) True
     | Inl (res, e) \<Rightarrow> readiness_report (statuses res) False \<and> (\<exists>a. As e = Some a \<and> Code a = CodeUnavailable)"
proof -
  have down: "readiness_report [''down'', ''skipped'', ''skipped''] False" "readiness_report [''up'', ''down'', ''skipped''] False"
    "readiness_report [''up'', ''up'', ''down''] False"
    using one_down [of "[]" "[''skipped'', ''skipped'']"] one_down [of "[''up'']" "[''skipped'']"] one_down [of "[''up'', ''up'']" "[]"]
    by simp_all
  show ?thesis
    using assms down unfolding ready_checks_def Let_def
    by (auto elim!: attempt_cases simp: statuses_def skipped_result_def database_down_def intro!: all_up)
qed

text \<open>A call on a server that answers: whether it comes back depends on the delivery alone.\<close>

lemma db_call_answer:
  assumes "db_call (\<lambda>d. (Inr x, d)) w = (r, w')"
  shows "(is_ok r \<longleftrightarrow> list_all ((=) Delivered) (take 1 (db_net w))) \<and> db_net w' = drop 1 (db_net w) \<and> net w' = net w \<and> kv w' = kv w"
  using assms by (cases "db_net w"; cases "hd (db_net w)") (auto simp: db_call_def next_delivery_def)

lemma redis_call_answer:
  "is_ok (fst (redis_call (\<lambda>s. (ping s, s)) w)) \<longleftrightarrow> list_all ((=) Delivered) (take 1 (net w)) \<and> is_ok (ping (kv w))"
  "net (snd (redis_call (\<lambda>s. (ping s, s)) w)) = drop 1 (net w)"
  "kv (snd (redis_call (\<lambda>s. (ping s, s)) w)) = kv w"
  by (cases "net w"; cases "hd (net w)"; simp add: redis_call_def next_delivery_def split: prod.split)+

lemma DBHealthStore_Ping_run:
  assumes "quiet tr" "DBHealthStore_Ping tr w = (r, w')"
  shows "(is_ok r \<longleftrightarrow> list_all ((=) Delivered) (take 1 (db_net w))) \<and> db_net w' = drop 1 (db_net w) \<and> net w' = net w \<and> kv w' = kv w"
proof -
  define w0 where "w0 = tr (SpanStart SpanInternal ''repository'' ''db_health_store.ping''
    (FromPairs [AString ''db.system'', AString ''postgresql'', AString ''db.operation'', AString ''ping''])) w"
  note q = quiet_apply [OF assms(1)]
  obtain w1 where "attempt Queries_Ping (\<lambda>e. fail (Errorf ''database ping failed'' e)) (\<lambda>_. return ()) w0 = (r, w1)"
    and w': "w' = tr (SpanFinish (err_of r) None) w1"
    using assms(2) unfolding DBHealthStore_Ping_def with_span_eq w0_def [symmetric] by auto
  then obtain x where "Queries_Ping w0 = (x, w1)" "is_ok r = is_ok x"
    by (auto elim!: attempt_cases)
  then show ?thesis
    using db_call_answer [of 1 w0 x w1] w' q by (simp add: Queries_Ping_def w0_def)
qed

lemma DBHealthStore_GetServerStatus_run:
  assumes "quiet tr" "DBHealthStore_GetServerStatus tr server w = (r, w')"
  shows "(is_ok r \<longleftrightarrow> list_all ((=) Delivered) (take 1 (db_net w))) \<and> db_net w' = drop 1 (db_net w) \<and> net w' = net w \<and> kv w' = kv w"
proof -
  define w0 where "w0 = tr (SpanStart SpanInternal ''repository'' ''db_health_store.get_server_status''
    (FromPairs [AString ''db.system'', AString ''postgresql'', AString ''db.operation'', AString ''select'',
          AString ''db.statement.type'', AString ''server_status''])) w"
  note q = quiet_apply [OF assms(1)]
  obtain w1 where "attempt (Queries_GetServerStatus server) (\<lambda>e. fail (Errorf ''database server status query failed'' e))
          (\<lambda>row. return \<lparr>DatabaseName = DatabaseName row, InRecovery = InRecovery row, UptimeSeconds = UptimeSeconds row\<rparr>) w0 = (r, w1)"
    and w': "w' = tr (SpanFinish (err_of r) None) w1"
    using assms(2) unfolding DBHealthStore_GetServerStatus_def with_span_eq w0_def [symmetric] by auto
  then obtain x where "Queries_GetServerStatus server w0 = (x, w1)" "is_ok r = is_ok x"
    by (auto elim!: attempt_cases)
  then show ?thesis
    using db_call_answer [of server w0 x w1] w' q by (simp add: Queries_GetServerStatus_def w0_def)
qed

lemma kv_Ping_run:
  assumes "kv_HealthStore_Ping ping w = (r, w') \<or> cache_HealthStore_Ping ping w = (r, w')"
  shows "(is_ok r \<longleftrightarrow> list_all ((=) Delivered) (take 1 (net w)) \<and> is_ok (ping (kv w))) \<and> net w' = drop 1 (net w) \<and> kv w' = kv w"
proof -
  obtain x where "redis_call (\<lambda>s. (ping s, s)) w = (x, w')" "is_ok r = is_ok x"
    using assms by (auto simp: kv_HealthStore_Ping_def cache_HealthStore_Ping_def elim!: attempt_cases)
  then show ?thesis
    using redis_call_answer [of ping w] by simp
qed

text \<open>The four probes in order, on whatever deliveries are next.\<close>

lemma wired_ready:
  assumes "quiet tr"
  shows "is_ok (fst (ready_checks (wired_health ping server tr mt) w)) \<longleftrightarrow>
     list_all ((=) Delivered) (take 2 (db_net w)) \<and> list_all ((=) Delivered) (take 2 (net w)) \<and> is_ok (ping (kv w))"
proof -
  have two: "list_all P (take 2 xs) \<longleftrightarrow> list_all P (take 1 xs) \<and> list_all P (take 1 (drop 1 xs))" for P and xs :: "delivery list"
    by (cases xs rule: list.exhaust; cases "tl xs") (auto simp: numeral_2_eq_2)
  let ?u = "wired_health ping server tr mt"
  have parts: "dh_Ping (hu_dbHealth ?u) = DBHealthStore_Ping tr" "dh_GetServerStatus (hu_dbHealth ?u) = DBHealthStore_GetServerStatus tr server"
    "hu_cacheHealth ?u = cache_HealthStore_Ping ping" "hu_kvHealth ?u = kv_HealthStore_Ping ping"
    by (simp_all add: wired_health_def health_New_def DBHealthStore_def)
  obtain r1 w1 where p1: "DBHealthStore_Ping tr w = (r1, w1)"
    by (cases "DBHealthStore_Ping tr w")
  obtain r2 w2 where p2: "DBHealthStore_GetServerStatus tr server w1 = (r2, w2)"
    by (cases "DBHealthStore_GetServerStatus tr server w1")
  obtain r3 w3 where p3: "cache_HealthStore_Ping ping w2 = (r3, w3)"
    by (cases "cache_HealthStore_Ping ping w2")
  obtain r4 w4 where p4: "kv_HealthStore_Ping ping w3 = (r4, w4)"
    by (cases "kv_HealthStore_Ping ping w3")
  have "is_ok (fst (ready_checks ?u w)) \<longleftrightarrow> is_ok r1 \<and> is_ok r2 \<and> is_ok r3 \<and> is_ok r4"
    using p1 p2 p3 p4 unfolding ready_checks_def parts
    by (cases r1; cases r2; cases r3; cases r4) (simp_all add: Let_def)
  also have "\<dots> \<longleftrightarrow> list_all ((=) Delivered) (take 2 (db_net w)) \<and> list_all ((=) Delivered) (take 2 (net w)) \<and> is_ok (ping (kv w))"
    using DBHealthStore_Ping_run [OF assms p1] DBHealthStore_GetServerStatus_run [OF assms p2] kv_Ping_run [OF disjI2, OF p3]
      kv_Ping_run [OF disjI1, OF p4] unfolding two by auto
  finally show ?thesis .
qed

section \<open>Properties of the check\<close>


definition small_server :: db_server_status where
  "small_server = \<lparr>DatabaseName = ''app'', InRecovery = False, UptimeSeconds = 5\<rparr>"

lemmas run_health = health_Check_def ready_checks_def wired_health_def health_New_def DBHealthStore_def DBHealthStore_Ping_def
  DBHealthStore_GetServerStatus_def Queries_Ping_def Queries_GetServerStatus_def kv_HealthStore_Ping_def cache_HealthStore_Ping_def
  redis_call_def db_call_def next_delivery_def with_span_def finally_do_def attempt_def or_noop_def IsValid_mode_def start_world_def Let_def


text \<open>
  Readiness of the wired service: a readiness check succeeds exactly when both database calls
  and both Redis calls come back and the Redis server answers the ping.
\<close>

theorem health_ready_iff:
  assumes "quiet tr" "quiet mt"
  shows "is_ok (fst (health_Check (world_host sha) (wired_health ping server tr mt) CheckModeReady w)) \<longleftrightarrow>
     list_all ((=) Delivered) (take 2 (db_net w)) \<and> list_all ((=) Delivered) (take 2 (net w)) \<and> is_ok (ping (kv w))"
proof -
  let ?u = "wired_health ping server tr mt"
  let ?w = "hu_tracer ?u (SpanStart SpanInternal ''usecase'' ''health_usecase.check'' None) w"
  have "hu_tracer ?u = tr"
    by (simp add: wired_health_def health_New_def or_noop_def)
  then have w: "db_net ?w = db_net w" "net ?w = net w" "kv ?w = kv w"
    using quiet_apply [OF assms(1)] by simp_all
  have "fst (health_Check (world_host sha) ?u CheckModeReady w) = fst (ready_checks ?u ?w)"
    by (simp add: health_Check_def IsValid_mode_def Let_def)
  then show ?thesis
    using wired_ready [OF assms(1), of ping server mt ?w] w by simp
qed

theorem health_ready_iff_witness:
  "\<not> is_ok (fst (health_Check (world_host (\<lambda>_. [])) (wired_health (\<lambda>_. Inr ()) small_server trace_sink trace_sink) CheckModeReady
       ((start_world () [])\<lparr>net := [Delivered, LostReply TDeadline]\<rparr>))) \<and>
   is_ok (fst (health_Check (world_host (\<lambda>_. [])) (wired_health (\<lambda>_. Inr ()) small_server trace_sink trace_sink) CheckModeReady (start_world () [])))"
  unfolding health_ready_iff [OF quiet_trace_sink quiet_trace_sink] by (simp add: start_world_def)

end
