(* ===== verification/Http.thy ===== *)
theory Http
  imports Health
begin

text \<open>
  \<^verbatim>\<open>internal/delivery/http/response\<close> and \<^verbatim>\<open>internal/delivery/http/httpcontext\<close>: the
  exchange a handler works on, the responder and the event stream. Echo is third-party code: of its
  context the model keeps what the sources read from it, the values they store in it, and the
  sequence of calls they make on the response; what a call that writes returns is the environment's
  choice.
\<close>

section \<open>The exchange\<close>

datatype same_site = SameSiteLax

record cookie =
  ck_Name :: string
  ck_Value :: string
  ck_Path :: string
  ck_MaxAge :: int
  ck_HttpOnly :: bool
  ck_Secure :: bool
  ck_SameSite :: same_site

datatype payload =
    ErrorPayload string string
  | AuthResponse int string
  | MessageResponse string
  | HealthResponse health_result

datatype response_call =
    SetHeader string string
  | SetCookie cookie
  | WriteJSON nat payload
  | WriteNoContent nat
  | WriteRedirect nat string
  | ClearWriteDeadline
  | WriteHeader nat
  | WriteText string
  | Flush

text \<open>A response writer: whether it can flush, and what it unwraps to. A writer may unwrap to itself.\<close>

datatype writer = Writer bool | Wrapping bool writer | SelfWrapping bool

record error_outcome =
  OriginalError :: "error option"
  ApplicationErrorCode :: string
  ApplicationErrorMessage :: string
  DiagnosticDetails :: fields

record session_info =
  si_UserID :: int
  si_Email :: string
  si_Method :: string

record exchange =
  rq_method :: string
  rq_path :: string
  rq_route :: string
  rq_tls :: bool
  rq_header :: "string \<Rightarrow> string list"
  rq_cookies :: "(string \<times> string) list"
  rq_params :: "(string \<times> string) list"
  rq_ip :: string
  rq_content_length :: int
  rq_has_body :: bool
  rq_body_limit :: "int option"
  rq_ctx :: ctx
  rs_writer :: writer
  rs_calls :: "response_call list"
  rs_faults :: "error option list"
  x_outcome :: "error_outcome option"
  x_session :: "session_info option"

text \<open>A handler returns an error (nil included) or panics, with an error or with another value.\<close>

datatype panic = PanicError error | PanicValue string

datatype hres = Done "error option" | Panicked panic

type_synonym 'w http = "'w \<times> exchange \<Rightarrow> hres \<times> 'w \<times> exchange"

definition SetErrorOutcome :: "exchange \<Rightarrow> error_outcome \<Rightarrow> exchange" where
  "SetErrorOutcome x out = x\<lparr>x_outcome := Some out\<rparr>"

definition ErrorOutcomeFrom :: "exchange \<Rightarrow> error_outcome option" where
  "ErrorOutcomeFrom x = x_outcome x"

definition SetSessionContext :: "exchange \<Rightarrow> session_info \<Rightarrow> exchange" where
  "SetSessionContext x info = x\<lparr>x_session := Some info\<rparr>"

definition SessionFromContext :: "exchange \<Rightarrow> session_info option" where
  "SessionFromContext x = x_session x"

text \<open>A call on the response that returns nothing, and one that writes and may fail.\<close>

definition tell :: "response_call \<Rightarrow> exchange \<Rightarrow> exchange" where
  "tell call x = x\<lparr>rs_calls := rs_calls x @ [call]\<rparr>"

definition put_out :: "response_call \<Rightarrow> exchange \<Rightarrow> error option \<times> exchange" where
  "put_out call x = (case rs_faults x of
      [] \<Rightarrow> (None, tell call x)
    | f # fs \<Rightarrow> (f, (tell call x)\<lparr>rs_faults := fs\<rparr>))"

definition write_calls :: "response_call list \<Rightarrow> response_call list" where
  "write_calls cs = filter (\<lambda>c. case c of SetHeader _ _ \<Rightarrow> False | SetCookie _ \<Rightarrow> False | ClearWriteDeadline \<Rightarrow> False | _ \<Rightarrow> True) cs"

lemma tell_simps [simp]:
  "rs_calls (tell c x) = rs_calls x @ [c]" "x_outcome (tell c x) = x_outcome x" "x_session (tell c x) = x_session x"
  "rs_faults (tell c x) = rs_faults x" "rq_ctx (tell c x) = rq_ctx x"
  by (simp_all add: tell_def)

lemma put_out_simps [simp]:
  "rs_calls (snd (put_out c x)) = rs_calls x @ [c]" "x_outcome (snd (put_out c x)) = x_outcome x"
  "x_session (snd (put_out c x)) = x_session x" "rq_ctx (snd (put_out c x)) = rq_ctx x"
  by (simp_all add: put_out_def split: list.split)

lemma SetErrorOutcome_simps [simp]:
  "rs_calls (SetErrorOutcome x out) = rs_calls x" "x_outcome (SetErrorOutcome x out) = Some out"
  "x_session (SetErrorOutcome x out) = x_session x"
  by (simp_all add: SetErrorOutcome_def)

section \<open>Status codes\<close>

abbreviation CodeInvalidQuery :: string where "CodeInvalidQuery \<equiv> ''INVALID_QUERY''"
abbreviation CodeInvalidRequestID :: string where "CodeInvalidRequestID \<equiv> ''INVALID_REQUEST_ID''"
abbreviation CodeRequestCanceled :: string where "CodeRequestCanceled \<equiv> ''REQUEST_CANCELED''"
abbreviation (input) statusClientClosedRequest :: nat where "statusClientClosedRequest \<equiv> 499"

definition codeStatusMap :: "(string \<times> nat) list" where
  "codeStatusMap =
     [(CodeInvalidQuery, 400), (CodeInvalidRequestID, 400), (CodeRequestCanceled, statusClientClosedRequest),
      (CodeInvalidArgument, 400), (CodeUnauthorized, 401), (CodeForbidden, 403), (CodeNotFound, 404), (CodeConflict, 409),
      (CodeTooManyRequests, 429), (CodeUnavailable, 503), (CodeTimeout, 504), (CodeInternal, 500)]"

definition toHTTPStatus :: "string \<Rightarrow> nat" where
  "toHTTPStatus c = (case map_of codeStatusMap c of Some s \<Rightarrow> s | None \<Rightarrow> 500)"

section \<open>The responder\<close>

text \<open>Each method returns the error of its write and the exchange after it.\<close>

definition recordErrorOutcome :: "exchange \<Rightarrow> error option \<Rightarrow> string \<Rightarrow> string \<Rightarrow> fields \<Rightarrow> exchange" where
  "recordErrorOutcome x e code message details =
     SetErrorOutcome x \<lparr>OriginalError = e, ApplicationErrorCode = code, ApplicationErrorMessage = message, DiagnosticDetails = details\<rparr>"

definition resp_Success :: "nat \<Rightarrow> payload \<Rightarrow> exchange \<Rightarrow> error option \<times> exchange" where
  "resp_Success status p x = put_out (WriteJSON status p) x"

definition writeError :: "error option \<Rightarrow> string \<Rightarrow> string \<Rightarrow> fields \<Rightarrow> exchange \<Rightarrow> error option \<times> exchange" where
  "writeError e code message details x =
     put_out (WriteJSON (toHTTPStatus code) (ErrorPayload code message)) (recordErrorOutcome x e code message details)"

definition resp_Error :: "error option \<Rightarrow> string \<Rightarrow> string \<Rightarrow> fields list \<Rightarrow> exchange \<Rightarrow> error option \<times> exchange" where
  "resp_Error e code message details x = writeError e code message (optionalDetails details) x"

definition InvalidQuery :: "error \<Rightarrow> string \<Rightarrow> fields list \<Rightarrow> exchange \<Rightarrow> error option \<times> exchange" where
  "InvalidQuery e message details x = writeError (Some e) CodeInvalidQuery message (optionalDetails details) x"

definition writeContextError :: "error \<Rightarrow> exchange \<Rightarrow> (error option \<times> exchange) option" where
  "writeContextError e x =
     (if errors_Is e ContextCanceled
      then Some (put_out (WriteNoContent statusClientClosedRequest) (recordErrorOutcome x (Some e) CodeRequestCanceled ''request canceled'' None))
      else if errors_Is e ContextDeadlineExceeded
      then Some (writeError (Some e) CodeTimeout ''request timed out'' None x)
      else None)"

definition resp_AppError :: "error \<Rightarrow> exchange \<Rightarrow> error option \<times> exchange" where
  "resp_AppError e x =
     (case writeContextError e x of
        Some r \<Rightarrow> r
      | None \<Rightarrow> (case As e of
           None \<Rightarrow> writeError (Some e) CodeInternal ''internal server error'' None x
         | Some a \<Rightarrow> writeError (Some e) (Code a) (Message a) (Details a) x))"

definition AppErrorWithPayload :: "error \<Rightarrow> payload \<Rightarrow> exchange \<Rightarrow> error option \<times> exchange" where
  "AppErrorWithPayload e p x =
     (case writeContextError e x of
        Some r \<Rightarrow> r
      | None \<Rightarrow> (case As e of
           None \<Rightarrow> put_out (WriteJSON (toHTTPStatus CodeInternal) p) (recordErrorOutcome x (Some e) CodeInternal ''internal server error'' None)
         | Some a \<Rightarrow> put_out (WriteJSON (toHTTPStatus (Code a)) p) (recordErrorOutcome x (Some e) (Code a) (Message a) (Details a))))"

section \<open>Event streams\<close>

fun supportsFlushing :: "writer \<Rightarrow> bool" where
  "supportsFlushing (Writer f) = f"
| "supportsFlushing (SelfWrapping f) = False"
| "supportsFlushing (Wrapping f w) = supportsFlushing w"

fun flushes :: "writer \<Rightarrow> bool" where
  "flushes (Writer f) = f"
| "flushes (SelfWrapping f) = f"
| "flushes (Wrapping f w) = f"

definition ErrStreamingUnsupported :: error where
  "ErrStreamingUnsupported = New CodeInternal ''streaming is not supported'' []"

text \<open>The type assertion on the outer writer panics when that writer cannot flush.\<close>

definition StartSSE :: "exchange \<Rightarrow> (panic + error + unit) \<times> exchange" where
  "StartSSE x =
     (if \<not> supportsFlushing (rs_writer x) then (Inr (Inl ErrStreamingUnsupported), x)
      else if \<not> flushes (rs_writer x) then (Inl (PanicValue ''interface conversion: http.ResponseWriter is not http.Flusher''), x)
      else (Inr (Inr ()),
            fold tell [ClearWriteDeadline, SetHeader ''Content-Type'' ''text/event-stream'', SetHeader ''Cache-Control'' ''no-cache'',
                       SetHeader ''Connection'' ''keep-alive'', SetHeader ''X-Accel-Buffering'' ''no'', WriteHeader 200, Flush] x))"

definition LF :: string where "LF = [CHR 0x0A]"

definition emit :: "string \<Rightarrow> exchange \<Rightarrow> error option \<times> exchange" where
  "emit frame x = (case put_out (WriteText frame) x of (None, x') \<Rightarrow> (None, tell Flush x') | (Some e, x') \<Rightarrow> (Some e, x'))"

definition event_frame :: "string \<Rightarrow> string \<Rightarrow> string" where
  "event_frame event data = ''event: '' @ event @ LF @ ''data: '' @ data @ LF @ LF"

text \<open>The JSON of a health response, members in the order of the generated struct.\<close>

definition json_status :: "string \<Rightarrow> string" where
  "json_status s = print_object [(''status'', JString s)]"

definition marshal_health :: "health_result \<Rightarrow> string" where
  "marshal_health r =
     CHR ''{'' # print_string ''cache'' @ '':'' @ json_status (hr_Cache r) @ '','' @
     print_string ''database'' @ '':'' @ print_object
        [(''in_recovery'', JBool (hd_InRecovery (hr_Database r))), (''name'', JString (hd_Name (hr_Database r))),
         (''status'', JString (hd_Status (hr_Database r))), (''uptime_seconds'', JInt (hd_UptimeSeconds (hr_Database r)))] @ '','' @
     print_string ''kvstore'' @ '':'' @ json_status (hr_KVStore r) @ ''}''"

definition SSE_Event :: "string \<Rightarrow> health_result \<Rightarrow> exchange \<Rightarrow> error option \<times> exchange" where
  "SSE_Event event r x = emit (event_frame event (marshal_health r)) x"

definition SSE_Comment :: "string \<Rightarrow> exchange \<Rightarrow> error option \<times> exchange" where
  "SSE_Comment t x = emit ('': '' @ t @ LF @ LF) x"

section \<open>What an error response says\<close>

text \<open>The code and message that an error is answered with.\<close>

definition public_error :: "error \<Rightarrow> string \<times> string" where
  "public_error e =
     (if errors_Is e ContextCanceled then (CodeRequestCanceled, ''request canceled'')
      else if errors_Is e ContextDeadlineExceeded then (CodeTimeout, ''request timed out'')
      else (case As e of None \<Rightarrow> (CodeInternal, ''internal server error'') | Some a \<Rightarrow> (Code a, Message a)))"

lemma resp_AppError_calls:
  "rs_calls (snd (resp_AppError e x)) = rs_calls x @
     [if errors_Is e ContextCanceled then WriteNoContent 499
      else WriteJSON (toHTTPStatus (fst (public_error e))) (ErrorPayload (fst (public_error e)) (snd (public_error e)))]"
  by (simp add: resp_AppError_def writeContextError_def writeError_def public_error_def recordErrorOutcome_def split: option.split)

lemma AppErrorWithPayload_calls:
  "rs_calls (snd (AppErrorWithPayload e p x)) = rs_calls x @
     [if errors_Is e ContextCanceled then WriteNoContent 499
      else if errors_Is e ContextDeadlineExceeded then WriteJSON 504 (ErrorPayload CodeTimeout ''request timed out'')
      else WriteJSON (toHTTPStatus (fst (public_error e))) p]"
  by (simp add: AppErrorWithPayload_def writeContextError_def writeError_def public_error_def recordErrorOutcome_def toHTTPStatus_def
      codeStatusMap_def split: option.split)

lemma resp_AppError_outcome:
  "\<exists>d. x_outcome (snd (resp_AppError e x)) = Some \<lparr>OriginalError = Some e, ApplicationErrorCode = fst (public_error e),
     ApplicationErrorMessage = snd (public_error e), DiagnosticDetails = d\<rparr>"
  by (auto simp: resp_AppError_def writeContextError_def writeError_def public_error_def recordErrorOutcome_def split: option.split)

lemma resp_AppError_session [simp]: "x_session (snd (resp_AppError e x)) = x_session x"
  by (simp add: resp_AppError_def writeContextError_def writeError_def recordErrorOutcome_def split: option.split)

lemma toHTTPStatus_range: "toHTTPStatus c \<in> {400, 401, 403, 404, 409, 429, 499, 500, 503, 504}"
  by (auto simp: toHTTPStatus_def codeStatusMap_def split: option.split)

text \<open>A client's own failures never become server errors, and the reverse, for the application's codes.\<close>

lemma toHTTPStatus_client:
  assumes "Code a \<in> {CodeInvalidArgument, CodeUnauthorized, CodeForbidden, CodeNotFound, CodeConflict, CodeTooManyRequests,
    CodeUnavailable, CodeTimeout, CodeInternal}"
  shows "toHTTPStatus (Code a) < 500 \<longleftrightarrow> IsClientError a"
  using assms by (auto simp: toHTTPStatus_def codeStatusMap_def IsClientError_def)

section \<open>Frames\<close>

definition no_newline :: "string \<Rightarrow> bool" where
  "no_newline s \<longleftrightarrow> CHR 0x0A \<notin> set s"

lemma hex_digit_printable: "CHR 0x0A \<noteq> hex_digit n"
proof -
  have "hex_digit n \<in> set ''0123456789abcdef''"
    unfolding hex_digit_def by (rule nth_mem) simp
  then show ?thesis
    by auto
qed

lemma no_newline_escape: "no_newline (escape_char c)"
proof (cases "c = CHR 0x0A")
  case True
  then show ?thesis
    by (simp add: escape_char_def no_newline_def)
next
  case False
  then show ?thesis
    by (simp add: escape_char_def no_newline_def Let_def hex_digit_printable)
qed

lemma no_newline_print_string: "no_newline (print_string s)"
  using no_newline_escape by (auto simp: print_string_def no_newline_def)

lemma no_newline_Itoa: "no_newline (Itoa i)"
proof -
  have "CHR 0x0A \<notin> set (nat_digits n)" for n
    using nat_digits_props [of n] by (auto simp: list_all_iff is_digit_def less_eq_char_def)
  then show ?thesis
    by (auto simp: Itoa_def no_newline_def)
qed

lemma no_newline_append [simp]: "no_newline (xs @ ys) \<longleftrightarrow> no_newline xs \<and> no_newline ys"
  and no_newline_Cons [simp]: "no_newline (c # xs) \<longleftrightarrow> c \<noteq> CHR 0x0A \<and> no_newline xs"
  and no_newline_Nil [simp]: "no_newline []"
  by (auto simp: no_newline_def)

lemma no_newline_print_json: "no_newline (print_json v)"
  by (cases v) (simp_all add: no_newline_print_string no_newline_Itoa)

lemma no_newline_print_object: "no_newline (print_object ms)"
proof -
  have "no_newline (print_members ms)"
    by (induction ms rule: print_members.induct) (simp_all add: no_newline_print_json no_newline_print_string)
  then show ?thesis
    by (simp add: print_object_def)
qed

lemma no_newline_marshal_health: "no_newline (marshal_health r)"
  by (simp add: marshal_health_def json_status_def no_newline_print_object no_newline_print_string)

lemma Split_no_newline: "no_newline s \<Longrightarrow> Split (s @ CHR 0x0A # t) (CHR 0x0A) = s # Split t (CHR 0x0A)"
  by (induction s) auto

section \<open>Properties\<close>


text \<open>
  A health event is one well-formed frame: whatever strings the dependencies report, the frame
  of an event has exactly the event line, one data line and the blank line that ends it, so that no
  reported name can forge another event.
\<close>

theorem sse_frame_lines:
  "Split (event_frame ''health'' (marshal_health r)) (CHR 0x0A) = [''event: health'', ''data: '' @ marshal_health r, [], []]"
proof -
  have "Split (''event: health'' @ CHR 0x0A # (''data: '' @ marshal_health r) @ CHR 0x0A # [CHR 0x0A]) (CHR 0x0A)
      = [''event: health'', ''data: '' @ marshal_health r, [], []]"
    using Split_no_newline [of "''event: health''"] Split_no_newline [of "''data: '' @ marshal_health r"] no_newline_marshal_health
    by (simp del: Split.simps(2) append_Cons append_assoc add: Split.simps)
  then show ?thesis
    by (simp add: event_frame_def LF_def)
qed

end
