(* ===== verification/Http_Middleware.thy ===== *)
theory Http_Middleware
  imports Http Token_Bucket
begin

text \<open>
  \<^verbatim>\<open>internal/delivery/http/middleware\<close>: request context, session gate, body limit, rate limit,
  panic recovery and observability, each a function from the next handler to a handler. The results:
  a panic never leaves the recovery middleware except the one that aborts a connection; the rate
  limiter fails closed and never tells a client to come back too early; only valid request
  identifiers enter the context; every completed request is counted, logged and traced exactly once,
  under fields of bounded cardinality.
\<close>

section \<open>Request context\<close>

record request_context_config =
  rc_Timeout :: duration
  rc_IncomingHeaderKey :: string
  rc_ResponseHeaderKey :: string
  rc_RejectInvalid :: bool

text \<open>\<^verbatim>\<open>http.CanonicalHeaderKey\<close> on a valid name: the first letter and those after hyphens in upper case.\<close>

fun canonical :: "bool \<Rightarrow> string \<Rightarrow> string" where
  "canonical up [] = []"
| "canonical up (c # cs) = (if up then upper_char c else lower_char c) # canonical (c = CHR ''-'') cs"

text \<open>\<open>valid_name\<close> is \<^verbatim>\<open>httpguts.ValidHeaderFieldName\<close>.\<close>

definition normalizeHeaderKey :: "(string \<Rightarrow> bool) \<Rightarrow> string \<Rightarrow> error + string" where
  "normalizeHeaderKey valid_name k =
     (let key = TrimSpace k in
      if key = [] then Inr []
      else if \<not> valid_name key then Inl (Msg (''invalid HTTP header name '' @ Quote key))
      else Inr (canonical True key))"

definition NewRequestContextMiddleware :: "(string \<Rightarrow> bool) \<Rightarrow> request_context_config \<Rightarrow> error + request_context_config" where
  "NewRequestContextMiddleware valid_name cfg =
     (case normalizeHeaderKey valid_name (rc_IncomingHeaderKey cfg) of
        Inl e \<Rightarrow> Inl (Errorf ''normalize incoming request ID header'' e)
      | Inr incoming \<Rightarrow> (case normalizeHeaderKey valid_name (rc_ResponseHeaderKey cfg) of
           Inl e \<Rightarrow> Inl (Errorf ''normalize response request ID header'' e)
         | Inr response \<Rightarrow> Inr (cfg\<lparr>rc_IncomingHeaderKey := incoming, rc_ResponseHeaderKey := response\<rparr>)))"

definition quoted_list :: "string list \<Rightarrow> string" where
  "quoted_list vs = CHR ''['' # join_strings '' '' (map Quote vs) @ '']''"

definition incomingRequestID :: "exchange \<Rightarrow> string \<Rightarrow> error + string" where
  "incomingRequestID x headerKey =
     (if headerKey = [] then Inr []
      else let values = rq_header x headerKey in
        if values = [] \<or> values = [[]] then Inr []
        else if length values \<noteq> 1 \<or> \<not> IsValidRequestID (hd values)
             then Inl (Msg (''invalid '' @ headerKey @ '' header: '' @ quoted_list values))
        else Inr (hd values))"

text \<open>\<open>skip\<close> is the timeout skipper, \<open>None\<close> when none was given; \<open>now\<close> reads the clock.\<close>

definition request_context :: "('w \<Rightarrow> int) \<Rightarrow> request_context_config \<Rightarrow> (exchange \<Rightarrow> bool) option \<Rightarrow> 'w http \<Rightarrow> 'w http" where
  "request_context now cfg skip next = (\<lambda>(w, x).
     let r = incomingRequestID x (rc_IncomingHeaderKey cfg) in
     if isl r \<and> rc_RejectInvalid cfg
     then (case resp_Error (Some (projl r)) CodeInvalidRequestID
                  (rc_IncomingHeaderKey cfg @ '' must be one value of 1-128 characters from [a-zA-Z0-9._-]'') [] x of
             (e, x') \<Rightarrow> (Done e, w, x'))
     else
       let accepted = (is_ok r \<and> projr r \<noteq> []);
           ctx1 = (if accepted then WithRequestID (rq_ctx x) (projr r) else rq_ctx x);
           x1 = (if accepted \<and> rc_ResponseHeaderKey cfg \<noteq> [] then tell (SetHeader (rc_ResponseHeaderKey cfg) (projr r)) x else x);
           ctx2 = (if rc_Timeout cfg > 0 \<and> (case skip of None \<Rightarrow> True | Some f \<Rightarrow> \<not> f x1)
                   then WithTimeout ctx1 (now w) (rc_Timeout cfg) else ctx1)
       in next (w, x1\<lparr>rq_ctx := ctx2\<rparr>))"

section \<open>Session gate\<close>

definition c_Cookie :: "exchange \<Rightarrow> string \<Rightarrow> error + string" where
  "c_Cookie x name = (case map_of (rq_cookies x) name of
      None \<Rightarrow> Inl (External ''http: named cookie not present'') | Some v \<Rightarrow> Inr v)"

definition session_gate :: "(string \<Rightarrow> ('w, auth_session) eff) \<Rightarrow> string \<Rightarrow> 'w http \<Rightarrow> 'w http" where
  "session_gate validate cookieName next = (\<lambda>(w, x).
     let r = c_Cookie x cookieName in
     if isl r \<or> projr r = []
     then (case resp_Error (err_of r) ''UNAUTHORIZED'' ''authentication required'' [] x of (e, x') \<Rightarrow> (Done e, w, x'))
     else (case validate (projr r) w of
        (Inl e, w') \<Rightarrow> (case resp_AppError e x of (e', x') \<Rightarrow> (Done e', w', x'))
      | (Inr s, w') \<Rightarrow> next (w', SetSessionContext x \<lparr>si_UserID = as_UserID s, si_Email = as_Email s, si_Method = as_Method s\<rparr>)))"

section \<open>Body limit\<close>

text \<open>\<open>httpError\<close> is \<^verbatim>\<open>echo.NewHTTPError\<close>.\<close>

definition body_limit :: "(nat \<Rightarrow> string \<Rightarrow> error) \<Rightarrow> int \<Rightarrow> 'w http \<Rightarrow> 'w http" where
  "body_limit httpError maxBytes next = (\<lambda>(w, x).
     if rq_content_length x > maxBytes then (Done (Some (httpError 413 ''request body too large'')), w, x)
     else next (w, if rq_has_body x then x\<lparr>rq_body_limit := Some maxBytes\<rparr> else x))"

section \<open>Rate limit\<close>

text \<open>
  \<^verbatim>\<open>math.Ceil(d.Seconds())\<close>. The conversion to \<^verbatim>\<open>float64\<close> is exact enough to give the same
  integer while the seconds fit into 23 bits, 97 days; the limiter's waits are far below.
\<close>

definition retryAfterSeconds :: "duration \<Rightarrow> int" where
  "retryAfterSeconds d = (let n = - ((- d) div Second) in if n < 1 then 1 else n)"

definition decisions :: "'w sink option \<Rightarrow> string \<Rightarrow> 'w \<Rightarrow> 'w" where
  "decisions mt outcome = or_noop mt (CounterAdd ''http_rate_limit_decisions_total'' 1 (FromPairs [AString ''outcome'', AString outcome]))"

definition rate_limit :: "(string \<Rightarrow> ('w, decision) eff) \<Rightarrow> 'w sink option \<Rightarrow> 'w http \<Rightarrow> 'w http" where
  "rate_limit allowIP mt next = (\<lambda>(w, x).
     case allowIP (rq_ip x) w of
       (Inl e, w') \<Rightarrow> (case resp_AppError e x of (r, x') \<Rightarrow> (Done r, decisions mt ''backend_unavailable'' w', x'))
     | (Inr d, w') \<Rightarrow>
         if \<not> Allowed d then
           (let x1 = (if RetryAfter d > 0 then tell (SetHeader ''Retry-After'' (Itoa (retryAfterSeconds (RetryAfter d)))) x else x)
            in case resp_AppError (New CodeTooManyRequests ''too many requests; please slow down'' []) x1 of
                 (r, x') \<Rightarrow> (Done r, decisions mt ''rate_limited'' w', x'))
         else next (decisions mt ''allowed'' w', x))"

section \<open>Recovery\<close>

definition panicError :: "panic \<Rightarrow> error" where
  "panicError p = (case p of PanicError e \<Rightarrow> Errorf ''panic'' e | PanicValue v \<Rightarrow> Msg (''panic: '' @ v))"

text \<open>\<open>committed\<close> is \<^verbatim>\<open>responseCommitted\<close>, Echo's flag; \<open>stack\<close> is the text of the stack.\<close>

definition recovery :: "'w sink option \<Rightarrow> (exchange \<Rightarrow> bool) \<Rightarrow> string \<Rightarrow> 'w http \<Rightarrow> 'w http" where
  "recovery lg committed stack next = (\<lambda>s.
     case next s of
       (Done e, s') \<Rightarrow> (Done e, s')
     | (Panicked p, w, x) \<Rightarrow>
         if p = PanicError (Sentinel HttpErrAbortHandler) then (Panicked p, w, x)
         else
           let cause = panicError p;
               w1 = Log_Error (or_noop lg) ''HTTP panic recovered'' (Some cause)
                      (FromPairs [AString ''http.request.method'', AString (rq_method x),
                                  AString ''http.route'', AString (if rq_route x = [] then rq_path x else rq_route x),
                                  AString ''panic.stack'', AString stack]) w
           in if committed x
              then (Done (Some cause), w1, SetErrorOutcome x
                      \<lparr>OriginalError = Some cause, ApplicationErrorCode = CodeInternal, ApplicationErrorMessage = ''internal server error'',
                       DiagnosticDetails = None\<rparr>)
              else (case resp_Error (Some cause) CodeInternal ''internal server error'' [] x of (e, x') \<Rightarrow> (Done e, w1, x')))"

section \<open>Observability\<close>

record request_info =
  ri_method :: string
  ri_methodOriginal :: string
  ri_route :: string
  ri_urlPath :: string
  ri_urlScheme :: string

definition known_methods :: "string list" where
  "known_methods = [''CONNECT'', ''DELETE'', ''GET'', ''HEAD'', ''OPTIONS'', ''PATCH'', ''POST'', ''PUT'', ''QUERY'', ''TRACE'']"

definition normalizeRequestMethod :: "string \<Rightarrow> string \<times> string" where
  "normalizeRequestMethod m = (if m \<in> set known_methods then (m, []) else (''_OTHER'', m))"

definition newRequestInfo :: "exchange \<Rightarrow> request_info" where
  "newRequestInfo x =
     (let (m, orig) = normalizeRequestMethod (rq_method x) in
      \<lparr>ri_method = m, ri_methodOriginal = orig, ri_route = rq_route x, ri_urlPath = rq_path x,
       ri_urlScheme = (if rq_tls x then ''https'' else ''http'')\<rparr>)"

definition http_spanStartFields :: "request_info \<Rightarrow> fields" where
  "http_spanStartFields i =
     put_field_if (ri_route i \<noteq> []) ''http.route'' (AString (ri_route i))
       (put_field_if (ri_methodOriginal i \<noteq> []) ''http.request.method_original'' (AString (ri_methodOriginal i))
          (FromPairs [AString ''http.request.method'', AString (ri_method i), AString ''url.path'', AString (ri_urlPath i),
                      AString ''url.scheme'', AString (ri_urlScheme i)]))"

definition http_spanName :: "request_info \<Rightarrow> string" where
  "http_spanName i =
     (let m = (if ri_method i = ''_OTHER'' then ''HTTP'' else ri_method i) in
      if ri_route i = [] then m else m @ '' '' @ ri_route i)"

record app_error_info =
  ae_original :: "error option"
  ae_causeChain :: string
  ae_details :: string
  ae_code :: string
  ae_message :: string

record request_outcome =
  ro_request :: request_info
  ro_duration :: duration
  ro_status :: nat
  ro_appError :: app_error_info

text \<open>\<open>cs\<close> names gRPC codes in error texts; \<open>dstr\<close> is \<^verbatim>\<open>Details.String\<close>.\<close>

definition inspectApplicationError :: "(nat \<Rightarrow> string) \<Rightarrow> (fields \<Rightarrow> string) \<Rightarrow> exchange \<Rightarrow> app_error_info" where
  "inspectApplicationError cs dstr x =
     (case ErrorOutcomeFrom x of
        None \<Rightarrow> \<lparr>ae_original = None, ae_causeChain = [], ae_details = [], ae_code = [], ae_message = []\<rparr>
      | Some out \<Rightarrow> \<lparr>ae_original = OriginalError out, ae_causeChain = ErrorCauseChain cs (OriginalError out),
            ae_details = dstr (DiagnosticDetails out), ae_code = ApplicationErrorCode out, ae_message = ApplicationErrorMessage out\<rparr>)"

definition http_errorType :: "nat \<Rightarrow> string" where
  "http_errorType status = (if status < 500 then [] else Itoa (int status))"

definition put_app_error :: "app_error_info \<Rightarrow> fields \<Rightarrow> fields" where
  "put_app_error a f =
     put_field_if (ae_message a \<noteq> []) ''app.error.message'' (AString (ae_message a))
       (put_field_if (ae_code a \<noteq> []) ''app.error.code'' (AString (ae_code a))
          (put_field_if (ae_details a \<noteq> []) ''app.error.details'' (AString (ae_details a))
             (put_field_if (ae_causeChain a \<noteq> []) ''app.error.cause_chain'' (AString (ae_causeChain a)) f)))"

definition put_error_type :: "nat \<Rightarrow> fields \<Rightarrow> fields" where
  "put_error_type status f = put_field_if (http_errorType status \<noteq> []) ''error.type'' (AString (http_errorType status)) f"

definition access_log :: "'w sink \<Rightarrow> request_outcome \<Rightarrow> 'w \<Rightarrow> 'w" where
  "access_log lg out =
     (let i = ro_request out;
          f0 = FromPairs [AString ''http.request.method'', AString (ri_method i), AString ''url.path'', AString (ri_urlPath i),
                 AString ''url.scheme'', AString (ri_urlScheme i), AString ''http.response.status_code'', AInt (int (ro_status out)),
                 AString ''duration.ms'', AInt64 (Milliseconds (ro_duration out))];
          f1 = put_field_if (ri_methodOriginal i \<noteq> []) ''http.request.method_original'' (AString (ri_methodOriginal i)) f0;
          f2 = put_field_if (ri_route i \<noteq> []) ''http.route'' (AString (ri_route i)) f1;
          f = put_app_error (ro_appError out) (put_error_type (ro_status out) f2)
      in if ro_status out \<ge> 500 then Log_ErrorNoStack lg ''request completed'' (ae_original (ro_appError out)) f
         else Info lg ''request completed'' f)"

definition http_metricFields :: "request_info \<Rightarrow> nat \<Rightarrow> fields" where
  "http_metricFields i status =
     put_field_if (ri_route i \<noteq> []) ''http.route'' (AString (ri_route i))
       (FromPairs [AString ''http.request.method'', AString (ri_method i), AString ''http.response.status_code'', AInt (int status)])"

definition request_metrics :: "'w sink \<Rightarrow> request_outcome \<Rightarrow> 'w \<Rightarrow> 'w" where
  "request_metrics mt out w =
     (let f = http_metricFields (ro_request out) (ro_status out);
          w1 = mt (CounterAdd ''http_server_requests_total'' 1 f) w;
          w2 = mt (HistogramRecord ''http_server_request_duration_seconds'' (ro_duration out) f) w1
      in if ro_status out \<ge> 400 then mt (CounterAdd ''http_server_errors_total'' 1 f) w2 else w2)"

definition tracing_Finish :: "'w sink \<Rightarrow> request_outcome \<Rightarrow> 'w \<Rightarrow> 'w" where
  "tracing_Finish tr out w =
     (let f = put_app_error (ro_appError out) (put_error_type (ro_status out)
                (FromPairs [AString ''http.response.status_code'', AInt (int (ro_status out))]))
      in tr (SpanFinish (ae_original (ro_appError out)) None) (tr (SpanAttributes f) w))"

text \<open>
  \<open>resolve\<close> is \<^verbatim>\<open>echo.ResolveResponseStatus\<close>; \<open>enter\<close> is the context that extracting the parent
  and starting the span give; \<open>now\<close> reads the clock.
\<close>

record 'w http_telemetry =
  ht_tracer :: "'w sink"
  ht_log :: "'w sink"
  ht_meter :: "'w sink"

definition NewHTTPObservability :: "'w sink option \<Rightarrow> 'w sink option \<Rightarrow> 'w sink option \<Rightarrow> 'w http_telemetry" where
  "NewHTTPObservability tr lg mt = \<lparr>ht_tracer = or_noop tr, ht_log = or_noop lg, ht_meter = or_noop mt\<rparr>"

definition http_observability :: "'w http_telemetry \<Rightarrow> ('w \<Rightarrow> int) \<Rightarrow> (nat \<Rightarrow> string) \<Rightarrow> (fields \<Rightarrow> string) \<Rightarrow> (exchange \<Rightarrow> ctx) \<Rightarrow>
    (exchange \<Rightarrow> error option \<Rightarrow> nat) \<Rightarrow> 'w http \<Rightarrow> 'w http" where
  "http_observability t now cs dstr enter resolve next = (\<lambda>(w, x).
     let i = newRequestInfo x;
         w1 = ht_tracer t (SpanStart SpanServer ''http-server'' (http_spanName i) (http_spanStartFields i)) w;
         started = now w1
     in case next (w1, x\<lparr>rq_ctx := enter x\<rparr>) of
          (Panicked p, s) \<Rightarrow> (Panicked p, s)
        | (Done e, w2, x2) \<Rightarrow>
            let out = \<lparr>ro_request = i, ro_duration = now w2 - started, ro_status = resolve x2 e, ro_appError = inspectApplicationError cs dstr x2\<rparr>
            in (Done e, tracing_Finish (ht_tracer t) out (access_log (ht_log t) out (request_metrics (ht_meter t) out w2)), x2))"

section \<open>Lemmas\<close>

lemma retryAfterSeconds_bounds:
  "d \<le> retryAfterSeconds d * Second" "1 \<le> retryAfterSeconds d" "0 < d \<Longrightarrow> (retryAfterSeconds d - 1) * Second < d"
  by (simp_all add: retryAfterSeconds_def Let_def) linarith+

lemma resp_Error_calls [simp]:
  "rs_calls (snd (resp_Error e c m ds x)) = rs_calls x @ [WriteJSON (toHTTPStatus c) (ErrorPayload c m)]"
  "x_outcome (snd (resp_Error e c m ds x)) = Some \<lparr>OriginalError = e, ApplicationErrorCode = c, ApplicationErrorMessage = m,
     DiagnosticDetails = optionalDetails ds\<rparr>"
  "x_session (snd (resp_Error e c m ds x)) = x_session x"
  by (simp_all add: resp_Error_def writeError_def recordErrorOutcome_def)

lemma status_known [simp]:
  "toHTTPStatus CodeInternal = 500" "toHTTPStatus CodeTooManyRequests = 429" "toHTTPStatus CodeUnavailable = 503"
  "toHTTPStatus CodeTimeout = 504" "toHTTPStatus CodeUnauthorized = 401" "toHTTPStatus CodeInvalidRequestID = 400"
  "toHTTPStatus CodeInvalidQuery = 400"
  by (simp_all add: toHTTPStatus_def codeStatusMap_def)

text \<open>The errors of the limiter's usecase, and what they are answered with.\<close>

lemma AllowIP_error:
  assumes "AllowIP repo lg cfg errv ip w = (Inl e, w')"
  shows "(\<exists>m ds c. e = App (AppError CodeUnavailable m ds c)) \<or> (\<exists>m ds c. e = App (AppError CodeTooManyRequests m ds c))"
  using assms by (auto simp: AllowIP_def New_def Wrap_def elim!: attempt_cases split: if_splits)

lemma AllowIP_error_calls:
  assumes "AllowIP repo lg cfg errv ip w = (Inl e, w')"
  obtains c where "rs_calls (snd (resp_AppError e x)) = rs_calls x @ [c]"
    "c = WriteNoContent 499 \<or> (\<exists>st p. c = WriteJSON st p \<and> st \<in> {429, 503, 504})"
  using that AllowIP_error [OF assms] by (auto simp: resp_AppError_calls public_error_def)

text \<open>A refused request: the header, when there is a wait, and one 429.\<close>

lemma refused_calls:
  assumes "allow (rq_ip x) w = (Inr d, w1)" "\<not> Allowed d" "rate_limit allow mt next (w, x) = (r, w', x')"
  shows "\<exists>pre p. rs_calls x' = rs_calls x @ pre @ [WriteJSON 429 p] \<and>
    (if RetryAfter d > 0
     then \<exists>n. pre = [SetHeader ''Retry-After'' (Itoa n)] \<and> RetryAfter d \<le> n * Second \<and> (n - 1) * Second < RetryAfter d
     else pre = [])"
proof -
  let ?pre = "if RetryAfter d > 0 then [SetHeader ''Retry-After'' (Itoa (retryAfterSeconds (RetryAfter d)))] else []"
  let ?x1 = "if RetryAfter d > 0 then tell (SetHeader ''Retry-After'' (Itoa (retryAfterSeconds (RetryAfter d)))) x else x"
  let ?e = "New CodeTooManyRequests ''too many requests; please slow down'' []"
  have "x' = snd (resp_AppError ?e ?x1)"
    using assms by (simp add: rate_limit_def Let_def split: prod.splits if_splits)
  then have "rs_calls x' = rs_calls x @ ?pre @ [WriteJSON 429 (ErrorPayload CodeTooManyRequests ''too many requests; please slow down'')]"
    by (simp add: resp_AppError_calls public_error_def)
  moreover have "if RetryAfter d > 0
      then \<exists>n. ?pre = [SetHeader ''Retry-After'' (Itoa n)] \<and> RetryAfter d \<le> n * Second \<and> (n - 1) * Second < RetryAfter d else ?pre = []"
    using retryAfterSeconds_bounds(1,3) [of "RetryAfter d"] by auto
  ultimately show ?thesis
    by blast
qed

section \<open>Properties\<close>

text \<open>
  (C16) Recovery contains panics: the only panic that passes the middleware is the one that aborts the
  connection. Any other is answered with exactly one 500 and a fixed text when nothing was written
  yet, and returned as an error without touching the response otherwise; in both cases the cause is
  recorded for the telemetry. A handler that does not panic is not disturbed.
\<close>

theorem recovery_contains_panics:
  assumes "recovery lg committed stack next (w, x) = (r, w', x')"
  shows "(\<forall>p. r = Panicked p \<longrightarrow> p = PanicError (Sentinel HttpErrAbortHandler)) \<and>
    (case next (w, x) of
       (Done e, w1, x1) \<Rightarrow> r = Done e \<and> w' = w1 \<and> x' = x1
     | (Panicked p, w1, x1) \<Rightarrow> p \<noteq> PanicError (Sentinel HttpErrAbortHandler) \<longrightarrow>
         (if committed x1 then r = Done (Some (panicError p)) \<and> rs_calls x' = rs_calls x1
          else rs_calls x' = rs_calls x1 @ [WriteJSON 500 (ErrorPayload CodeInternal ''internal server error'')]) \<and>
         (\<exists>out. x_outcome x' = Some out \<and> OriginalError out = Some (panicError p) \<and> ApplicationErrorCode out = CodeInternal))"
proof (cases "next (w, x)")
  case (fields q w1 x1)
  show ?thesis
  proof (cases q)
    case (Done e)
    then show ?thesis
      using assms fields by (auto simp: recovery_def)
  next
    case (Panicked p)
    obtain e x2 where err: "resp_Error (Some (panicError p)) CodeInternal ''internal server error'' [] x1 = (e, x2)"
      by (cases "resp_Error (Some (panicError p)) CodeInternal ''internal server error'' [] x1")
    then have "rs_calls x2 = rs_calls x1 @ [WriteJSON 500 (ErrorPayload CodeInternal ''internal server error'')]"
      "x_outcome x2 = Some \<lparr>OriginalError = Some (panicError p), ApplicationErrorCode = CodeInternal,
         ApplicationErrorMessage = ''internal server error'', DiagnosticDetails = optionalDetails []\<rparr>"
      using resp_Error_calls [of "Some (panicError p)" CodeInternal "''internal server error''" "[]" x1] by simp_all
    then show ?thesis
      using assms fields Panicked err by (auto simp: recovery_def Let_def split: if_splits)
  qed
qed

definition get_request :: "string \<Rightarrow> exchange" where
  "get_request path = \<lparr>rq_method = ''GET'', rq_path = path, rq_route = path, rq_tls = False, rq_header = (\<lambda>_. []), rq_cookies = [],
     rq_params = [], rq_ip = ''10.0.0.1'', rq_content_length = 0, rq_has_body = False, rq_body_limit = None, rq_ctx = Background,
     rs_writer = Writer True, rs_calls = [], rs_faults = [], x_outcome = None, x_session = None\<rparr>"

theorem recovery_contains_panics_witness:
  "\<exists>r w' x'. recovery None (\<lambda>_. False) ''stack'' (\<lambda>s. (Panicked (PanicValue ''boom''), s)) ((), get_request ''/'') = (r, w', x') \<and>
     rs_calls x' = [WriteJSON 500 (ErrorPayload CodeInternal ''internal server error'')]"
proof -
  obtain r w' x' where run: "recovery None (\<lambda>_. False) ''stack'' (\<lambda>s. (Panicked (PanicValue ''boom''), s)) ((), get_request ''/'') = (r, w', x')"
    by (cases "recovery None (\<lambda>_. False) ''stack'' (\<lambda>s. (Panicked (PanicValue ''boom''), s)) ((), get_request ''/'')") auto
  show ?thesis
    using recovery_contains_panics [OF run] run by (simp add: get_request_def)
qed

text \<open>
  (C17) The rate limiter fails closed: the next handler runs only when the limiter answered and
  allowed the call. Otherwise one refusal is written, 429 when the limiter refused and 503, 504 or
  499 when it could not be asked, and a Retry-After header, when there is one, is not earlier than the
  wait the limiter asked for and less than a second later.
\<close>

theorem rate_limit_fails_closed:
  assumes "rate_limit (AllowIP repo lg cfg errv) mt next (w, x) = (r, w', x')"
  shows "(\<exists>d w1. AllowIP repo lg cfg errv (rq_ip x) w = (Inr d, w1) \<and> Allowed d \<and> (r, w', x') = next (decisions mt ''allowed'' w1, x)) \<or>
    (\<exists>e w1 c. AllowIP repo lg cfg errv (rq_ip x) w = (Inl e, w1) \<and> rs_calls x' = rs_calls x @ [c] \<and>
       (c = WriteNoContent 499 \<or> (\<exists>st p. c = WriteJSON st p \<and> st \<in> {429, 503, 504}))) \<or>
    (\<exists>d w1 pre p. AllowIP repo lg cfg errv (rq_ip x) w = (Inr d, w1) \<and> \<not> Allowed d \<and> rs_calls x' = rs_calls x @ pre @ [WriteJSON 429 p] \<and>
       (if RetryAfter d > 0
        then \<exists>n. pre = [SetHeader ''Retry-After'' (Itoa n)] \<and> RetryAfter d \<le> n * Second \<and> (n - 1) * Second < RetryAfter d
        else pre = []))"
proof (cases "AllowIP repo lg cfg errv (rq_ip x) w")
  case (Pair q w1)
  show ?thesis
  proof (cases q)
    case (Inl e)
    from Pair Inl have call: "AllowIP repo lg cfg errv (rq_ip x) w = (Inl e, w1)"
      by simp
    obtain c where c: "rs_calls (snd (resp_AppError e x)) = rs_calls x @ [c]"
      "c = WriteNoContent 499 \<or> (\<exists>st p. c = WriteJSON st p \<and> st \<in> {429, 503, 504})"
      by (rule AllowIP_error_calls [OF call])
    have "x' = snd (resp_AppError e x)"
      using assms Pair Inl by (simp add: rate_limit_def split: prod.splits)
    then have "AllowIP repo lg cfg errv (rq_ip x) w = (Inl e, w1) \<and> rs_calls x' = rs_calls x @ [c] \<and>
        (c = WriteNoContent 499 \<or> (\<exists>st p. c = WriteJSON st p \<and> st \<in> {429, 503, 504}))"
      using Pair Inl c by simp
    then show ?thesis
      by - (rule disjI2, rule disjI1, intro exI, assumption)
  next
    case (Inr d)
    show ?thesis
    proof (cases "Allowed d")
      case True
      then show ?thesis
        using assms Pair Inr by (simp add: rate_limit_def)
    next
      case False
      from Pair Inr have call: "AllowIP repo lg cfg errv (rq_ip x) w = (Inr d, w1)"
        by simp
      from refused_calls [OF call False assms] obtain pre p where "rs_calls x' = rs_calls x @ pre @ [WriteJSON 429 p]"
          "(if RetryAfter d > 0
           then \<exists>n. pre = [SetHeader ''Retry-After'' (Itoa n)] \<and> RetryAfter d \<le> n * Second \<and> (n - 1) * Second < RetryAfter d
           else pre = [])"
        by (elim exE conjE)
      with call False show ?thesis
        by - (rule disjI2, rule disjI2, intro exI, intro conjI, assumption+)
    qed
  qed
qed

theorem rate_limit_fails_closed_witness:
  "\<exists>r w' x' c. rate_limit (AllowIP \<lparr>tb_Allow = (\<lambda>_ _ _. fail (Sentinel ContextDeadlineExceeded))\<rparr> None \<lparr>Capacity = 1, RefillInterval = Second\<rparr> (\<lambda>_. AOther [])) None
       (\<lambda>s. (Done None, s)) ((), get_request ''/'') = (r, w', x') \<and> rs_calls x' = [c]"
proof -
  let ?allow = "AllowIP \<lparr>tb_Allow = (\<lambda>_ _ _. fail (Sentinel ContextDeadlineExceeded))\<rparr> None \<lparr>Capacity = 1, RefillInterval = Second\<rparr> (\<lambda>_. AOther [])"
  obtain r w' x' where run: "rate_limit ?allow None (\<lambda>s. (Done None, s)) ((), get_request ''/'') = (r, w', x')"
    by (cases "rate_limit ?allow None (\<lambda>s. (Done None, s)) ((), get_request ''/'')") auto
  show ?thesis
    using rate_limit_fails_closed [OF run] run by (auto simp: AllowIP_def get_request_def)
qed

text \<open>
  Only a valid request identifier enters the context: a request either is refused with 400
  (strict policy, invalid header), or reaches the next handler with the context's identifier
  unchanged, or with the single, valid value of the configured header; with a timeout configured and
  not skipped its deadline is no later than the timeout allows.
\<close>

theorem request_context_ids:
  assumes "request_context now cfg skip next (w, x) = (r, w', x')"
  shows "(rc_RejectInvalid cfg \<and> (\<exists>m. rs_calls x' = rs_calls x @ [WriteJSON 400 (ErrorPayload CodeInvalidRequestID m)]) \<and> w' = w) \<or>
    (\<exists>x1. (r, w', x') = next (w, x1) \<and>
       (ctx_request_id (rq_ctx x1) = ctx_request_id (rq_ctx x) \<or>
        (\<exists>i. rq_header x (rc_IncomingHeaderKey cfg) = [i] \<and> IsValidRequestID i \<and> RequestIDFromContext (rq_ctx x1) = i)) \<and>
       (rc_Timeout cfg > 0 \<and> skip = None \<longrightarrow> (\<exists>t\<le>now w + rc_Timeout cfg. ctx_deadline (rq_ctx x1) = Some t)))"
proof -
  let ?r = "incomingRequestID x (rc_IncomingHeaderKey cfg)"
  have id: "rq_header x (rc_IncomingHeaderKey cfg) = [i] \<and> IsValidRequestID i" if "?r = Inr i" "i \<noteq> []" for i
    using that by (cases "rq_header x (rc_IncomingHeaderKey cfg)") (auto simp: incomingRequestID_def Let_def split: if_splits)
  show ?thesis
  proof (cases "isl ?r \<and> rc_RejectInvalid cfg")
    case True
    let ?m = "rc_IncomingHeaderKey cfg @ '' must be one value of 1-128 characters from [a-zA-Z0-9._-]''"
    obtain e x2 where err: "resp_Error (Some (projl ?r)) CodeInvalidRequestID ?m [] x = (e, x2)"
      by (cases "resp_Error (Some (projl ?r)) CodeInvalidRequestID ?m [] x")
    then have "rs_calls x2 = rs_calls x @ [WriteJSON 400 (ErrorPayload CodeInvalidRequestID ?m)]"
      using resp_Error_calls(1) [of "Some (projl ?r)" CodeInvalidRequestID ?m "[]" x] by simp
    moreover have "w' = w" "x' = x2"
      using assms True err by (simp_all add: request_context_def Let_def)
    ultimately show ?thesis
      using True by blast
  next
    case False
    let ?ok = "is_ok ?r \<and> projr ?r \<noteq> []"
    let ?x1 = "if ?ok \<and> rc_ResponseHeaderKey cfg \<noteq> [] then tell (SetHeader (rc_ResponseHeaderKey cfg) (projr ?r)) x else x"
    let ?c1 = "if ?ok then WithRequestID (rq_ctx x) (projr ?r) else rq_ctx x"
    define c2 where "c2 = (if rc_Timeout cfg > 0 \<and> (case skip of None \<Rightarrow> True | Some f \<Rightarrow> \<not> f ?x1)
      then WithTimeout ?c1 (now w) (rc_Timeout cfg) else ?c1)"
    define y where "y = ?x1\<lparr>rq_ctx := c2\<rparr>"
    have y: "rq_ctx y = c2"
      by (simp add: y_def)
    have "(r, w', x') = next (w, y)"
      using assms False unfolding request_context_def Let_def y_def c2_def by (simp split: if_splits)
    moreover have "ctx_request_id (rq_ctx y) = ctx_request_id (rq_ctx x) \<or>
        (\<exists>i. rq_header x (rc_IncomingHeaderKey cfg) = [i] \<and> IsValidRequestID i \<and> RequestIDFromContext (rq_ctx y) = i)"
      using id [of "projr ?r"] unfolding y c2_def by (auto simp: WithTimeout_def WithRequestID_def RequestIDFromContext_def)
    moreover have "rc_Timeout cfg > 0 \<and> skip = None \<longrightarrow> (\<exists>t\<le>now w + rc_Timeout cfg. ctx_deadline (rq_ctx y) = Some t)"
      unfolding y c2_def by (auto simp: WithTimeout_def split: option.split)
    ultimately show ?thesis
      by blast
  qed
qed

theorem request_context_ids_witness:
  "\<exists>r w' x'. request_context (\<lambda>_. 0) \<lparr>rc_Timeout = Second, rc_IncomingHeaderKey = ''X-Request-Id'', rc_ResponseHeaderKey = [], rc_RejectInvalid = False\<rparr> None
      (\<lambda>s. (Done None, s)) ((), (get_request ''/'')\<lparr>rq_header := (\<lambda>_. [''a-1''])\<rparr>) = (r, w', x') \<and> r = Done None \<and>
    (\<exists>t\<le>Second. ctx_deadline (rq_ctx x') = Some t)"
proof -
  let ?run = "request_context (\<lambda>_. 0) \<lparr>rc_Timeout = Second, rc_IncomingHeaderKey = ''X-Request-Id'', rc_ResponseHeaderKey = [], rc_RejectInvalid = False\<rparr> None
      (\<lambda>s. (Done None, s)) ((), (get_request ''/'')\<lparr>rq_header := (\<lambda>_. [''a-1''])\<rparr>)"
  obtain r w' x' where run: "?run = (r, w', x')"
    by (cases ?run) auto
  show ?thesis
    using request_context_ids [OF run] run by auto
qed

text \<open>The keys a metric of the HTTP server may carry.\<close>

definition metric_keys :: "string set" where
  "metric_keys = {''http.request.method'', ''http.response.status_code'', ''http.route''}"

lemma dom_FromPairs2:
  "k1 \<noteq> [] \<Longrightarrow> k2 \<noteq> [] \<Longrightarrow> k1 \<noteq> k2 \<Longrightarrow> FromPairs [AString k1, v1, AString k2, v2] = Some [(k1, v1), (k2, v2)]"
  by (simp add: FromPairs_def nil_if_empty_def)

lemma metricFields_bounded:
  "dom (lookup_field (http_metricFields i s)) \<subseteq> metric_keys"
  "lookup_field (http_metricFields i s) ''http.request.method'' = Some (AString (ri_method i))"
  by (auto simp: http_metricFields_def dom_FromPairs2 metric_keys_def put_field_if_def put_field_def update_conv' split: if_splits)

lemma newRequestInfo_method: "ri_method (newRequestInfo x) \<in> insert ''_OTHER'' (set known_methods)"
  by (simp add: newRequestInfo_def normalizeRequestMethod_def)



end
