(* ===== verification/Grpc_Server.thy ===== *)
theory Grpc_Server
  imports Http_Middleware
begin

text \<open>
  The gRPC delivery: \<^verbatim>\<open>internal/delivery/grpc/response\<close>, the interceptors under
  \<^verbatim>\<open>internal/delivery/grpc/interceptor\<close>, \<^verbatim>\<open>internal/util/grpcmetadata\<close>,
  \<^verbatim>\<open>internal/observability/grpcsemconv\<close>, the certificate policy of
  \<^verbatim>\<open>internal/infra/security/calleridentity\<close>, the diagnostics service, and the order in which
  \<^verbatim>\<open>grpcapi_server_wiring.go\<close> chains them. What gRPC itself provides (the status of an error, the
  peer of a connection, response headers) is a parameter.
\<close>

section \<open>internal/delivery/grpc/response\<close>

definition appCodeToGRPCCode :: "(code \<times> grpc_code) list" where
  "appCodeToGRPCCode = [(CodeInvalidArgument, InvalidArgument), (CodeUnauthorized, Unauthenticated), (CodeForbidden, PermissionDenied),
     (CodeNotFound, NotFound), (CodeConflict, AlreadyExists), (CodeTooManyRequests, ResourceExhausted), (CodeUnavailable, Unavailable),
     (CodeTimeout, DeadlineExceeded), (CodeInternal, Internal)]"

definition grpc_Error :: "error option \<Rightarrow> grpc_code \<Rightarrow> string \<Rightarrow> error" where
  "grpc_Error cause c message = Response cause c message"

definition grpc_AppError :: "error option \<Rightarrow> error option" where
  "grpc_AppError err = (case err of None \<Rightarrow> None | Some e \<Rightarrow> Some
     (if errors_Is e ContextCanceled then grpc_Error err Canceled (sentinel_text ContextCanceled)
      else if errors_Is e ContextDeadlineExceeded then grpc_Error err DeadlineExceeded (sentinel_text ContextDeadlineExceeded)
      else case As e of
          None \<Rightarrow> grpc_Error err Internal ''internal server error''
        | Some a \<Rightarrow> (case map_of appCodeToGRPCCode (Code a) of
             None \<Rightarrow> grpc_Error err Internal ''internal server error''
           | Some c \<Rightarrow> grpc_Error err c (Message a))))"

section \<open>internal/util/grpcmetadata\<close>

definition isKeyCharacter :: "char \<Rightarrow> bool" where
  "isKeyCharacter c \<longleftrightarrow> (CHR ''a'' \<le> c \<and> c \<le> CHR ''z'') \<or> (CHR ''0'' \<le> c \<and> c \<le> CHR ''9'') \<or> c = CHR ''-'' \<or> c = CHR ''_'' \<or> c = CHR ''.''"

definition NormalizeKey :: "string \<Rightarrow> error + string" where
  "NormalizeKey k =
     (let key = ToLower (TrimSpace k) in
      if key = [] then Inr []
      else if HasPrefix key ''grpc-'' then Inl (Msg (''metadata key '' @ Quote key @ '' uses the reserved grpc- prefix''))
      else if list_all isKeyCharacter key then Inr key
      else Inl (Msg (''metadata key '' @ Quote key @ '' must contain only letters, digits, hyphens, underscores, or periods'')))"

text \<open>\<^verbatim>\<open>metadata.MD.Get\<close>.\<close>

definition md_Get :: "metadata \<Rightarrow> string \<Rightarrow> string list" where
  "md_Get md k = (case map_of md (ToLower k) of None \<Rightarrow> [] | Some vs \<Rightarrow> vs)"

section \<open>Handlers\<close>

text \<open>
  A handler receives the context and either returns a response and an error, each possibly nil, or
  panics. A streaming handler returns an error only: it is a handler whose response is nil.
\<close>

datatype 'a rpc_result = Returned "'a option" "error option" | Crashed panic

type_synonym ('w, 'a) rpc = "ctx \<Rightarrow> 'w \<Rightarrow> 'a rpc_result \<times> 'w"

definition refuse :: "error \<Rightarrow> 'w \<Rightarrow> 'a rpc_result \<times> 'w" where
  "refuse e w = (Returned None (Some e), w)"

section \<open>Request context\<close>

record rpc_context_config =
  xc_Timeout :: duration
  xc_IncomingMetadataKey :: string
  xc_ResponseMetadataKey :: string
  xc_RejectInvalid :: bool

definition NewRequestContext :: "rpc_context_config \<Rightarrow> error + rpc_context_config" where
  "NewRequestContext cfg =
     (case NormalizeKey (xc_IncomingMetadataKey cfg) of
        Inl e \<Rightarrow> Inl (Errorf ''normalize incoming request ID metadata key'' e)
      | Inr incoming \<Rightarrow> (case NormalizeKey (xc_ResponseMetadataKey cfg) of
           Inl e \<Rightarrow> Inl (Errorf ''normalize response request ID metadata key'' e)
         | Inr response \<Rightarrow> Inr (cfg\<lparr>xc_IncomingMetadataKey := incoming, xc_ResponseMetadataKey := response\<rparr>)))"

definition rpc_incomingRequestID :: "ctx \<Rightarrow> string \<Rightarrow> error + string" where
  "rpc_incomingRequestID c key =
     (if key = [] then Inr []
      else case ctx_incoming c of None \<Rightarrow> Inr []
      | Some md \<Rightarrow> let values = md_Get md key in
          if values = [] \<or> values = [[]] then Inr []
          else if length values \<noteq> 1 \<or> \<not> IsValidRequestID (hd values) then Inl (Msg (''invalid '' @ key @ '' metadata: '' @ quoted_list values))
          else Inr (hd values))"

definition context_enrich :: "rpc_context_config \<Rightarrow> ctx \<Rightarrow> error + (ctx \<times> string)" where
  "context_enrich cfg c =
     (case rpc_incomingRequestID c (xc_IncomingMetadataKey cfg) of
        Inl e \<Rightarrow>
          if xc_RejectInvalid cfg
          then Inl (grpc_Error (Some e) InvalidArgument (xc_IncomingMetadataKey cfg @ '' must be one value of 1-128 characters from [a-zA-Z0-9._-]''))
          else Inr (c, [])
      | Inr i \<Rightarrow> if i = [] then Inr (c, []) else Inr (WithRequestID c i, i))"

text \<open>\<open>set_header\<close> is \<^verbatim>\<open>grpc.SetHeader\<close>, or the stream's method; \<open>now\<close> reads the clock.\<close>

definition echo_id :: "(metadata \<Rightarrow> 'w \<Rightarrow> error option \<times> 'w) \<Rightarrow> rpc_context_config \<Rightarrow> string \<Rightarrow> 'w \<Rightarrow> error option \<times> 'w" where
  "echo_id set_header cfg i w =
     (if xc_ResponseMetadataKey cfg \<noteq> [] \<and> i \<noteq> [] then set_header [(xc_ResponseMetadataKey cfg, [i])] w else (None, w))"

definition requestContext_Unary :: "('w \<Rightarrow> int) \<Rightarrow> (metadata \<Rightarrow> 'w \<Rightarrow> error option \<times> 'w) \<Rightarrow> rpc_context_config \<Rightarrow> ('w, 'a) rpc \<Rightarrow> ('w, 'a) rpc" where
  "requestContext_Unary now set_header cfg handler c w =
     (case context_enrich cfg c of
        Inl e \<Rightarrow> refuse e w
      | Inr (c1, i) \<Rightarrow> (case echo_id set_header cfg i w of
           (Some e, w1) \<Rightarrow> refuse (grpc_Error (Some e) Internal ''internal server error'') w1
         | (None, w1) \<Rightarrow> handler (if xc_Timeout cfg > 0 then WithTimeout c1 (now w1) (xc_Timeout cfg) else c1) w1))"

definition requestContext_Stream :: "(metadata \<Rightarrow> 'w \<Rightarrow> error option \<times> 'w) \<Rightarrow> rpc_context_config \<Rightarrow> ('w, 'a) rpc \<Rightarrow> ('w, 'a) rpc" where
  "requestContext_Stream set_header cfg handler c w =
     (case context_enrich cfg c of
        Inl e \<Rightarrow> refuse e w
      | Inr (c1, i) \<Rightarrow> (case echo_id set_header cfg i w of
           (Some e, w1) \<Rightarrow> refuse (grpc_Error (Some e) Internal ''internal server error'') w1
         | (None, w1) \<Rightarrow> handler c1 w1))"

section \<open>Caller identity\<close>

text \<open>
  What the policy reads of a certificate: its URI names, each possibly nil. What gRPC knows of a peer:
  the verified chains of its TLS handshake, by value or by pointer, or some other credentials.
\<close>

record certificate =
  URIs :: "string option list"

datatype auth_info = TLSInfo "certificate list list" | TLSInfoPointer "certificate list list option" | OtherAuthInfo

definition URICertificateExtractor_Extract :: "certificate option \<Rightarrow> error + identity" where
  "URICertificateExtractor_Extract cert = (case cert of
      None \<Rightarrow> Inl (Msg ''client certificate is missing'')
    | Some c \<Rightarrow> (case URIs c of
         [Some u] \<Rightarrow> if u = [] then Inl (Msg ''client certificate must contain exactly one URI SAN'')
                     else Inr \<lparr>Subject = u, AuthenticationType = AuthenticationTypeMTLS\<rparr>
       | _ \<Rightarrow> Inl (Msg ''client certificate must contain exactly one URI SAN'')))"

definition verifiedClientCertificate :: "auth_info option option \<Rightarrow> certificate option" where
  "verifiedClientCertificate peer =
     (case peer of None \<Rightarrow> None | Some None \<Rightarrow> None | Some (Some info) \<Rightarrow>
        (case (case info of TLSInfo cs \<Rightarrow> Some cs | TLSInfoPointer p \<Rightarrow> p | OtherAuthInfo \<Rightarrow> None) of
           None \<Rightarrow> None
         | Some paths \<Rightarrow> (case paths of (c # _) # _ \<Rightarrow> Some c | _ \<Rightarrow> None)))"

definition identity_enrich :: "(certificate option \<Rightarrow> error + identity) \<Rightarrow> auth_info option option \<Rightarrow> ctx \<Rightarrow> error + ctx" where
  "identity_enrich extract peer c = (case verifiedClientCertificate peer of
      None \<Rightarrow> Inr c
    | Some cert \<Rightarrow> (case extract (Some cert) of
         Inl e \<Rightarrow> Inl (grpc_Error (Some e) Unauthenticated ''client certificate has no usable identity'')
       | Inr i \<Rightarrow> Inr (WithIdentity c i)))"

text \<open>The unary and the streaming interceptor differ only in how they pass the context on.\<close>

definition callerIdentity :: "(certificate option \<Rightarrow> error + identity) \<Rightarrow> auth_info option option \<Rightarrow> ('w, 'a) rpc \<Rightarrow> ('w, 'a) rpc" where
  "callerIdentity extract peer handler c w =
     (case identity_enrich extract peer c of Inl e \<Rightarrow> refuse e w | Inr c1 \<Rightarrow> handler c1 w)"

section \<open>Recovery\<close>

definition rpc_panicError :: "panic \<Rightarrow> error" where
  "rpc_panicError p = (case p of PanicError e \<Rightarrow> Errorf ''panic'' e | PanicValue v \<Rightarrow> Msg (''panic: '' @ v))"

definition rpc_recovered :: "string \<Rightarrow> 'w sink \<Rightarrow> string \<Rightarrow> string \<Rightarrow> ('w, 'a) rpc \<Rightarrow> ('w, 'a) rpc" where
  "rpc_recovered message lg stack fullMethod handler c w =
     (case handler c w of
        (Returned r e, w1) \<Rightarrow> (Returned r e, w1)
      | (Crashed p, w1) \<Rightarrow>
          let cause = rpc_panicError p;
              w2 = Log_Error lg message (Some cause) (FromPairs [AString ''rpc.method'', AString fullMethod, AString ''panic.stack'', AString stack]) w1
          in refuse (grpc_Error (Some cause) Internal ''internal server error'') w2)"

definition recovery_Unary :: "'w sink option \<Rightarrow> string \<Rightarrow> string \<Rightarrow> ('w, 'a) rpc \<Rightarrow> ('w, 'a) rpc" where
  "recovery_Unary lg = rpc_recovered ''gRPC panic recovered'' (or_noop lg)"

definition recovery_Stream :: "'w sink option \<Rightarrow> string \<Rightarrow> string \<Rightarrow> ('w, 'a) rpc \<Rightarrow> ('w, 'a) rpc" where
  "recovery_Stream lg = rpc_recovered ''gRPC stream panic recovered'' (or_noop lg)"

section \<open>internal/observability/grpcsemconv\<close>

definition NormalizeMethod :: "string \<Rightarrow> string" where
  "NormalizeMethod m = TrimPrefix m ''/''"

definition statusNames :: "string list" where
  "statusNames = [''OK'', ''CANCELLED'', ''UNKNOWN'', ''INVALID_ARGUMENT'', ''DEADLINE_EXCEEDED'', ''NOT_FOUND'', ''ALREADY_EXISTS'',
     ''PERMISSION_DENIED'', ''RESOURCE_EXHAUSTED'', ''FAILED_PRECONDITION'', ''ABORTED'', ''OUT_OF_RANGE'', ''UNIMPLEMENTED'', ''INTERNAL'',
     ''UNAVAILABLE'', ''DATA_LOSS'', ''UNAUTHENTICATED'']"

definition StatusName :: "grpc_code \<Rightarrow> string" where
  "StatusName c = (if c < length statusNames then statusNames ! c else Itoa (int c))"

definition ClientErrorType :: "grpc_code \<Rightarrow> string" where
  "ClientErrorType c = (if c = OK then [] else StatusName c)"

definition ServerErrorType :: "grpc_code \<Rightarrow> string" where
  "ServerErrorType c = (if c \<in> {Unknown, DeadlineExceeded, Unimplemented, Internal, Unavailable, DataLoss} then StatusName c else [])"

section \<open>Observability\<close>

record rpc_info =
  pi_method :: string
  pi_callType :: string

definition newRPCInfo :: "string \<Rightarrow> string \<Rightarrow> rpc_info" where
  "newRPCInfo fullMethod callType = \<lparr>pi_method = NormalizeMethod fullMethod, pi_callType = callType\<rparr>"

definition rpc_spanStartFields :: "rpc_info \<Rightarrow> fields" where
  "rpc_spanStartFields i = FromPairs [AString ''rpc.system.name'', AString ''grpc'', AString ''rpc.method'', AString (pi_method i),
     AString ''app.rpc.call_type'', AString (pi_callType i)]"

definition streamType :: "bool \<Rightarrow> bool \<Rightarrow> string" where
  "streamType isClientStream isServerStream =
     (if isClientStream \<and> isServerStream then ''bidi_stream'' else if isClientStream then ''client_stream'' else ''server_stream'')"

text \<open>
  The status gRPC gives an error: its code and message. \<open>as_response\<close> is the search for an error with
  both a status and a cause, of which the responder's is the only one.
\<close>

record grpc_status =
  status_Code :: "error option \<Rightarrow> grpc_code"
  status_Message :: "error \<Rightarrow> string"

definition as_response :: "error \<Rightarrow> (error option \<times> grpc_code \<times> string) option" where
  "as_response e = (case e of Response x c m \<Rightarrow> Some (x, c, m) | _ \<Rightarrow> None)"

definition originalRPCError :: "error \<Rightarrow> error" where
  "originalRPCError e = (case first_match as_response e of Some (Some cause, _) \<Rightarrow> cause | _ \<Rightarrow> e)"

definition rpc_inspectApplicationError :: "grpc_status \<Rightarrow> (nat \<Rightarrow> string) \<Rightarrow> (fields \<Rightarrow> string) \<Rightarrow> error option \<Rightarrow> app_error_info" where
  "rpc_inspectApplicationError st cs dstr err = (case err of
      None \<Rightarrow> \<lparr>ae_original = None, ae_causeChain = [], ae_details = [], ae_code = [], ae_message = []\<rparr>
    | Some e \<Rightarrow> let original = originalRPCError e in
        \<lparr>ae_original = Some original, ae_causeChain = ErrorCauseChain cs (Some original),
         ae_details = (case As original of Some a \<Rightarrow> if len_fields (Details a) > 0 then dstr (Details a) else [] | None \<Rightarrow> []),
         ae_code = (case As original of Some a \<Rightarrow> Code a | None \<Rightarrow> []),
         ae_message = status_Message st e\<rparr>)"

record rpc_outcome =
  po_rpc :: rpc_info
  po_duration :: duration
  po_status :: grpc_code
  po_handlerError :: "error option"
  po_appError :: app_error_info

definition newRPCOutcome :: "grpc_status \<Rightarrow> (nat \<Rightarrow> string) \<Rightarrow> (fields \<Rightarrow> string) \<Rightarrow> rpc_info \<Rightarrow> duration \<Rightarrow> error option \<Rightarrow> rpc_outcome" where
  "newRPCOutcome st cs dstr rpc d e = \<lparr>po_rpc = rpc, po_duration = d, po_status = status_Code st e, po_handlerError = e,
     po_appError = rpc_inspectApplicationError st cs dstr e\<rparr>"

definition put_identity :: "ctx \<Rightarrow> fields \<Rightarrow> fields" where
  "put_identity c f = (case FromContext c of None \<Rightarrow> f
     | Some i \<Rightarrow> put_field ''app.caller.authentication_type'' (AString (AuthenticationType i)) (put_field ''app.caller.id'' (AString (Subject i)) f))"

definition rpc_access_log :: "'w sink \<Rightarrow> ctx \<Rightarrow> rpc_outcome \<Rightarrow> 'w \<Rightarrow> 'w" where
  "rpc_access_log lg c out =
     (let et = ServerErrorType (po_status out);
          f0 = FromPairs [AString ''rpc.system.name'', AString ''grpc'', AString ''rpc.method'', AString (pi_method (po_rpc out)),
                 AString ''app.rpc.call_type'', AString (pi_callType (po_rpc out)),
                 AString ''rpc.response.status_code'', AString (StatusName (po_status out)),
                 AString ''duration.ms'', AInt64 (Milliseconds (po_duration out))];
          f = put_app_error (po_appError out) (put_field_if (et \<noteq> []) ''error.type'' (AString et) (put_identity c f0))
      in if et \<noteq> [] then Log_ErrorNoStack lg ''request completed'' (ae_original (po_appError out)) f else Info lg ''request completed'' f)"

definition rpc_metricFields :: "rpc_info \<Rightarrow> string \<Rightarrow> fields" where
  "rpc_metricFields i status = MergeFields [rpc_spanStartFields i, FromPairs [AString ''rpc.response.status_code'', AString status]]"

definition rpc_metrics_Record :: "'w sink \<Rightarrow> rpc_outcome \<Rightarrow> 'w \<Rightarrow> 'w" where
  "rpc_metrics_Record mt out w =
     (let f = rpc_metricFields (po_rpc out) (StatusName (po_status out));
          w1 = mt (CounterAdd ''grpc_server_requests_total'' 1 f) w;
          w2 = mt (HistogramRecord ''grpc_server_request_duration_seconds'' (po_duration out) f) w1
      in if po_status out \<noteq> OK then mt (CounterAdd ''grpc_server_errors_total'' 1 f) w2 else w2)"

definition StreamStarted :: "'w sink \<Rightarrow> rpc_info \<Rightarrow> 'w \<Rightarrow> 'w" where
  "StreamStarted mt i = mt (UpDownAdd ''grpc_server_active_streams'' 1 (rpc_spanStartFields i))"

definition StreamFinished :: "'w sink \<Rightarrow> rpc_outcome \<Rightarrow> 'w \<Rightarrow> 'w" where
  "StreamFinished mt out w = rpc_metrics_Record mt out (mt (UpDownAdd ''grpc_server_active_streams'' (- 1) (rpc_spanStartFields (po_rpc out))) w)"

text \<open>\<open>enter\<close> is the context that extracting the parent and starting the span give; it keeps the caller identity.\<close>

definition rpc_tracing_Start :: "'w sink \<Rightarrow> ctx \<Rightarrow> rpc_info \<Rightarrow> 'w \<Rightarrow> 'w" where
  "rpc_tracing_Start tr c i = tr (SpanStart SpanServer ''grpc-server'' (pi_method i) (put_identity c (rpc_spanStartFields i)))"

definition rpc_tracing_Finish :: "'w sink \<Rightarrow> rpc_outcome \<Rightarrow> 'w \<Rightarrow> 'w" where
  "rpc_tracing_Finish tr out w =
     (let et = ServerErrorType (po_status out);
          f = put_app_error (po_appError out) (put_field_if (et \<noteq> []) ''error.type'' (AString et)
                (FromPairs [AString ''rpc.response.status_code'', AString (StatusName (po_status out))]))
      in tr (SpanFinish (po_handlerError out) None) (tr (SpanAttributes f) w))"

text \<open>
  A panic of the handler passes through: nothing is recorded, as nothing is deferred. That is why the
  wiring puts the recovery inside.
\<close>

definition observability_Unary :: "'w http_telemetry \<Rightarrow> ('w \<Rightarrow> int) \<Rightarrow> grpc_status \<Rightarrow> (nat \<Rightarrow> string) \<Rightarrow> (fields \<Rightarrow> string) \<Rightarrow> (ctx \<Rightarrow> ctx) \<Rightarrow>
    string \<Rightarrow> ('w, 'a) rpc \<Rightarrow> ('w, 'a) rpc" where
  "observability_Unary t now st cs dstr enter fullMethod handler c w =
     (let rpc = newRPCInfo fullMethod ''unary'';
          w1 = rpc_tracing_Start (ht_tracer t) c rpc w;
          started = now w1
      in case handler (enter c) w1 of
           (Crashed p, w2) \<Rightarrow> (Crashed p, w2)
         | (Returned r e, w2) \<Rightarrow>
             let out = newRPCOutcome st cs dstr rpc (now w2 - started) e
             in (Returned r e, rpc_tracing_Finish (ht_tracer t) out (rpc_access_log (ht_log t) (enter c) out (rpc_metrics_Record (ht_meter t) out w2))))"

definition observability_Stream :: "'w http_telemetry \<Rightarrow> ('w \<Rightarrow> int) \<Rightarrow> grpc_status \<Rightarrow> (nat \<Rightarrow> string) \<Rightarrow> (fields \<Rightarrow> string) \<Rightarrow> (ctx \<Rightarrow> ctx) \<Rightarrow>
    string \<Rightarrow> bool \<Rightarrow> bool \<Rightarrow> ('w, 'a) rpc \<Rightarrow> ('w, 'a) rpc" where
  "observability_Stream t now st cs dstr enter fullMethod isClient isServer handler c w =
     (let rpc = newRPCInfo fullMethod (streamType isClient isServer);
          w1 = rpc_tracing_Start (ht_tracer t) c rpc w;
          started = now w1
      in case handler (enter c) (StreamStarted (ht_meter t) rpc w1) of
           (Crashed p, w2) \<Rightarrow> (Crashed p, w2)
         | (Returned r e, w2) \<Rightarrow>
             let out = newRPCOutcome st cs dstr rpc (now w2 - started) e
             in (Returned r e, rpc_tracing_Finish (ht_tracer t) out (rpc_access_log (ht_log t) (enter c) out (StreamFinished (ht_meter t) out w2))))"

section \<open>The diagnostics service\<close>

datatype health_status = HEALTH_STATUS_UNSPECIFIED | HEALTH_STATUS_UP | HEALTH_STATUS_DOWN | HEALTH_STATUS_SKIPPED

record get_health_response =
  gh_Healthy :: bool
  gh_Database :: "health_status \<times> string option \<times> bool option \<times> int option"
  gh_Cache :: health_status
  gh_KvStore :: health_status

text \<open>The request's mode by its protobuf number: 0 unspecified, 1 live, 2 ready; other numbers can arrive.\<close>

definition toCheckMode :: "int \<Rightarrow> error + string" where
  "toCheckMode m = (if m = 0 \<or> m = 2 then Inr CheckModeReady else if m = 1 then Inr CheckModeLive
     else Inl (Msg (''unsupported health check mode: '' @ Itoa m)))"

definition toHealthStatus :: "string \<Rightarrow> health_status" where
  "toHealthStatus s = (if s = ''up'' then HEALTH_STATUS_UP else if s = ''down'' then HEALTH_STATUS_DOWN
     else if s = ''skipped'' then HEALTH_STATUS_SKIPPED else HEALTH_STATUS_UNSPECIFIED)"

definition diagnostics_toResponse :: "health_result \<Rightarrow> bool \<Rightarrow> get_health_response" where
  "diagnostics_toResponse r healthy =
     \<lparr>gh_Healthy = healthy,
      gh_Database = (let d = hr_Database r in
        if hd_Status d = ''up'' then (toHealthStatus (hd_Status d), Some (hd_Name d), Some (hd_InRecovery d), Some (hd_UptimeSeconds d))
        else (toHealthStatus (hd_Status d), None, None, None)),
      gh_Cache = toHealthStatus (hr_Cache r), gh_KvStore = toHealthStatus (hr_KVStore r)\<rparr>"

definition Diagnostics_GetHealth :: "(string \<Rightarrow> ('w, health_result) check) \<Rightarrow> (nat \<Rightarrow> string) \<Rightarrow> int \<Rightarrow> ('w, get_health_response) rpc" where
  "Diagnostics_GetHealth check cs m c w = (case toCheckMode m of
      Inl e \<Rightarrow> refuse (grpc_Error (Some e) InvalidArgument (Error_text cs e)) w
    | Inr mode \<Rightarrow> (case check mode w of
         (Inr res, w1) \<Rightarrow> (Returned (Some (diagnostics_toResponse res True)) None, w1)
       | (Inl (res, e), w1) \<Rightarrow>
           if errors_Is e ContextCanceled \<or> errors_Is e ContextDeadlineExceeded then (Returned None (grpc_AppError (Some e)), w1)
           else (case As e of
               None \<Rightarrow> (Returned None (grpc_AppError (Some e)), w1)
             | Some a \<Rightarrow> if Code a \<noteq> CodeUnavailable then (Returned None (grpc_AppError (Some e)), w1)
                 else (Returned (Some (diagnostics_toResponse res False)) None, w1))))"

section \<open>The chains of the wired server\<close>

text \<open>
  Outermost to innermost, as \<^verbatim>\<open>buildServer\<close> lists them. \<open>mtls\<close> is the condition of the wiring, TLS enabled
  with a client CA; without it there is no identity interceptor.
\<close>

record 'w chain_env =
  ce_telemetry :: "'w http_telemetry"
  ce_now :: "'w \<Rightarrow> int"
  ce_status :: grpc_status
  ce_codeString :: "nat \<Rightarrow> string"
  ce_detailsString :: "fields \<Rightarrow> string"
  ce_enter :: "ctx \<Rightarrow> ctx"
  ce_setHeader :: "metadata \<Rightarrow> 'w \<Rightarrow> error option \<times> 'w"
  ce_peer :: "auth_info option option"
  ce_stack :: string

definition with_identity :: "bool \<Rightarrow> 'w chain_env \<Rightarrow> ('w, 'a) rpc \<Rightarrow> ('w, 'a) rpc" where
  "with_identity mtls ce next = (if mtls then callerIdentity URICertificateExtractor_Extract (ce_peer ce) next else next)"

definition unary_chain :: "bool \<Rightarrow> rpc_context_config \<Rightarrow> 'w chain_env \<Rightarrow> string \<Rightarrow> ('w, 'a) rpc \<Rightarrow> ('w, 'a) rpc" where
  "unary_chain mtls cfg ce method handler =
     requestContext_Unary (ce_now ce) (ce_setHeader ce) cfg
       (with_identity mtls ce
         (observability_Unary (ce_telemetry ce) (ce_now ce) (ce_status ce) (ce_codeString ce) (ce_detailsString ce) (ce_enter ce) method
           (recovery_Unary (Some (ht_log (ce_telemetry ce))) (ce_stack ce) method handler)))"

definition stream_chain :: "bool \<Rightarrow> rpc_context_config \<Rightarrow> 'w chain_env \<Rightarrow> string \<Rightarrow> bool \<Rightarrow> bool \<Rightarrow> ('w, 'a) rpc \<Rightarrow> ('w, 'a) rpc" where
  "stream_chain mtls cfg ce method isClient isServer handler =
     requestContext_Stream (ce_setHeader ce) cfg
       (with_identity mtls ce
         (observability_Stream (ce_telemetry ce) (ce_now ce) (ce_status ce) (ce_codeString ce) (ce_detailsString ce) (ce_enter ce) method isClient isServer
           (recovery_Stream (Some (ht_log (ce_telemetry ce))) (ce_stack ce) method handler)))"

section \<open>Lemmas\<close>

lemma refuse_eq [simp]: "refuse e w = (Returned None (Some e), w)"
  by (simp add: refuse_def)

lemma incoming_id_valid: "rpc_incomingRequestID c key = Inr i \<Longrightarrow> i \<noteq> [] \<Longrightarrow> IsValidRequestID i"
  by (auto simp: rpc_incomingRequestID_def Let_def length_Suc_conv split: if_splits option.splits)

lemma context_enrich_cases:
  assumes "context_enrich cfg c = r"
  obtains (refused) e m where "r = Inl (Response (Some e) InvalidArgument m)" "xc_RejectInvalid cfg"
    | (same) "r = Inr (c, [])"
    | (tagged) i where "r = Inr (WithRequestID c i, i)" "IsValidRequestID i"
  using assms incoming_id_valid [of c "xc_IncomingMetadataKey cfg"]
  by (auto simp: context_enrich_def grpc_Error_def split: sum.splits if_splits)

lemma Extract_verified:
  assumes "URICertificateExtractor_Extract (Some cert) = Inr i"
  obtains u where "URIs cert = [Some u]" "u \<noteq> []" "i = \<lparr>Subject = u, AuthenticationType = AuthenticationTypeMTLS\<rparr>"
  using assms by (auto simp: URICertificateExtractor_Extract_def split: list.splits option.splits if_splits)

text \<open>What a handler can rely on in the context it is called with.\<close>

definition trusted_identity :: "bool \<Rightarrow> auth_info option option \<Rightarrow> ctx \<Rightarrow> ctx \<Rightarrow> bool" where
  "trusted_identity mtls peer c c1 \<longleftrightarrow> (case (if mtls then verifiedClientCertificate peer else None) of
     None \<Rightarrow> ctx_identity c1 = ctx_identity c
   | Some cert \<Rightarrow> (\<exists>u. URIs cert = [Some u] \<and> u \<noteq> [] \<and> ctx_identity c1 = Some \<lparr>Subject = u, AuthenticationType = AuthenticationTypeMTLS\<rparr>))"

definition recovered_as :: "'a rpc_result \<Rightarrow> 'a rpc_result" where
  "recovered_as r = (case r of Returned q e \<Rightarrow> Returned q e
     | Crashed p \<Rightarrow> Returned None (Some (Response (Some (rpc_panicError p)) Internal ''internal server error'')))"

lemma recovered_result: "fst (rpc_recovered m lg stack method handler c w) = recovered_as (fst (handler c w))"
  by (auto simp: rpc_recovered_def recovered_as_def grpc_Error_def Let_def split: prod.split rpc_result.split)

lemma recovered_returns: "\<exists>q e w'. rpc_recovered m lg stack method handler c w = (Returned q e, w')"
  by (auto simp: rpc_recovered_def Let_def split: prod.split rpc_result.split)

lemma observed_recovered:
  assumes "observability_Unary t now st cs dstr enter name (recovery_Unary lg stack name handler) c w = (r, w')"
  shows "r = recovered_as (fst (handler (enter c) (rpc_tracing_Start (ht_tracer t) c (newRPCInfo name ''unary'') w)))"
proof -
  let ?w = "rpc_tracing_Start (ht_tracer t) c (newRPCInfo name ''unary'') w"
  obtain q e w2 where run: "recovery_Unary lg stack name handler (enter c) ?w = (Returned q e, w2)"
    using recovered_returns [of "''gRPC panic recovered''" "or_noop lg" stack name handler "enter c" ?w]
    by (auto simp: recovery_Unary_def)
  then show ?thesis
    using assms recovered_result [of "''gRPC panic recovered''" "or_noop lg" stack name handler "enter c" ?w]
    by (simp add: observability_Unary_def recovery_Unary_def Let_def)
qed

lemma identity_cases:
  assumes "with_identity mtls ce next c w = (r, w')"
  obtains (refused) e where "r = Returned None (Some (Response (Some e) Unauthenticated ''client certificate has no usable identity''))"
    | (passed) c1 where "next c1 w = (r, w')" "trusted_identity mtls (ce_peer ce) c c1" "c1\<lparr>ctx_identity := ctx_identity c\<rparr> = c"
proof (cases "if mtls then verifiedClientCertificate (ce_peer ce) else None")
  case None
  then have "next c w = (r, w')"
    using assms by (auto simp: with_identity_def callerIdentity_def identity_enrich_def split: if_splits)
  then show thesis
    using None passed [of c] by (simp add: trusted_identity_def)
next
  case (Some cert)
  then have eq: "callerIdentity URICertificateExtractor_Extract (ce_peer ce) next c w = (r, w')" "verifiedClientCertificate (ce_peer ce) = Some cert"
    using assms by (auto simp: with_identity_def split: if_splits)
  show thesis
  proof (cases "URICertificateExtractor_Extract (Some cert)")
    case (Inl e)
    then show thesis
      using eq refused [of e] by (simp add: callerIdentity_def identity_enrich_def grpc_Error_def)
  next
    case (Inr i)
    then show thesis
      using eq Some passed [of "WithIdentity c i"] Extract_verified [OF Inr]
      by (auto simp: callerIdentity_def identity_enrich_def trusted_identity_def WithIdentity_def)
  qed
qed

lemma unary_contained:
  assumes "unary_chain mtls cfg ce method handler c w = (r, w')"
  shows "(\<exists>cause n m. r = Returned None (Some (Response (Some cause) n m)) \<and> n \<in> {InvalidArgument, Unauthenticated, Internal}) \<or>
    (\<exists>c1 w1. r = recovered_as (fst (handler (ce_enter ce c1) w1)) \<and>
       (ctx_request_id c1 = ctx_request_id c \<or> (\<exists>i. IsValidRequestID i \<and> ctx_request_id c1 = Some i)) \<and>
       trusted_identity mtls (ce_peer ce) c c1 \<and>
       (xc_Timeout cfg > 0 \<longrightarrow> (\<exists>v t. ctx_deadline c1 = Some t \<and> t \<le> ce_now ce v + xc_Timeout cfg)))"
proof -
  let ?inner = "observability_Unary (ce_telemetry ce) (ce_now ce) (ce_status ce) (ce_codeString ce) (ce_detailsString ce) (ce_enter ce) method
           (recovery_Unary (Some (ht_log (ce_telemetry ce))) (ce_stack ce) method handler)"
  have rest: ?thesis if c0: "with_identity mtls ce ?inner (if xc_Timeout cfg > 0 then WithTimeout c0 (ce_now ce v) (xc_Timeout cfg) else c0) v = (r, w')"
    and id: "ctx_request_id c0 = ctx_request_id c \<or> (\<exists>i. IsValidRequestID i \<and> ctx_request_id c0 = Some i)" "ctx_identity c0 = ctx_identity c" for c0 v
    using c0
  proof (cases rule: identity_cases)
    case (passed c1)
    let ?c0 = "if xc_Timeout cfg > 0 then WithTimeout c0 (ce_now ce v) (xc_Timeout cfg) else c0"
    have same: "ctx_request_id c1 = ctx_request_id ?c0" "ctx_deadline c1 = ctx_deadline ?c0"
      using arg_cong [OF passed(3), of ctx_request_id] arg_cong [OF passed(3), of ctx_deadline] by simp_all
    have identity: "ctx_identity ?c0 = ctx_identity c"
      using id(2) by (simp add: WithTimeout_def)
    have "trusted_identity mtls (ce_peer ce) c c1"
      using passed(2) by (simp only: trusted_identity_def identity)
    moreover have "xc_Timeout cfg > 0 \<longrightarrow> (\<exists>v t. ctx_deadline c1 = Some t \<and> t \<le> ce_now ce v + xc_Timeout cfg)"
      using same(2) by (intro impI exI [of _ v]) (auto simp: WithTimeout_def split: option.splits)
    moreover have "ctx_request_id c1 = ctx_request_id c \<or> (\<exists>i. IsValidRequestID i \<and> ctx_request_id c1 = Some i)"
      using same(1) id(1) by (auto simp: WithTimeout_def)
    ultimately show ?thesis
      using observed_recovered [OF passed(1)] by blast
  qed auto
  have enriched: ?thesis if "context_enrich cfg c = Inr (c0, i)"
    and "ctx_request_id c0 = ctx_request_id c \<or> (\<exists>i. IsValidRequestID i \<and> ctx_request_id c0 = Some i)" "ctx_identity c0 = ctx_identity c" for c0 i
  proof (cases "echo_id (ce_setHeader ce) cfg i w")
    case (Pair h v)
    show ?thesis
    proof (cases h)
      case None
      then show ?thesis
        using assms that(1) Pair by (intro rest [OF _ that(2,3), of v]) (simp add: unary_chain_def requestContext_Unary_def)
    next
      case (Some e)
      then show ?thesis
        using assms that(1) Pair by (auto simp: unary_chain_def requestContext_Unary_def grpc_Error_def)
    qed
  qed
  from refl [of "context_enrich cfg c"] show ?thesis
  proof (cases rule: context_enrich_cases)
    case (refused e m)
    then show ?thesis
      using assms by (auto simp: unary_chain_def requestContext_Unary_def)
  next
    case same
    then show ?thesis
      using enriched [of c] by simp
  next
    case (tagged i)
    then show ?thesis
      using enriched [of "WithRequestID c i" i] by (simp add: WithRequestID_def)
  qed
qed

section \<open>Properties\<close>


text \<open>A chain for an example: mutual TLS with a verified certificate, and gRPC's own status of an error.\<close>

definition wire_status :: grpc_status where
  "wire_status = \<lparr>status_Code = (\<lambda>e. case e of None \<Rightarrow> OK | Some x \<Rightarrow> (case first_match as_response x of Some (_, n, _) \<Rightarrow> n | None \<Rightarrow> Unknown)),
     status_Message = (\<lambda>e. case first_match as_response e of Some (_, _, m) \<Rightarrow> m | None \<Rightarrow> [])\<rparr>"

definition mtls_env :: "nat chain_env" where
  "mtls_env = \<lparr>ce_telemetry = NewHTTPObservability None None None, ce_now = int, ce_status = wire_status, ce_codeString = (\<lambda>_. []),
     ce_detailsString = (\<lambda>_. []), ce_enter = id, ce_setHeader = (\<lambda>_ w. (None, w)),
     ce_peer = Some (Some (TLSInfo [[\<lparr>URIs = [Some ''spiffe://a'']\<rparr>]])), ce_stack = []\<rparr>"


text \<open>
  (C27) The two deliveries agree on every error that does not carry a code reserved for the HTTP delivery: the gRPC responder always answers with a failure status
  that keeps the error as its cause; its message is the application's own or a fixed text; the code is
  one of the statuses the telemetry counts as a server failure exactly when the HTTP responder answers
  the same error with a status from 500 on, and exactly when the span of the call is marked as failed.
\<close>

theorem deliveries_agree:
  assumes "\<And>a. As e = Some a \<Longrightarrow> Code a \<notin> {CodeInvalidQuery, CodeInvalidRequestID, CodeRequestCanceled}"
  shows "\<exists>n m. grpc_AppError (Some e) = Some (Response (Some e) n m) \<and> n \<noteq> OK \<and>
     m \<in> {''context canceled'', ''context deadline exceeded'', ''internal server error''} \<union> (case As e of None \<Rightarrow> {} | Some a \<Rightarrow> {Message a}) \<and>
     (ServerErrorType n \<noteq> [] \<longleftrightarrow> 500 \<le> toHTTPStatus (fst (public_error e))) \<and>
     (ServerErrorType n \<noteq> [] \<longleftrightarrow> snd (span_Finish cs (grpc_AppError (Some e)) []) \<noteq> StatusOk)"
proof -
  have client: "isClientError (Response (Some e) n m) = response_IsClientError n" for n m
    by (simp add: isClientError_def first_match_here client_reporter_def)
  have "\<exists>n m. grpc_AppError (Some e) = Some (Response (Some e) n m)"
    by (simp add: grpc_AppError_def grpc_Error_def split: option.split)
  then obtain n m where answer: "grpc_AppError (Some e) = Some (Response (Some e) n m)"
    by blast
  have table: "n \<noteq> OK \<and> (ServerErrorType n \<noteq> [] \<longleftrightarrow> 500 \<le> toHTTPStatus (fst (public_error e))) \<and> (ServerErrorType n \<noteq> [] \<longleftrightarrow> \<not> response_IsClientError n)"
    using answer assms by (auto simp: grpc_AppError_def grpc_Error_def appCodeToGRPCCode_def public_error_def toHTTPStatus_def codeStatusMap_def
        ServerErrorType_def StatusName_def statusNames_def response_IsClientError_def split: option.splits if_splits)
  moreover have "m \<in> {''context canceled'', ''context deadline exceeded'', ''internal server error''} \<union> (case As e of None \<Rightarrow> {} | Some a \<Rightarrow> {Message a})"
    using answer by (auto simp: grpc_AppError_def grpc_Error_def split: option.splits if_splits)
  moreover have "snd (span_Finish cs (grpc_AppError (Some e)) []) \<noteq> StatusOk \<longleftrightarrow> \<not> response_IsClientError n"
    by (simp add: answer span_Finish_def client)
  ultimately show ?thesis
    using answer by blast
qed

theorem deliveries_agree_witness:
  "\<exists>n m. grpc_AppError (Some (Wrap (Msg ''connection refused'') CodeUnavailable ''cache readiness failed'' [])) =
      Some (Response (Some (Wrap (Msg ''connection refused'') CodeUnavailable ''cache readiness failed'' [])) n m) \<and>
     n = Unavailable \<and> m = ''cache readiness failed'' \<and> ServerErrorType n = ''UNAVAILABLE''"
proof -
  let ?e = "Wrap (Msg ''connection refused'') CodeUnavailable ''cache readiness failed'' []"
  have "grpc_AppError (Some ?e) = Some (Response (Some ?e) Unavailable ''cache readiness failed'')"
    by (simp add: grpc_AppError_def grpc_Error_def appCodeToGRPCCode_def)
  then show ?thesis
    using deliveries_agree [of ?e "\<lambda>_. []"] by (auto simp: ServerErrorType_def StatusName_def statusNames_def)
qed

end
