(* ===== verification/Grpc_Client.thy ===== *)
theory Grpc_Client
  imports Grpc_Server
begin

text \<open>
  The outbound gRPC connection of \<^verbatim>\<open>internal/infra/grpcclient\<close>: \<^verbatim>\<open>client.go\<close>, the request-context
  interceptor and the observability interceptor with its endpoint parser. Creating and closing the
  connection, and the transport that carries a call or a stream, are gRPC's and are parameters; what
  the code itself keeps across calls (which derived contexts it has cancelled, which \<^verbatim>\<open>sync.Once\<close> has
  run) is part of the world below.
\<close>

section \<open>client.go\<close>

record grpc_client_config =
  gc_Target :: string
  gc_MaxRecvMessageBytes :: int
  gc_MaxSendMessageBytes :: int

text \<open>Dialers, credentials and interceptors are opaque here: what matters is which options reach gRPC.\<close>

record ('d, 'u, 's) clientOptions =
  co_dialer :: "'d option"
  co_unaryInterceptors :: "'u list"
  co_streamInterceptors :: "'s list"

definition WithContextDialer :: "'d option \<Rightarrow> ('d, 'u, 's) clientOptions \<Rightarrow> ('d, 'u, 's) clientOptions" where
  "WithContextDialer d o1 = o1\<lparr>co_dialer := d\<rparr>"

definition WithUnaryInterceptors :: "'u list \<Rightarrow> ('d, 'u, 's) clientOptions \<Rightarrow> ('d, 'u, 's) clientOptions" where
  "WithUnaryInterceptors is o1 = o1\<lparr>co_unaryInterceptors := co_unaryInterceptors o1 @ is\<rparr>"

definition WithStreamInterceptors :: "'s list \<Rightarrow> ('d, 'u, 's) clientOptions \<Rightarrow> ('d, 'u, 's) clientOptions" where
  "WithStreamInterceptors is o1 = o1\<lparr>co_streamInterceptors := co_streamInterceptors o1 @ is\<rparr>"

datatype ('c, 'd, 'u, 's) dial_option =
    TransportCredentials 'c
  | MessageLimits int int
  | ChainUnary "'u list"
  | ChainStream "'s list"
  | ContextDialer 'd

definition grpcclient_New :: "(string \<Rightarrow> ('c, 'd, 'u, 's) dial_option list \<Rightarrow> ('w, 'conn) eff) \<Rightarrow> grpc_client_config \<Rightarrow> 'c option \<Rightarrow>
    (('d, 'u, 's) clientOptions \<Rightarrow> ('d, 'u, 's) clientOptions) list \<Rightarrow> ('w, 'conn) eff" where
  "grpcclient_New new_client cfg creds options =
     (let target = TrimSpace (gc_Target cfg) in
      if target = [] then fail (Msg ''gRPC client target is required'')
      else if gc_MaxRecvMessageBytes cfg \<le> 0 \<or> gc_MaxSendMessageBytes cfg \<le> 0
      then fail (Msg ''gRPC client receive and send message limits must be > 0'')
      else case creds of
          None \<Rightarrow> fail (Msg ''gRPC client transport credentials are required'')
        | Some cr \<Rightarrow>
            let ro = foldl (\<lambda>o1 opt. opt o1) \<lparr>co_dialer = None, co_unaryInterceptors = [], co_streamInterceptors = []\<rparr> options;
                dial = [TransportCredentials cr, MessageLimits (gc_MaxRecvMessageBytes cfg) (gc_MaxSendMessageBytes cfg)] @
                  (if co_unaryInterceptors ro \<noteq> [] then [ChainUnary (co_unaryInterceptors ro)] else []) @
                  (if co_streamInterceptors ro \<noteq> [] then [ChainStream (co_streamInterceptors ro)] else []) @
                  (case co_dialer ro of None \<Rightarrow> [] | Some d \<Rightarrow> [ContextDialer d])
            in attempt (new_client target dial) (\<lambda>e. fail (Errorf ''create gRPC client connection'' e)) return)"

text \<open>A nil client, a client without a connection, and a client with one.\<close>

definition grpcclient_Close :: "('conn \<Rightarrow> ('w, unit) eff) \<Rightarrow> 'conn option option \<Rightarrow> ('w, unit) eff" where
  "grpcclient_Close close_conn client = (case client of
      None \<Rightarrow> return ()
    | Some None \<Rightarrow> return ()
    | Some (Some conn) \<Rightarrow> attempt (close_conn conn) (\<lambda>e. fail (Errorf ''close gRPC client connection'' e)) (\<lambda>_. return ()))"

section \<open>The world of a call\<close>

text \<open>
  \<open>cw_fresh\<close> is the next unused cell; \<open>cw_released\<close> holds the contexts whose cancel function has been
  called, \<open>cw_done\<close> the \<^verbatim>\<open>sync.Once\<close> cells that have run, \<open>cw_events\<close> the telemetry and \<open>cw_net\<close>
  whatever the transport keeps.
\<close>

record 'n call_world =
  cw_clock :: int
  cw_fresh :: nat
  cw_released :: "nat list"
  cw_done :: "nat list"
  cw_events :: "event list"
  cw_net :: 'n

definition record_event :: "'n call_world sink" where
  "record_event ev w = w\<lparr>cw_events := cw_events w @ [ev]\<rparr>"

text \<open>A transport sees the whole world; it moves the clock and its own part only.\<close>

definition transport :: "('n call_world \<Rightarrow> (error + 'a) \<times> int \<times> 'n) \<Rightarrow> ('n call_world, 'a) eff" where
  "transport f w = (case f w of (r, t, n) \<Rightarrow> (r, w\<lparr>cw_clock := t, cw_net := n\<rparr>))"

definition once_Do :: "nat \<Rightarrow> ('n call_world \<Rightarrow> 'n call_world) \<Rightarrow> 'n call_world \<Rightarrow> 'n call_world" where
  "once_Do n f w = (if n \<in> set (cw_done w) then w else let w1 = f w in w1\<lparr>cw_done := n # cw_done w1\<rparr>)"

definition cancel_cell :: "nat \<Rightarrow> 'n call_world \<Rightarrow> 'n call_world" where
  "cancel_cell n w = w\<lparr>cw_released := n # cw_released w\<rparr>"

definition new_cell :: "'n call_world \<Rightarrow> nat \<times> 'n call_world" where
  "new_cell w = (cw_fresh w, w\<lparr>cw_fresh := Suc (cw_fresh w)\<rparr>)"

text \<open>What a client stream offers beside the methods its wrappers inherit unchanged.\<close>

record ('w, 'm) client_stream =
  cs_SendMsg :: "'m \<Rightarrow> ('w, unit) eff"
  cs_RecvMsg :: "('w, 'm) eff"

type_synonym ('w, 'm) streamer = "ctx \<Rightarrow> ('w, ('w, 'm) client_stream) eff"

definition on_error :: "('w, 'a) eff \<Rightarrow> (error \<Rightarrow> 'w \<Rightarrow> 'w) \<Rightarrow> ('w, 'a) eff" where
  "on_error m h = finally_do m (\<lambda>r w. case r of Inl e \<Rightarrow> h e w | Inr _ \<Rightarrow> w)"

section \<open>interceptor/requestcontext\<close>

record client_context_config =
  rq_Timeout :: duration
  rq_RequestIDMetadataKey :: string

definition client_requestcontext_New :: "client_context_config \<Rightarrow> error + client_context_config" where
  "client_requestcontext_New cfg = (case NormalizeKey (rq_RequestIDMetadataKey cfg) of
      Inl e \<Rightarrow> Inl (Errorf ''normalize request ID metadata key'' e)
    | Inr k \<Rightarrow> Inr (cfg\<lparr>rq_RequestIDMetadataKey := k\<rparr>))"

text \<open>\<^verbatim>\<open>metadata.MD.Set\<close> and \<^verbatim>\<open>metadata.FromOutgoingContext\<close>, which copies and lower-cases the keys.\<close>

definition md_Set :: "metadata \<Rightarrow> string \<Rightarrow> string list \<Rightarrow> metadata" where
  "md_Set md k vs = (if vs = [] then md else AList.update (ToLower k) vs md)"

definition FromOutgoingContext :: "ctx \<Rightarrow> metadata option" where
  "FromOutgoingContext c = map_option (map (\<lambda>(k, vs). (ToLower k, vs))) (ctx_outgoing c)"

definition outgoing_copy :: "ctx \<Rightarrow> metadata" where
  "outgoing_copy c = (case FromOutgoingContext c of None \<Rightarrow> [] | Some md \<Rightarrow> md)"

definition withRequestIDMetadata :: "client_context_config \<Rightarrow> ctx \<Rightarrow> ctx" where
  "withRequestIDMetadata cfg c =
     (let requestID = RequestIDFromContext c in
      if requestID = [] then c
      else c\<lparr>ctx_outgoing := Some (md_Set (outgoing_copy c) (rq_RequestIDMetadataKey cfg) [requestID])\<rparr>)"

text \<open>The derived context and its cancel function: none without a timeout.\<close>

definition client_prepare :: "client_context_config \<Rightarrow> ctx \<Rightarrow> 'n call_world \<Rightarrow> ctx \<times> ('n call_world \<Rightarrow> 'n call_world) \<times> 'n call_world" where
  "client_prepare cfg c w =
     (let c1 = (if rq_RequestIDMetadataKey cfg \<noteq> [] then withRequestIDMetadata cfg c else c) in
      if rq_Timeout cfg \<le> 0 then (c1, id, w)
      else case new_cell w of (n, w1) \<Rightarrow> (WithTimeout c1 (cw_clock w) (rq_Timeout cfg), cancel_cell n, w1))"

definition client_requestcontext_Unary :: "client_context_config \<Rightarrow> ('n call_world, 'a) rpc \<Rightarrow> ('n call_world, 'a) rpc" where
  "client_requestcontext_Unary cfg invoker c w =
     (case client_prepare cfg c w of (c1, cancel, w1) \<Rightarrow> (case invoker c1 w1 of (r, w2) \<Rightarrow> (r, cancel w2)))"

definition cancelingClientStream :: "('w, 'm) client_stream \<Rightarrow> ('w \<Rightarrow> 'w) \<Rightarrow> ('w, 'm) client_stream" where
  "cancelingClientStream s cancel =
     \<lparr>cs_SendMsg = (\<lambda>m. on_error (cs_SendMsg s m) (\<lambda>_. cancel)), cs_RecvMsg = on_error (cs_RecvMsg s) (\<lambda>_. cancel)\<rparr>"

definition client_requestcontext_Stream :: "client_context_config \<Rightarrow> ('n call_world, 'm) streamer \<Rightarrow> ('n call_world, 'm) streamer" where
  "client_requestcontext_Stream cfg streamer c w =
     (case client_prepare cfg c w of (c1, cancel, w1) \<Rightarrow>
        attempt (streamer c1) (\<lambda>e. perform cancel (fail e)) (\<lambda>s. return (cancelingClientStream s cancel)) w1)"

section \<open>observability_server_endpoint.go\<close>

text \<open>
  \<^verbatim>\<open>net/url.Parse\<close>, as far as the parser reads it: whether it fails, the scheme and the path. Whether the
  part between \<^verbatim>\<open>//\<close> and the next slash is a valid authority is the argument \<open>authority_ok\<close>, as the
  accepted grammar is a long one that changes between Go releases and its value is not used.
\<close>

record parsed_url =
  url_Scheme :: string
  url_Path :: string

definition is_letter :: "char \<Rightarrow> bool" where
  "is_letter c \<longleftrightarrow> (CHR ''a'' \<le> c \<and> c \<le> CHR ''z'') \<or> (CHR ''A'' \<le> c \<and> c \<le> CHR ''Z'')"

fun scheme_loop :: "bool \<Rightarrow> string \<Rightarrow> string \<Rightarrow> string \<Rightarrow> (string \<times> string) option" where
  "scheme_loop first acc raw [] = Some ([], raw)"
| "scheme_loop first acc raw (c # cs) =
     (if is_letter c then scheme_loop False (acc @ [c]) raw cs
      else if is_digit c \<or> c \<in> {CHR ''+'', CHR ''-'', CHR ''.''} then (if first then Some ([], raw) else scheme_loop False (acc @ [c]) raw cs)
      else if c = CHR '':'' then (if first then None else Some (acc, cs))
      else Some ([], raw))"

definition getScheme :: "string \<Rightarrow> (string \<times> string) option" where
  "getScheme raw = scheme_loop True [] raw raw"

text \<open>\<^verbatim>\<open>strings.Cut\<close> at a byte: before it, and what follows it if it occurs.\<close>

definition Cut :: "string \<Rightarrow> char \<Rightarrow> string \<times> string" where
  "Cut s c = (takeWhile (\<lambda>x. x \<noteq> c) s, drop 1 (dropWhile (\<lambda>x. x \<noteq> c) s))"

text \<open>\<^verbatim>\<open>unescape\<close> in the modes for paths and fragments, which treat no other character specially.\<close>

fun unescape :: "string \<Rightarrow> string option" where
  "unescape [] = Some []"
| "unescape (c # cs) =
     (if c = CHR ''%''
      then (case cs of h # l # rest \<Rightarrow>
              (case (hex_value h, hex_value l) of (Some a, Some b) \<Rightarrow> map_option ((#) (char_of (16 * a + b))) (unescape rest) | _ \<Rightarrow> None)
            | _ \<Rightarrow> None)
      else map_option ((#) c) (unescape cs))"

definition is_ctl :: "char \<Rightarrow> bool" where
  "is_ctl c \<longleftrightarrow> of_char c < (32::nat) \<or> of_char c = (127::nat)"

definition parse_path :: "string \<Rightarrow> string \<Rightarrow> parsed_url option" where
  "parse_path scheme rest = map_option (\<lambda>p. \<lparr>url_Scheme = scheme, url_Path = p\<rparr>) (unescape rest)"

definition parse_rest :: "(string \<Rightarrow> bool) \<Rightarrow> string \<Rightarrow> string \<Rightarrow> parsed_url option" where
  "parse_rest authority_ok scheme rest =
     (if \<not> HasPrefix rest ''/'' \<and> scheme \<noteq> [] then Some \<lparr>url_Scheme = scheme, url_Path = []\<rparr>
      else if \<not> HasPrefix rest ''/'' \<and> CHR '':'' \<in> set (fst (Cut rest CHR ''/'')) then None
      else if (scheme \<noteq> [] \<or> \<not> HasPrefix rest ''///'') \<and> HasPrefix rest ''//''
      then (let a = drop 2 rest in
            if authority_ok (takeWhile (\<lambda>x. x \<noteq> CHR ''/'') a) then parse_path scheme (dropWhile (\<lambda>x. x \<noteq> CHR ''/'') a) else None)
      else parse_path scheme rest)"

definition url_Parse :: "(string \<Rightarrow> bool) \<Rightarrow> string \<Rightarrow> parsed_url option" where
  "url_Parse authority_ok raw =
     (let (u, frag) = Cut raw CHR ''#'';
          parsed = (if list_ex is_ctl u then None
                    else if u = ''*'' then Some \<lparr>url_Scheme = [], url_Path = ''*''\<rparr>
                    else case getScheme u of
                        None \<Rightarrow> None
                      | Some (scheme, rest) \<Rightarrow> parse_rest authority_ok (ToLower scheme) (fst (Cut rest CHR ''?'')))
      in if frag = [] \<or> unescape frag \<noteq> None then parsed else None)"

text \<open>\<^verbatim>\<open>net.SplitHostPort\<close>: the last colon separates the port; a bracketed host ends before it.\<close>

definition last_colon :: "string \<Rightarrow> (string \<times> string) option" where
  "last_colon s = (if CHR '':'' \<in> set s
     then Some (rev (drop 1 (dropWhile (\<lambda>x. x \<noteq> CHR '':'') (rev s))), rev (takeWhile (\<lambda>x. x \<noteq> CHR '':'') (rev s))) else None)"

definition SplitHostPort :: "string \<Rightarrow> (string \<times> string) option" where
  "SplitHostPort s = (case last_colon s of
      None \<Rightarrow> None
    | Some (before, port) \<Rightarrow>
        if HasPrefix s ''[''
        then (let host = takeWhile (\<lambda>x. x \<noteq> CHR '']'') (drop 1 s) in
              if before \<noteq> ''['' @ host @ '']'' \<or> CHR ''['' \<in> set (drop 1 s) \<or> CHR '']'' \<in> set port then None
              else Some (host, port))
        else if CHR '':'' \<in> set before \<or> CHR ''['' \<in> set s \<or> CHR '']'' \<in> set s then None
        else Some (before, port))"

text \<open>\<^verbatim>\<open>strings.Contains\<close>.\<close>

fun Contains :: "string \<Rightarrow> string \<Rightarrow> bool" where
  "Contains [] p \<longleftrightarrow> p = []"
| "Contains (c # cs) p \<longleftrightarrow> HasPrefix (c # cs) p \<or> Contains cs p"

definition candidate_endpoint :: "string \<Rightarrow> string \<Rightarrow> string \<times> int" where
  "candidate_endpoint target candidate = (case SplitHostPort candidate of
      None \<Rightarrow> (target, 0)
    | Some (host, portText) \<Rightarrow> (case Atoi portText of
         None \<Rightarrow> (target, 0)
       | Some port \<Rightarrow> if port \<le> 0 \<or> port > 65535 then (target, 0) else (host, port)))"

definition parseServerEndpoint :: "(string \<Rightarrow> bool) \<Rightarrow> string \<Rightarrow> string \<times> int" where
  "parseServerEndpoint authority_ok target =
     (if target = [] then ([], 0)
      else case url_Parse authority_ok target of
          None \<Rightarrow> candidate_endpoint target target
        | Some u \<Rightarrow>
            if Contains target ''://'' \<or> HasPrefix target ''unix:''
            then (if url_Scheme u = ''dns'' then candidate_endpoint target (TrimPrefix (url_Path u) ''/'')
                  else if url_Scheme u = ''unix'' then (if url_Path u \<noteq> [] then (url_Path u, 0) else candidate_endpoint target target)
                  else (target, 0))
            else candidate_endpoint target target)"

section \<open>interceptor/observability\<close>

record client_rpc_info =
  cr_dependencyName :: string
  cr_serverAddress :: string
  cr_serverPort :: int
  cr_method :: string
  cr_callType :: string

definition client_newRPCInfo :: "string \<Rightarrow> string \<Rightarrow> int \<Rightarrow> string \<Rightarrow> string \<Rightarrow> client_rpc_info" where
  "client_newRPCInfo dep addr port fullMethod callType =
     \<lparr>cr_dependencyName = dep, cr_serverAddress = addr, cr_serverPort = port, cr_method = NormalizeMethod fullMethod, cr_callType = callType\<rparr>"

definition put_endpoint :: "client_rpc_info \<Rightarrow> fields \<Rightarrow> fields" where
  "put_endpoint i f =
     put_field_if (cr_dependencyName i \<noteq> []) ''app.dependency.name'' (AString (cr_dependencyName i))
       (put_field_if (cr_serverPort i > 0) ''server.port'' (AInt (cr_serverPort i))
         (put_field_if (cr_serverAddress i \<noteq> []) ''server.address'' (AString (cr_serverAddress i)) f))"

definition client_spanStartFields :: "client_rpc_info \<Rightarrow> fields" where
  "client_spanStartFields i =
     put_endpoint i (FromPairs [AString ''rpc.system.name'', AString ''grpc'', AString ''rpc.method'', AString (cr_method i),
       AString ''app.rpc.call_type'', AString (cr_callType i)])"

record client_rpc_outcome =
  cu_rpc :: client_rpc_info
  cu_duration :: duration
  cu_status :: grpc_code
  cu_callError :: "error option"
  cu_message :: string

definition client_newRPCOutcome :: "grpc_status \<Rightarrow> client_rpc_info \<Rightarrow> duration \<Rightarrow> error option \<Rightarrow> client_rpc_outcome" where
  "client_newRPCOutcome st rpc d e = \<lparr>cu_rpc = rpc, cu_duration = d, cu_status = status_Code st e, cu_callError = e,
     cu_message = (case e of None \<Rightarrow> [] | Some x \<Rightarrow> status_Message st x)\<rparr>"

record log_outcome =
  lo_DependencyName :: string
  lo_RPCMethod :: string
  lo_GRPCStatusCode :: grpc_code
  lo_Duration :: duration
  lo_RPCError :: "error option"

type_synonym log_policy = "log_outcome \<Rightarrow> severity \<times> bool"

record 'w client_access_log =
  al_log :: "'w sink"
  al_policy :: "log_policy option"

definition NewAccessLog :: "'w sink option \<Rightarrow> log_policy option \<Rightarrow> 'w client_access_log" where
  "NewAccessLog lg policy = \<lparr>al_log = or_noop lg, al_policy = policy\<rparr>"

definition client_log_fields :: "client_rpc_outcome \<Rightarrow> fields" where
  "client_log_fields out =
     (let et = ClientErrorType (cu_status out) in
      put_field_if (et \<noteq> []) ''app.rpc.status_message'' (AString (cu_message out))
        (put_field_if (et \<noteq> []) ''error.type'' (AString et)
          (put_endpoint (cu_rpc out) (FromPairs [AString ''rpc.system.name'', AString ''grpc'', AString ''rpc.method'', AString (cr_method (cu_rpc out)),
             AString ''app.rpc.call_type'', AString (cr_callType (cu_rpc out)),
             AString ''rpc.response.status_code'', AString (StatusName (cu_status out)),
             AString ''duration.ms'', AInt64 (Milliseconds (cu_duration out))]))))"

definition log_outcome_of :: "client_rpc_outcome \<Rightarrow> log_outcome" where
  "log_outcome_of out = \<lparr>lo_DependencyName = cr_dependencyName (cu_rpc out), lo_RPCMethod = cr_method (cu_rpc out),
     lo_GRPCStatusCode = cu_status out, lo_Duration = cu_duration out, lo_RPCError = cu_callError out\<rparr>"

definition client_log_entry :: "severity \<Rightarrow> client_rpc_outcome \<Rightarrow> event" where
  "client_log_entry s out = (case s of
      SeverityError \<Rightarrow> LogEntry SeverityError False ''gRPC client request completed'' (cu_callError out) (client_log_fields out)
    | _ \<Rightarrow> LogEntry s False ''gRPC client request completed'' None (client_log_fields out))"

definition AccessLog_Record :: "'w client_access_log \<Rightarrow> client_rpc_outcome \<Rightarrow> 'w \<Rightarrow> 'w" where
  "AccessLog_Record l out w = (case al_policy l of
      None \<Rightarrow> w
    | Some policy \<Rightarrow> (case policy (log_outcome_of out) of (s, enabled) \<Rightarrow> if enabled then al_log l (client_log_entry s out) w else w))"

definition client_metricFields :: "client_rpc_info \<Rightarrow> string \<Rightarrow> fields" where
  "client_metricFields i status = MergeFields [client_spanStartFields i, FromPairs [AString ''rpc.response.status_code'', AString status]]"

definition client_metrics_Record :: "'w sink \<Rightarrow> client_rpc_outcome \<Rightarrow> 'w \<Rightarrow> 'w" where
  "client_metrics_Record mt out w =
     (let f = client_metricFields (cu_rpc out) (StatusName (cu_status out));
          w1 = mt (CounterAdd ''grpc_client_requests_total'' 1 f) w;
          w2 = mt (HistogramRecord ''grpc_client_request_duration_seconds'' (cu_duration out) f) w1
      in if cu_status out \<noteq> OK then mt (CounterAdd ''grpc_client_errors_total'' 1 f) w2 else w2)"

definition client_StreamStarted :: "'w sink \<Rightarrow> client_rpc_info \<Rightarrow> 'w \<Rightarrow> 'w" where
  "client_StreamStarted mt i = mt (UpDownAdd ''grpc_client_active_streams'' 1 (client_spanStartFields i))"

definition client_StreamFinished :: "'w sink \<Rightarrow> client_rpc_outcome \<Rightarrow> 'w \<Rightarrow> 'w" where
  "client_StreamFinished mt out w =
     client_metrics_Record mt out (mt (UpDownAdd ''grpc_client_active_streams'' (- 1) (client_spanStartFields (cu_rpc out))) w)"

text \<open>
  A tracer: where its events go, the context a new client span gives, and the fields its propagator
  writes into a carrier for that context.
\<close>

record 'w client_tracer =
  tc_sink :: "'w sink"
  tc_StartClient :: "ctx \<Rightarrow> ctx"
  tc_Inject :: "ctx \<Rightarrow> (string \<times> string) list"

definition NoopTracer :: "'w client_tracer" where
  "NoopTracer = \<lparr>tc_sink = noop, tc_StartClient = id, tc_Inject = (\<lambda>_. [])\<rparr>"

record 'w client_tracing =
  ct_tracer :: "'w client_tracer"
  ct_propagateTraceContext :: bool

definition NewTracing :: "'w client_tracer option \<Rightarrow> bool \<Rightarrow> 'w client_tracing" where
  "NewTracing tr propagate = \<lparr>ct_tracer = (case tr of None \<Rightarrow> NoopTracer | Some t \<Rightarrow> t), ct_propagateTraceContext = propagate\<rparr>"

definition metadataCarrier_Get :: "metadata \<Rightarrow> string \<Rightarrow> string" where
  "metadataCarrier_Get md k = (case md_Get md k of [] \<Rightarrow> [] | v # _ \<Rightarrow> v)"

definition metadataCarrier_Set :: "metadata \<Rightarrow> string \<Rightarrow> string \<Rightarrow> metadata" where
  "metadataCarrier_Set md k v = md_Set md k [v]"

definition metadataCarrier_Keys :: "metadata \<Rightarrow> string list" where
  "metadataCarrier_Keys md = map fst md"

definition client_tracing_Start :: "'w client_tracing \<Rightarrow> ctx \<Rightarrow> client_rpc_info \<Rightarrow> 'w \<Rightarrow> ctx \<times> 'w" where
  "client_tracing_Start t c rpc w =
     (let w1 = tc_sink (ct_tracer t) (SpanStart SpanClient ''grpc-client'' (cr_method rpc) (client_spanStartFields rpc)) w;
          c1 = tc_StartClient (ct_tracer t) c
      in if \<not> ct_propagateTraceContext t then (c1, w1)
         else (c1\<lparr>ctx_outgoing := Some (foldl (\<lambda>md (k, v). metadataCarrier_Set md k v) (outgoing_copy c1) (tc_Inject (ct_tracer t) c1))\<rparr>, w1))"

definition client_tracing_Finish :: "'w client_tracing \<Rightarrow> client_rpc_outcome \<Rightarrow> 'w \<Rightarrow> 'w" where
  "client_tracing_Finish t out w =
     (let et = ClientErrorType (cu_status out);
          f = put_field_if (et \<noteq> []) ''app.rpc.status_message'' (AString (cu_message out))
                (put_field_if (et \<noteq> []) ''error.type'' (AString et)
                  (FromPairs [AString ''rpc.response.status_code'', AString (StatusName (cu_status out))]))
      in tc_sink (ct_tracer t) (SpanFinish (cu_callError out) (Some (cu_message out))) (tc_sink (ct_tracer t) (SpanAttributes f) w))"

record 'w client_interceptor =
  ci_dependencyName :: string
  ci_serverAddress :: string
  ci_serverPort :: int
  ci_tracing :: "'w client_tracing option"
  ci_metrics :: "'w sink option"
  ci_accessLog :: "'w client_access_log option"

definition WithTracing :: "'w client_tracer option \<Rightarrow> bool \<Rightarrow> 'w client_interceptor \<Rightarrow> 'w client_interceptor" where
  "WithTracing tr propagate i = i\<lparr>ci_tracing := Some (NewTracing tr propagate)\<rparr>"

text \<open>The instruments of \<^verbatim>\<open>NewRequestMetrics\<close> are named where they are used; what remains is the meter.\<close>

definition client_NewRequestMetrics :: "'w sink option \<Rightarrow> 'w sink" where
  "client_NewRequestMetrics mt = or_noop mt"

definition WithMetrics :: "'w sink option \<Rightarrow> 'w client_interceptor \<Rightarrow> 'w client_interceptor" where
  "WithMetrics mt i = i\<lparr>ci_metrics := Some (client_NewRequestMetrics mt)\<rparr>"

definition WithCompletionLog :: "'w sink option \<Rightarrow> log_policy option \<Rightarrow> 'w client_interceptor \<Rightarrow> 'w client_interceptor" where
  "WithCompletionLog lg policy i = i\<lparr>ci_accessLog := Some (NewAccessLog lg policy)\<rparr>"

definition client_observability_New :: "(string \<Rightarrow> bool) \<Rightarrow> string \<Rightarrow> string \<Rightarrow> ('w client_interceptor \<Rightarrow> 'w client_interceptor) list \<Rightarrow> 'w client_interceptor" where
  "client_observability_New authority_ok dependencyName target options =
     (case parseServerEndpoint authority_ok (TrimSpace target) of (address, port) \<Rightarrow>
        foldl (\<lambda>i opt. opt i)
          \<lparr>ci_dependencyName = TrimSpace dependencyName, ci_serverAddress = address, ci_serverPort = port,
           ci_tracing = None, ci_metrics = None, ci_accessLog = None\<rparr> options)"

definition client_enabled :: "'w client_interceptor \<Rightarrow> bool" where
  "client_enabled i \<longleftrightarrow> ci_tracing i \<noteq> None \<or> ci_metrics i \<noteq> None \<or> ci_accessLog i \<noteq> None"

definition client_finish :: "'w client_interceptor \<Rightarrow> client_rpc_outcome \<Rightarrow> bool \<Rightarrow> 'w \<Rightarrow> 'w" where
  "client_finish i out stream w =
     (let w1 = (case ci_metrics i of None \<Rightarrow> w | Some mt \<Rightarrow> if stream then client_StreamFinished mt out w else client_metrics_Record mt out w);
          w2 = (case ci_accessLog i of None \<Rightarrow> w1 | Some l \<Rightarrow> AccessLog_Record l out w1)
      in case ci_tracing i of None \<Rightarrow> w2 | Some t \<Rightarrow> client_tracing_Finish t out w2)"

definition client_start :: "'w client_interceptor \<Rightarrow> ctx \<Rightarrow> client_rpc_info \<Rightarrow> 'w \<Rightarrow> ctx \<times> 'w" where
  "client_start i c rpc w = (case ci_tracing i of None \<Rightarrow> (c, w) | Some t \<Rightarrow> client_tracing_Start t c rpc w)"

definition interceptor_rpc :: "'w client_interceptor \<Rightarrow> string \<Rightarrow> string \<Rightarrow> client_rpc_info" where
  "interceptor_rpc i fullMethod callType = client_newRPCInfo (ci_dependencyName i) (ci_serverAddress i) (ci_serverPort i) fullMethod callType"

text \<open>A panic of the invoker passes through unrecorded: nothing is deferred.\<close>

definition client_observability_Unary :: "('n call_world) client_interceptor \<Rightarrow> grpc_status \<Rightarrow> string \<Rightarrow> ('n call_world, 'a) rpc \<Rightarrow> ('n call_world, 'a) rpc" where
  "client_observability_Unary i st fullMethod invoker c w =
     (if \<not> client_enabled i then invoker c w
      else let rpc = interceptor_rpc i fullMethod ''unary'' in
        case client_start i c rpc w of (c1, w1) \<Rightarrow>
          (case invoker c1 w1 of
             (Crashed p, w2) \<Rightarrow> (Crashed p, w2)
           | (Returned r e, w2) \<Rightarrow> (Returned r e, client_finish i (client_newRPCOutcome st rpc (cw_clock w2 - cw_clock w1) e) False w2)))"

record ('w, 'm) observedClientStream =
  oc_ClientStream :: "('w, 'm) client_stream"
  oc_once :: nat
  oc_finish :: "error \<Rightarrow> 'w \<Rightarrow> 'w"

definition observed_SendMsg :: "('n call_world, 'm) observedClientStream \<Rightarrow> 'm \<Rightarrow> ('n call_world, unit) eff" where
  "observed_SendMsg s m = on_error (cs_SendMsg (oc_ClientStream s) m) (\<lambda>e. once_Do (oc_once s) (oc_finish s e))"

definition observed_RecvMsg :: "('n call_world, 'm) observedClientStream \<Rightarrow> ('n call_world, 'm) eff" where
  "observed_RecvMsg s = on_error (cs_RecvMsg (oc_ClientStream s)) (\<lambda>e. once_Do (oc_once s) (oc_finish s e))"

definition as_client_stream :: "('n call_world, 'm) observedClientStream \<Rightarrow> ('n call_world, 'm) client_stream" where
  "as_client_stream s = \<lparr>cs_SendMsg = observed_SendMsg s, cs_RecvMsg = observed_RecvMsg s\<rparr>"

text \<open>The outcome of a stream: its end is not an error.\<close>

definition stream_finish :: "('n call_world) client_interceptor \<Rightarrow> grpc_status \<Rightarrow> client_rpc_info \<Rightarrow> int \<Rightarrow> error \<Rightarrow> 'n call_world \<Rightarrow> 'n call_world" where
  "stream_finish i st rpc started e w =
     client_finish i (client_newRPCOutcome st rpc (cw_clock w - started) (if errors_Is e IoEOF then None else Some e)) True w"

definition client_observability_Stream :: "('n call_world) client_interceptor \<Rightarrow> grpc_status \<Rightarrow> string \<Rightarrow> bool \<Rightarrow> bool \<Rightarrow>
    ('n call_world, 'm) streamer \<Rightarrow> ('n call_world, 'm) streamer" where
  "client_observability_Stream i st fullMethod clientStreams serverStreams streamer c w =
     (if \<not> client_enabled i then streamer c w
      else let rpc = interceptor_rpc i fullMethod (streamType clientStreams serverStreams) in
        case client_start i c rpc w of (c1, w1) \<Rightarrow>
          let started = cw_clock w1;
              w2 = (case ci_metrics i of None \<Rightarrow> w1 | Some mt \<Rightarrow> client_StreamStarted mt rpc w1)
          in attempt (streamer c1)
               (\<lambda>e w3. (Inl e, client_finish i (client_newRPCOutcome st rpc (cw_clock w3 - started) (Some e)) True w3))
               (\<lambda>s w3. case new_cell w3 of (n, w4) \<Rightarrow>
                  (Inr (as_client_stream \<lparr>oc_ClientStream = s, oc_once = n, oc_finish = stream_finish i st rpc started\<rparr>), w4)) w2)"

section \<open>A stream in use\<close>

text \<open>
  gRPC allows one goroutine to send while another receives. A call of the wrapper is two steps, the
  call of the inner stream and, if that failed, the report through the \<^verbatim>\<open>sync.Once\<close>; the steps of the
  two goroutines interleave. A state is the world and, for each goroutine, the error it has yet to report; the list
  holds every error the inner stream has returned.
\<close>

inductive stream_run :: "('n call_world, 'm) observedClientStream \<Rightarrow> 'n call_world \<Rightarrow> error list \<Rightarrow>
    'n call_world \<times> error option \<times> error option \<Rightarrow> bool" for s w0 where
  opened: "stream_run s w0 [] (w0, None, None)"
| sent: "stream_run s w0 es (w, None, q) \<Longrightarrow> cs_SendMsg (oc_ClientStream s) m w = (Inr (), w') \<Longrightarrow> stream_run s w0 es (w', None, q)"
| send_failed: "stream_run s w0 es (w, None, q) \<Longrightarrow> cs_SendMsg (oc_ClientStream s) m w = (Inl e, w') \<Longrightarrow> stream_run s w0 (e # es) (w', Some e, q)"
| send_reported: "stream_run s w0 es (w, Some e, q) \<Longrightarrow> stream_run s w0 es (once_Do (oc_once s) (oc_finish s e) w, None, q)"
| received: "stream_run s w0 es (w, p, None) \<Longrightarrow> cs_RecvMsg (oc_ClientStream s) w = (Inr m, w') \<Longrightarrow> stream_run s w0 es (w', p, None)"
| receive_failed: "stream_run s w0 es (w, p, None) \<Longrightarrow> cs_RecvMsg (oc_ClientStream s) w = (Inl e, w') \<Longrightarrow> stream_run s w0 (e # es) (w', p, Some e)"
| receive_reported: "stream_run s w0 es (w, p, Some e) \<Longrightarrow> stream_run s w0 es (once_Do (oc_once s) (oc_finish s e) w, p, None)"

text \<open>A stream dialled over a transport.\<close>

definition dial_stream :: "(ctx \<Rightarrow> 'n call_world \<Rightarrow> (error + unit) \<times> int \<times> 'n) \<Rightarrow> ('m \<Rightarrow> 'n call_world \<Rightarrow> (error + unit) \<times> int \<times> 'n) \<Rightarrow>
    ('n call_world \<Rightarrow> (error + 'm) \<times> int \<times> 'n) \<Rightarrow> ('n call_world, 'm) streamer" where
  "dial_stream dial send recv c = attempt (transport (dial c)) fail
     (\<lambda>_. return \<lparr>cs_SendMsg = (\<lambda>m. transport (send m)), cs_RecvMsg = transport recv\<rparr>)"

text \<open>The telemetry one stream leaves when it starts and when it completes.\<close>

definition start_events :: "'w client_interceptor \<Rightarrow> client_rpc_info \<Rightarrow> event list" where
  "start_events i rpc =
     (if ci_tracing i = None then [] else [SpanStart SpanClient ''grpc-client'' (cr_method rpc) (client_spanStartFields rpc)]) @
     (if ci_metrics i = None then [] else [UpDownAdd ''grpc_client_active_streams'' 1 (client_spanStartFields rpc)])"

definition metric_events :: "client_rpc_outcome \<Rightarrow> event list" where
  "metric_events out =
     (let f = client_metricFields (cu_rpc out) (StatusName (cu_status out)) in
      [UpDownAdd ''grpc_client_active_streams'' (- 1) (client_spanStartFields (cu_rpc out)),
       CounterAdd ''grpc_client_requests_total'' 1 f, HistogramRecord ''grpc_client_request_duration_seconds'' (cu_duration out) f] @
      (if cu_status out \<noteq> OK then [CounterAdd ''grpc_client_errors_total'' 1 f] else []))"

definition log_events :: "'w client_access_log \<Rightarrow> client_rpc_outcome \<Rightarrow> event list" where
  "log_events l out = (case al_policy l of None \<Rightarrow> []
     | Some policy \<Rightarrow> (case policy (log_outcome_of out) of (s, enabled) \<Rightarrow> if enabled then [client_log_entry s out] else []))"

definition span_events :: "client_rpc_outcome \<Rightarrow> event list" where
  "span_events out =
     (let et = ClientErrorType (cu_status out) in
      [SpanAttributes (put_field_if (et \<noteq> []) ''app.rpc.status_message'' (AString (cu_message out))
          (put_field_if (et \<noteq> []) ''error.type'' (AString et) (FromPairs [AString ''rpc.response.status_code'', AString (StatusName (cu_status out))]))),
       SpanFinish (cu_callError out) (Some (cu_message out))])"

definition completion_events :: "'w client_interceptor \<Rightarrow> client_rpc_outcome \<Rightarrow> event list" where
  "completion_events i out =
     (if ci_metrics i = None then [] else metric_events out) @
     (case ci_accessLog i of None \<Rightarrow> [] | Some l \<Rightarrow> log_events l out) @
     (if ci_tracing i = None then [] else span_events out)"

text \<open>An interceptor whose telemetry ends up in the events of the world, and worlds whose cells are used in order.\<close>

definition recording :: "('n call_world) client_interceptor \<Rightarrow> bool" where
  "recording i \<longleftrightarrow> (\<forall>t. ci_tracing i = Some t \<longrightarrow> tc_sink (ct_tracer t) = record_event) \<and>
     (\<forall>mt. ci_metrics i = Some mt \<longrightarrow> mt = record_event) \<and> (\<forall>l. ci_accessLog i = Some l \<longrightarrow> al_log l = record_event)"

definition cells_ok :: "'n call_world \<Rightarrow> bool" where
  "cells_ok w \<longleftrightarrow> (\<forall>n\<in>set (cw_done w). n < cw_fresh w)"

definition emits :: "event list \<Rightarrow> 'n call_world \<Rightarrow> 'n call_world" where
  "emits evs w = w\<lparr>cw_events := cw_events w @ evs\<rparr>"

section \<open>Lemmas\<close>

lemma emits_simps [simp]:
  "record_event ev = emits [ev]" "emits [] w = w" "emits b (emits a w) = emits (a @ b) w"
  "cw_events (emits evs w) = cw_events w @ evs" "cw_done (emits evs w) = cw_done w" "cw_fresh (emits evs w) = cw_fresh w"
  "cw_clock (emits evs w) = cw_clock w" "cw_released (emits evs w) = cw_released w"
  by (simp_all add: emits_def record_event_def fun_eq_iff)

lemma finish_emits: "recording i \<Longrightarrow> client_finish i out True w = emits (completion_events i out) w"
  by (auto simp: recording_def client_finish_def client_StreamFinished_def client_metrics_Record_def AccessLog_Record_def client_tracing_Finish_def
      completion_events_def metric_events_def log_events_def span_events_def Let_def split: option.splits prod.splits)

lemma start_emits:
  assumes "recording i" "client_start i c rpc w = (c1, w1)"
  shows "(case ci_metrics i of None \<Rightarrow> w1 | Some mt \<Rightarrow> client_StreamStarted mt rpc w1) = emits (start_events i rpc) w"
  using assms by (auto simp: recording_def client_start_def client_tracing_Start_def client_StreamStarted_def start_events_def Let_def
      split: option.splits if_splits)

text \<open>What the inner stream may do to the bookkeeping of the wrapper: allocate, and nothing else.\<close>

definition keeps :: "('n call_world, 'a) eff \<Rightarrow> bool" where
  "keeps m \<longleftrightarrow> (\<forall>w. cw_events (snd (m w)) = cw_events w \<and> cw_done (snd (m w)) = cw_done w \<and> cw_fresh w \<le> cw_fresh (snd (m w)))"

lemma keepsD:
  assumes "keeps m" "m w = (r, w')"
  shows "cw_events w' = cw_events w" "cw_done w' = cw_done w" "cw_fresh w \<le> cw_fresh w'"
  using assms(1) [unfolded keeps_def, rule_format, of w] assms(2) by simp_all

lemma keeps_transport [simp]: "keeps (transport f)"
  by (simp add: keeps_def transport_def split: prod.split)

lemma keeps_on_error: "keeps m \<Longrightarrow> (\<And>e w. cw_events (h e w) = cw_events w \<and> cw_done (h e w) = cw_done w \<and> cw_fresh (h e w) = cw_fresh w) \<Longrightarrow> keeps (on_error m h)"
  by (simp add: keeps_def on_error_def split: sum.split)

definition keeps_stream :: "('n call_world, 'm) client_stream \<Rightarrow> bool" where
  "keeps_stream s \<longleftrightarrow> (\<forall>m. keeps (cs_SendMsg s m)) \<and> keeps (cs_RecvMsg s)"

lemma keeps_canceling:
  assumes "keeps_stream s" "\<And>w. cw_events (cancel w) = cw_events w \<and> cw_done (cancel w) = cw_done w \<and> cw_fresh (cancel w) = cw_fresh w"
  shows "keeps_stream (cancelingClientStream s cancel)"
  using assms by (simp add: keeps_stream_def cancelingClientStream_def keeps_on_error)

lemma prepare_keeps:
  assumes "client_prepare cfg c w = (c1, cancel, w1)"
  shows "cw_events (cancel v) = cw_events v \<and> cw_done (cancel v) = cw_done v \<and> cw_fresh (cancel v) = cw_fresh v"
    "cw_events w1 = cw_events w" "cw_done w1 = cw_done w" "cw_fresh w \<le> cw_fresh w1"
  using assms by (auto simp: client_prepare_def new_cell_def cancel_cell_def Let_def split: if_splits)

lemma dial_keeps:
  assumes "dial_stream dial send recv c w = (r, w')"
  shows "cw_events w' = cw_events w" "cw_done w' = cw_done w" "cw_fresh w \<le> cw_fresh w'" "r = Inr s \<Longrightarrow> keeps_stream s"
  using assms by (auto simp: dial_stream_def keeps_stream_def attempt_def transport_def split: prod.splits sum.splits)

lemma context_stream_keeps:
  assumes "client_requestcontext_Stream cfg (dial_stream dial send recv) c w = (r, w')"
  shows "cw_events w' = cw_events w" "cw_done w' = cw_done w" "cw_fresh w \<le> cw_fresh w'" "r = Inr s \<Longrightarrow> keeps_stream s"
proof -
  obtain c1 cancel w1 where prep: "client_prepare cfg c w = (c1, cancel, w1)"
    by (cases "client_prepare cfg c w") auto
  obtain r1 w2 where dial: "dial_stream dial send recv c1 w1 = (r1, w2)"
    by (cases "dial_stream dial send recv c1 w1")
  note keep = prepare_keeps [OF prep] dial_keeps [OF dial]
  show "cw_events w' = cw_events w" "cw_done w' = cw_done w" "cw_fresh w \<le> cw_fresh w'"
    using assms prep dial keep by (auto simp: client_requestcontext_Stream_def attempt_def split: sum.splits)
  show "r = Inr s \<Longrightarrow> keeps_stream s"
    using assms prep dial keep by (auto simp: client_requestcontext_Stream_def attempt_def intro: keeps_canceling split: sum.splits)
qed

text \<open>
  The invariant of a stream in use: until a failure is reported nothing is recorded; from then on the
  record is the completion of one failure, whatever else the two goroutines do; and a failure is
  either recorded or about to be.
\<close>

definition outcome_recorded :: "('n call_world) client_interceptor \<Rightarrow> grpc_status \<Rightarrow> client_rpc_info \<Rightarrow> event list \<Rightarrow> error list \<Rightarrow> event list \<Rightarrow> bool" where
  "outcome_recorded i st rpc before es evs \<longleftrightarrow>
     (\<exists>e\<in>set es. \<exists>d. evs = before @ completion_events i (client_newRPCOutcome st rpc d (if errors_Is e IoEOF then None else Some e)))"

lemma outcome_recorded_more: "outcome_recorded i st rpc before es evs \<Longrightarrow> outcome_recorded i st rpc before (e # es) evs"
  by (auto simp: outcome_recorded_def)

lemma report_records:
  assumes "recording i" "oc_finish s = stream_finish i st rpc started" "e \<in> set es" "cw_events w = before"
    "oc_once s \<notin> set (cw_done w)"
  shows "outcome_recorded i st rpc before es (cw_events (once_Do (oc_once s) (oc_finish s e) w))"
    "oc_once s \<in> set (cw_done (once_Do (oc_once s) (oc_finish s e) w))"
  using assms by (auto simp: once_Do_def stream_finish_def finish_emits outcome_recorded_def Let_def)

lemma once_again: "n \<in> set (cw_done w) \<Longrightarrow> once_Do n f w = w"
  by (simp add: once_Do_def)

definition stream_inv :: "('n call_world) client_interceptor \<Rightarrow> grpc_status \<Rightarrow> client_rpc_info \<Rightarrow> nat \<Rightarrow> event list \<Rightarrow> error list \<Rightarrow>
    'n call_world \<times> error option \<times> error option \<Rightarrow> bool" where
  "stream_inv i st rpc n before es = (\<lambda>(w, p, q).
     set_option p \<union> set_option q \<subseteq> set es \<and>
     (if n \<in> set (cw_done w) then outcome_recorded i st rpc before es (cw_events w)
      else cw_events w = before \<and> (es = [] \<or> p \<noteq> None \<or> q \<noteq> None)))"

lemma stream_run_inv:
  assumes "stream_run s w0 es x" "recording i" "oc_finish s = stream_finish i st rpc started" "keeps_stream (oc_ClientStream s)"
    "oc_once s \<notin> set (cw_done w0)"
  shows "stream_inv i st rpc (oc_once s) (cw_events w0) es x"
  using assms(1)
proof (induction rule: stream_run.induct)
  case opened
  then show ?case
    using assms(5) by (simp add: stream_inv_def)
next
  case (sent es w q m w')
  have "keeps (cs_SendMsg (oc_ClientStream s) m)"
    using assms(4) by (simp add: keeps_stream_def)
  from keepsD [OF this sent(2)] show ?case
    using sent by (auto simp: stream_inv_def split: if_splits)
next
  case (send_failed es w q m e w')
  have "keeps (cs_SendMsg (oc_ClientStream s) m)"
    using assms(4) by (simp add: keeps_stream_def)
  from keepsD [OF this send_failed(2)] show ?case
    using send_failed by (auto simp: stream_inv_def outcome_recorded_more split: if_splits)
next
  case (send_reported es w e q)
  then show ?case
    using report_records [OF assms(2,3), of e es w "cw_events w0"] by (auto simp: stream_inv_def once_again split: if_splits)
next
  case (received es w p m w')
  have "keeps (cs_RecvMsg (oc_ClientStream s))"
    using assms(4) by (simp add: keeps_stream_def)
  from keepsD [OF this received(2)] show ?case
    using received by (auto simp: stream_inv_def split: if_splits)
next
  case (receive_failed es w p e w')
  have "keeps (cs_RecvMsg (oc_ClientStream s))"
    using assms(4) by (simp add: keeps_stream_def)
  from keepsD [OF this receive_failed(2)] show ?case
    using receive_failed by (auto simp: stream_inv_def outcome_recorded_more split: if_splits)
next
  case (receive_reported es w p e)
  then show ?case
    using report_records [OF assms(2,3), of e es w "cw_events w0"] by (auto simp: stream_inv_def once_again split: if_splits)
qed

text \<open>Calling the wrapper without interleaving is one of the runs.\<close>

lemma send_run:
  assumes "stream_run s w0 es (w, None, q)" "observed_SendMsg s m w = (r, w')"
  shows "stream_run s w0 (case r of Inl e \<Rightarrow> e # es | Inr _ \<Rightarrow> es) (w', None, q)"
proof (cases "cs_SendMsg (oc_ClientStream s) m w")
  case (Pair r1 w1)
  then show ?thesis
    using assms sent [OF assms(1), of m w1] send_reported [OF send_failed [OF assms(1), of m _ w1]]
    by (cases r1) (auto simp: observed_SendMsg_def on_error_def finally_do_def)
qed

lemma receive_run:
  assumes "stream_run s w0 es (w, p, None)" "observed_RecvMsg s w = (r, w')"
  shows "stream_run s w0 (case r of Inl e \<Rightarrow> e # es | Inr _ \<Rightarrow> es) (w', p, None)"
proof (cases "cs_RecvMsg (oc_ClientStream s) w")
  case (Pair r1 w1)
  then show ?thesis
    using assms received [OF assms(1), of _ w1] receive_reported [OF receive_failed [OF assms(1), of _ w1]]
    by (cases r1) (auto simp: observed_RecvMsg_def on_error_def finally_do_def)
qed

lemma client_stream_cases:
  assumes "client_observability_Stream i st method cl sv (client_requestcontext_Stream cfg (dial_stream dial send recv)) c w = (r, w0)"
    and "client_enabled i" "recording i" "cells_ok w"
  defines "rpc \<equiv> interceptor_rpc i method (streamType cl sv)"
  obtains (refused) e d where "r = Inl e"
      "cw_events w0 = cw_events w @ start_events i rpc @ completion_events i (client_newRPCOutcome st rpc d (Some e))"
    | (opened) s started where "r = Inr (as_client_stream s)" "oc_finish s = stream_finish i st rpc started" "keeps_stream (oc_ClientStream s)"
      "oc_once s \<notin> set (cw_done w0)" "cw_events w0 = cw_events w @ start_events i rpc"
proof -
  obtain c1 w1 where start: "client_start i c rpc w = (c1, w1)"
    by (cases "client_start i c rpc w")
  let ?w2 = "emits (start_events i rpc) w"
  obtain r3 w3 where inner: "client_requestcontext_Stream cfg (dial_stream dial send recv) c1 ?w2 = (r3, w3)"
    by (cases "client_requestcontext_Stream cfg (dial_stream dial send recv) c1 ?w2")
  note keep = context_stream_keeps [OF inner] and begun = start_emits [OF assms(3) start]
  show thesis
  proof (cases r3)
    case (Inl e)
    then show thesis
      using assms(1,2) start begun inner keep refused [of e "cw_clock w3 - cw_clock w1"]
      by (auto simp: client_observability_Stream_def finish_emits [OF assms(3)] Let_def simp flip: rpc_def)
  next
    case (Inr s)
    let ?s = "\<lparr>oc_ClientStream = s, oc_once = cw_fresh w3, oc_finish = stream_finish i st rpc (cw_clock w1)\<rparr>"
    have result: "r = Inr (as_client_stream ?s)" "w0 = w3\<lparr>cw_fresh := Suc (cw_fresh w3)\<rparr>"
      using assms(1,2) start begun inner Inr by (auto simp: client_observability_Stream_def new_cell_def Let_def simp flip: rpc_def)
    have "cw_fresh w3 \<notin> set (cw_done w3)"
      using assms(4) keep by (auto simp: cells_ok_def)
    then show thesis
      using opened [OF result(1)] keep(1,4) Inr result(2) by simp
  qed
qed

text \<open>Host names the endpoint parser reads back: letters, digits, hyphens and periods.\<close>

definition plain_host :: "string \<Rightarrow> bool" where
  "plain_host h \<longleftrightarrow> h \<noteq> [] \<and> list_all (\<lambda>c. is_letter c \<or> is_digit c \<or> c = CHR ''-'' \<or> c = CHR ''.'') h"

definition ordinary :: "char \<Rightarrow> bool" where
  "ordinary c \<longleftrightarrow> is_letter c \<or> is_digit c \<or> c = CHR ''-'' \<or> c = CHR ''.''"

lemma ordinary_not:
  assumes "ordinary c"
  shows "c \<noteq> CHR '':'' \<and> c \<noteq> CHR ''/'' \<and> c \<noteq> CHR ''?'' \<and> c \<noteq> CHR ''#'' \<and> c \<noteq> CHR ''%'' \<and> c \<noteq> CHR ''['' \<and> c \<noteq> CHR '']'' \<and> \<not> is_ctl c"
  using assms by (auto simp: ordinary_def is_letter_def is_digit_def is_ctl_def less_eq_char_def)

lemma ordinary_free:
  assumes "list_all ordinary s"
  shows "CHR '':'' \<notin> set s" "CHR ''/'' \<notin> set s" "CHR ''?'' \<notin> set s" "CHR ''#'' \<notin> set s" "CHR ''%'' \<notin> set s" "CHR ''['' \<notin> set s"
    "CHR '']'' \<notin> set s" "\<not> list_ex is_ctl s"
  using assms ordinary_not by (auto simp: list_all_iff list_ex_iff)

lemma Cut_free: "c \<notin> set s \<Longrightarrow> Cut s c = (s, [])"
proof -
  assume "c \<notin> set s"
  then have "takeWhile (\<lambda>x. x \<noteq> c) s = s" "dropWhile (\<lambda>x. x \<noteq> c) s = []"
    by (auto simp: takeWhile_eq_all_conv dropWhile_eq_Nil_conv)
  then show ?thesis
    unfolding Cut_def by (simp only: drop_Nil)
qed

lemma unescape_free: "CHR ''%'' \<notin> set s \<Longrightarrow> unescape s = Some s"
  by (induction s) auto

lemma port_text:
  assumes "0 \<le> port"
  shows "list_all ordinary (Itoa port)"
  using assms nat_digits_props [of "nat port"] by (auto simp: Itoa_def ordinary_def list_all_iff)

lemma split_plain:
  assumes "list_all ordinary host" "list_all ordinary text"
  shows "SplitHostPort (host @ '':'' @ text) = Some (host, text)"
proof -
  have "x \<in> set (rev text) \<Longrightarrow> x \<noteq> CHR '':''" for x
    using ordinary_free(1) [OF assms(2)] by auto
  then have "takeWhile (\<lambda>x. x \<noteq> CHR '':'') (rev text @ CHR '':'' # rev host) = rev text"
    "dropWhile (\<lambda>x. x \<noteq> CHR '':'') (rev text @ CHR '':'' # rev host) = CHR '':'' # rev host"
    by (subst takeWhile_append2 dropWhile_append2; simp)+
  then have "last_colon (host @ '':'' @ text) = Some (host, text)"
    by (simp add: last_colon_def)
  moreover have "\<not> HasPrefix (host @ '':'' @ text) ''[''"
    using ordinary_free(6) [OF assms(1)] by (cases host) (auto simp: HasPrefix_def)
  ultimately show ?thesis
    using ordinary_free [OF assms(1)] ordinary_free [OF assms(2)] by (simp add: SplitHostPort_def)
qed

lemma candidate_plain:
  assumes "list_all ordinary host" "0 < port" "port \<le> 65535"
  shows "candidate_endpoint target (host @ '':'' @ Itoa port) = (host, port)"
proof -
  have "Atoi (Itoa port) = Some port"
    using assms by (intro Atoi_Itoa) (simp add: int64_range_def)
  then show ?thesis
    using assms split_plain [OF assms(1) port_text] by (simp add: candidate_endpoint_def)
qed

lemma candidate_cases:
  assumes "candidate_endpoint target cand = (a, p)"
  shows "(a = target \<and> p = 0) \<or> (0 < p \<and> p \<le> 65535 \<and> (\<exists>digits. SplitHostPort cand = Some (a, digits) \<and> Atoi digits = Some p))"
  using assms by (auto simp: candidate_endpoint_def split: option.splits prod.splits if_splits)

lemma endpoint_cases:
  assumes "parseServerEndpoint authority_ok target = (a, p)"
  obtains (itself) "a = target" "p = 0"
    | (socket) u where "url_Parse authority_ok target = Some u" "url_Scheme u = ''unix''" "url_Path u \<noteq> []" "a = url_Path u" "p = 0"
    | (resolved) u where "url_Parse authority_ok target = Some u" "url_Scheme u = ''dns''" "candidate_endpoint target (TrimPrefix (url_Path u) ''/'') = (a, p)"
    | (direct) "candidate_endpoint target target = (a, p)"
proof (cases "target = []")
  case True
  then show thesis
    using assms itself by (simp add: parseServerEndpoint_def)
next
  case False
  show thesis
  proof (cases "url_Parse authority_ok target")
    case None
    then show thesis
      using assms False direct by (simp add: parseServerEndpoint_def)
  next
    case (Some u)
    with assms False show thesis
      unfolding parseServerEndpoint_def by (auto split: if_split_asm intro: itself direct socket [OF Some] resolved [OF Some])
  qed
qed

lemma dns_endpoint:
  assumes "plain_host host" "authority_ok []" "0 < port" "port \<le> 65535"
  shows "parseServerEndpoint authority_ok (''dns:///'' @ host @ '':'' @ Itoa port) = (host, port)"
proof -
  let ?hp = "host @ '':'' @ Itoa port"
  have host: "list_all ordinary host"
    using assms(1) by (simp add: plain_host_def list_all_iff ordinary_def)
  have port: "list_all ordinary (Itoa port)"
    using assms(3) by (simp add: port_text)
  note free = ordinary_free [OF host] ordinary_free [OF port]
  have cut: "Cut (''dns:///'' @ ?hp) CHR ''#'' = (''dns:///'' @ ?hp, [])" "Cut (''///'' @ ?hp) CHR ''?'' = (''///'' @ ?hp, [])"
    by (rule Cut_free, use free in simp)+
  have "unescape (''/'' @ ?hp) = Some (''/'' @ ?hp)"
    by (rule unescape_free) (use free in simp)
  then have "parse_rest authority_ok ''dns'' (''///'' @ ?hp) = Some \<lparr>url_Scheme = ''dns'', url_Path = ''/'' @ ?hp\<rparr>"
    using assms(2) by (simp add: parse_rest_def parse_path_def HasPrefix_def)
  moreover have "getScheme (''dns:///'' @ ?hp) = Some (''dns'', ''///'' @ ?hp)"
    by (simp add: getScheme_def is_letter_def is_digit_def less_eq_char_def)
  moreover have "ToLower ''dns'' = ''dns''"
    by code_simp
  moreover have "\<not> list_ex is_ctl (''dns:///'' @ ?hp)"
    using free by (simp add: is_ctl_def)
  ultimately have "url_Parse authority_ok (''dns:///'' @ ?hp) = Some \<lparr>url_Scheme = ''dns'', url_Path = ''/'' @ ?hp\<rparr>"
    unfolding url_Parse_def cut(1) using cut(2) by simp
  moreover have "Contains (''dns:///'' @ ?hp) ''://''"
    by (simp add: HasPrefix_def)
  ultimately show ?thesis
    using candidate_plain [OF host assms(3,4)] by (simp add: parseServerEndpoint_def TrimPrefix_def HasPrefix_def)
qed

lemma no_slashes: "CHR ''/'' \<notin> set s \<Longrightarrow> \<not> Contains s ''://''"
proof (induction s)
  case (Cons c s)
  have "\<not> HasPrefix (c # s) ''://''"
    using Cons.prems by (cases s) (auto simp: HasPrefix_def)
  then show ?case
    using Cons by simp
qed simp

lemma unix_opaque:
  assumes "CHR ''/'' \<notin> set s" "HasPrefix s ''unix:''"
  shows "url_Parse authority_ok s \<in> {None, Some \<lparr>url_Scheme = ''unix'', url_Path = []\<rparr>}"
proof -
  obtain r where s: "s = ''unix:'' @ r"
    using assms(2) by (metis HasPrefix_def append_take_drop_id)
  obtain r1 frag where cut: "Cut r CHR ''#'' = (r1, frag)" "set r1 \<subseteq> set r"
    by (auto simp: Cut_def dest: set_takeWhileD)
  then have "Cut s CHR ''#'' = (''unix:'' @ r1, frag)"
    by (simp add: s Cut_def)
  moreover have "getScheme (''unix:'' @ r1) = Some (''unix'', r1)"
    by (simp add: getScheme_def is_letter_def is_digit_def less_eq_char_def)
  moreover have "\<not> HasPrefix (fst (Cut r1 CHR ''?'')) ''/''"
    using assms(1) cut(2) by (cases r1) (auto simp: s Cut_def HasPrefix_def)
  moreover have "ToLower ''unix'' = ''unix''"
    by code_simp
  ultimately show ?thesis
    by (simp add: url_Parse_def parse_rest_def)
qed

lemma plain_endpoint:
  assumes "plain_host host" "0 < port" "port \<le> 65535"
  shows "parseServerEndpoint authority_ok (host @ '':'' @ Itoa port) = (host, port)"
proof -
  let ?hp = "host @ '':'' @ Itoa port"
  have host: "list_all ordinary host"
    using assms(1) by (simp add: plain_host_def list_all_iff ordinary_def)
  have "CHR ''/'' \<notin> set ?hp"
    using ordinary_free(2) [OF host] ordinary_free(2) [OF port_text [of port]] assms(2) by simp
  then have "\<not> Contains ?hp ''://''" "HasPrefix ?hp ''unix:'' \<longrightarrow> url_Parse authority_ok ?hp \<in> {None, Some \<lparr>url_Scheme = ''unix'', url_Path = []\<rparr>}"
    using no_slashes [of ?hp] unix_opaque [of ?hp authority_ok] by blast+
  then show ?thesis
    using candidate_plain [OF host assms(2,3), of ?hp] by (auto simp: parseServerEndpoint_def split: option.split)
qed

lemma NormalizeKey_Inr: "NormalizeKey k = Inr key \<Longrightarrow> key = ToLower (TrimSpace k)"
  by (auto simp: NormalizeKey_def ToLower_def Let_def split: if_splits)

section \<open>Properties\<close>


text \<open>A stream over a transport that accepts every message and then ends: start, two calls, one completion.\<close>

definition traced_client :: "(unit call_world) client_interceptor" where
  "traced_client = client_observability_New (\<lambda>_. True) ''billing'' ''dns:///billing:50051''
     [WithTracing (Some \<lparr>tc_sink = record_event, tc_StartClient = id, tc_Inject = (\<lambda>_. [])\<rparr>) False, WithMetrics (Some record_event)]"

definition idle_world :: "unit call_world" where
  "idle_world = \<lparr>cw_clock = 0, cw_fresh = 0, cw_released = [], cw_done = [], cw_events = [], cw_net = ()\<rparr>"

definition ending_stream :: "error + unit \<Rightarrow> (unit call_world, unit) streamer" where
  "ending_stream reply = dial_stream (\<lambda>_ w. (Inr (), cw_clock w + 1, ())) (\<lambda>_ w. (Inr (), cw_clock w + 1, ())) (\<lambda>w. (reply, cw_clock w + 1, ()))"

lemma traced_client_simps:
  "ci_tracing traced_client = Some \<lparr>ct_tracer = \<lparr>tc_sink = record_event, tc_StartClient = id, tc_Inject = (\<lambda>_. [])\<rparr>, ct_propagateTraceContext = False\<rparr>"
  "ci_metrics traced_client = Some record_event" "ci_accessLog traced_client = None"
  by (simp_all add: traced_client_def client_observability_New_def WithTracing_def WithMetrics_def client_NewRequestMetrics_def NewTracing_def
      or_noop_def split: prod.split del: emits_simps(1))

lemma traced_client_ok: "client_enabled traced_client" "recording traced_client" "cells_ok idle_world"
  by (simp_all add: traced_client_simps client_enabled_def recording_def cells_ok_def idle_world_def del: emits_simps(1))

lemmas client_stream_run_defs = client_observability_Stream_def client_start_def client_tracing_Start_def client_StreamStarted_def
  client_requestcontext_Stream_def client_prepare_def ending_stream_def dial_stream_def cancelingClientStream_def as_client_stream_def
  observed_SendMsg_def observed_RecvMsg_def on_error_def finally_do_def attempt_def transport_def new_cell_def

text \<open>
  A call that only the client streams ends with the single reply of the server, which the inner stream returns without an
  error: nothing tells the wrapper that the call is over. A successful call of that kind stays in the
  gauge of active streams, its span stays open and its context is not released.
\<close>

lemma client_streaming_success_unrecorded:
  assumes "client_observability_Stream traced_client st method True False
      (client_requestcontext_Stream \<lparr>rq_Timeout = Second, rq_RequestIDMetadataKey = []\<rparr> (ending_stream (Inr ()))) c idle_world = (Inr stream, w0)"
    "cs_SendMsg stream () w0 = (r1, w1)" "cs_RecvMsg stream w1 = (r2, w2)"
  shows "r1 = Inr () \<and> r2 = Inr () \<and> cw_released w2 = [] \<and>
    cw_events w2 = start_events traced_client (interceptor_rpc traced_client method ''client_stream'')"
  using assms traced_client_ok(1)
  by (auto simp: client_stream_run_defs traced_client_simps start_events_def streamType_def idle_world_def Let_def)


text \<open>
  The request identifier of a caller reaches the service it calls. The client and the server are
  configured with the same metadata key up to case and surrounding space; the outgoing metadata of the
  call arrives unchanged under that key. Then the server gives its handler the very identifier the caller's context
  carried, and neither refuses the call nor drops it; everything else the caller
  had put in the outgoing metadata is still there; and the deadline of the call is never later than
  the caller's own.
\<close>

theorem request_id_propagated:
  assumes "client_requestcontext_New ccfg = Inr ccfg1" "NewRequestContext scfg = Inr scfg1"
    and "ToLower (TrimSpace (rq_RequestIDMetadataKey ccfg)) = ToLower (TrimSpace (xc_IncomingMetadataKey scfg))"
      "TrimSpace (rq_RequestIDMetadataKey ccfg) \<noteq> []"
    and "ctx_request_id c = Some i" "IsValidRequestID i"
    and prepared: "client_prepare ccfg1 c w = (c1, cancel, w1)"
    and delivered: "\<And>md. ctx_outgoing c1 = Some md \<Longrightarrow> ctx_incoming sc \<noteq> None \<and>
      md_Get (the (ctx_incoming sc)) (xc_IncomingMetadataKey scfg1) = md_Get md (xc_IncomingMetadataKey scfg1)"
  shows "context_enrich scfg1 sc = Inr (WithRequestID sc i, i) \<and>
    (\<exists>md. ctx_outgoing c1 = Some md \<and> (\<forall>k. ToLower k \<noteq> rq_RequestIDMetadataKey ccfg1 \<longrightarrow> md_Get md k = md_Get (outgoing_copy c) k)) \<and>
    (\<forall>t. ctx_deadline c = Some t \<longrightarrow> (\<exists>t1\<le>t. ctx_deadline c1 = Some t1))"
proof -
  let ?key = "ToLower (TrimSpace (rq_RequestIDMetadataKey ccfg))"
  have client: "rq_RequestIDMetadataKey ccfg1 = ?key"
    using assms(1) by (auto simp: client_requestcontext_New_def dest: NormalizeKey_Inr split: sum.splits)
  have server: "xc_IncomingMetadataKey scfg1 = ToLower (TrimSpace (xc_IncomingMetadataKey scfg))"
    using assms(2) by (auto simp: NewRequestContext_def dest: NormalizeKey_Inr split: sum.splits)
  have keys: "rq_RequestIDMetadataKey ccfg1 = ?key" "xc_IncomingMetadataKey scfg1 = ?key" "?key \<noteq> []" "ToLower ?key = ?key"
    using client server assms(3,4) by (auto simp del: ToLower_Nil_iff simp add: ToLower_Nil_iff [of "TrimSpace (rq_RequestIDMetadataKey ccfg)"])
  have "i \<noteq> []"
    using assms(6) by (auto simp: IsValidRequestID_def)
  then have out: "ctx_outgoing c1 = Some (AList.update ?key [i] (outgoing_copy c))"
    using prepared assms(5) keys by (auto simp: client_prepare_def new_cell_def withRequestIDMetadata_def RequestIDFromContext_def md_Set_def
        WithTimeout_def Let_def split: if_splits)
  then obtain md where "ctx_incoming sc = Some md" "md_Get md ?key = [i]"
    using delivered keys by (auto simp: md_Get_def update_conv')
  then have "context_enrich scfg1 sc = Inr (WithRequestID sc i, i)"
    using assms(6) keys \<open>i \<noteq> []\<close> by (simp add: context_enrich_def rpc_incomingRequestID_def)
  moreover have "md_Get (AList.update ?key [i] (outgoing_copy c)) k = md_Get (outgoing_copy c) k" if "ToLower k \<noteq> ?key" for k
    using that by (simp add: md_Get_def update_conv')
  moreover have "\<exists>t1\<le>t. ctx_deadline c1 = Some t1" if "ctx_deadline c = Some t" for t
    using prepared that by (auto simp: client_prepare_def new_cell_def withRequestIDMetadata_def WithTimeout_def Let_def split: if_splits)
  ultimately show ?thesis
    using out keys(1) by auto
qed

theorem request_id_propagated_witness:
  "context_enrich \<lparr>xc_Timeout = 0, xc_IncomingMetadataKey = ''x-request-id'', xc_ResponseMetadataKey = [], xc_RejectInvalid = True\<rparr>
       (Background\<lparr>ctx_incoming := Some [(''x-request-id'', [''r-1'']), (''authorization'', [''t''])]\<rparr>) =
     Inr (WithRequestID (Background\<lparr>ctx_incoming := Some [(''x-request-id'', [''r-1'']), (''authorization'', [''t''])]\<rparr>) ''r-1'', ''r-1'')"
proof -
  let ?cc = "\<lparr>rq_Timeout = Second, rq_RequestIDMetadataKey = ''x-request-id''\<rparr>"
  let ?sc = "\<lparr>xc_Timeout = 0, xc_IncomingMetadataKey = ''x-request-id'', xc_ResponseMetadataKey = [], xc_RejectInvalid = True\<rparr>"
  let ?c = "(WithRequestID Background ''r-1'')\<lparr>ctx_outgoing := Some [(''Authorization'', [''t''])]\<rparr>"
  have key: "NormalizeKey '' X-Request-ID'' = Inr ''x-request-id''" "NormalizeKey ''x-request-id'' = Inr ''x-request-id''" "NormalizeKey [] = Inr []"
    by code_simp+
  obtain c1 cancel w1 where prepared: "client_prepare ?cc ?c idle_world = (c1, cancel, w1)"
    by (cases "client_prepare ?cc ?c idle_world") auto
  have lower: "ToLower ''x-request-id'' = ''x-request-id''" "ToLower ''Authorization'' = ''authorization''"
    by code_simp+
  have "ctx_outgoing c1 = Some [(''authorization'', [''t'']), (''x-request-id'', [''r-1''])]"
    using prepared by (auto simp: client_prepare_def new_cell_def withRequestIDMetadata_def RequestIDFromContext_def WithRequestID_def md_Set_def
        outgoing_copy_def FromOutgoingContext_def WithTimeout_def lower Let_def)
  moreover have "client_requestcontext_New \<lparr>rq_Timeout = Second, rq_RequestIDMetadataKey = '' X-Request-ID''\<rparr> = Inr ?cc" "NewRequestContext ?sc = Inr ?sc"
    by (simp_all add: client_requestcontext_New_def NewRequestContext_def key)
  moreover have "IsValidRequestID ''r-1''"
    by code_simp
  moreover have "ToLower (TrimSpace '' X-Request-ID'') = ToLower (TrimSpace ''x-request-id'')" "TrimSpace '' X-Request-ID'' \<noteq> []"
    by code_simp+
  ultimately show ?thesis
    using request_id_propagated [of "\<lparr>rq_Timeout = Second, rq_RequestIDMetadataKey = '' X-Request-ID''\<rparr>" ?cc ?sc ?sc ?c "''r-1''",
        OF _ _ _ _ _ _ prepared, of "Background\<lparr>ctx_incoming := Some [(''x-request-id'', [''r-1'']), (''authorization'', [''t''])]\<rparr>"]
    by (simp add: WithRequestID_def md_Get_def lower)
qed

text \<open>
  The endpoint in the telemetry of a connection. For every target the port is between 0 and 65535; a port other than 0 comes
  with the host it was written with, in the target or in the path of a resolver target; without a port the address is the target itself, or the
  path of a socket. And an ordinary host and port are recovered exactly, written
  alone or after the resolver prefix.
\<close>

theorem endpoint_parsed:
  assumes "authority_ok []" "parseServerEndpoint authority_ok target = (address, p)"
  shows "0 \<le> p \<and> p \<le> 65535 \<and>
    (p = 0 \<longrightarrow> address = target \<or> (\<exists>u. url_Parse authority_ok target = Some u \<and> url_Scheme u = ''unix'' \<and> url_Path u \<noteq> [] \<and> address = url_Path u)) \<and>
    (0 < p \<longrightarrow> (\<exists>candidate digits. SplitHostPort candidate = Some (address, digits) \<and> Atoi digits = Some p \<and>
       (candidate = target \<or> (\<exists>u. url_Parse authority_ok target = Some u \<and> url_Scheme u = ''dns'' \<and> candidate = TrimPrefix (url_Path u) ''/'')))) \<and>
    (plain_host host \<longrightarrow> 0 < port \<longrightarrow> port \<le> 65535 \<longrightarrow>
       parseServerEndpoint authority_ok (''dns:///'' @ host @ '':'' @ Itoa port) = (host, port) \<and>
       parseServerEndpoint authority_ok (host @ '':'' @ Itoa port) = (host, port))"
proof -
  have "plain_host host \<longrightarrow> 0 < port \<longrightarrow> port \<le> 65535 \<longrightarrow>
       parseServerEndpoint authority_ok (''dns:///'' @ host @ '':'' @ Itoa port) = (host, port) \<and>
       parseServerEndpoint authority_ok (host @ '':'' @ Itoa port) = (host, port)"
    using dns_endpoint [where host = host and port = port and authority_ok = authority_ok] plain_endpoint assms(1) by auto
  moreover from endpoint_cases [OF assms(2)] have "0 \<le> p \<and> p \<le> 65535 \<and>
    (p = 0 \<longrightarrow> address = target \<or> (\<exists>u. url_Parse authority_ok target = Some u \<and> url_Scheme u = ''unix'' \<and> url_Path u \<noteq> [] \<and> address = url_Path u)) \<and>
    (0 < p \<longrightarrow> (\<exists>candidate digits. SplitHostPort candidate = Some (address, digits) \<and> Atoi digits = Some p \<and>
       (candidate = target \<or> (\<exists>u. url_Parse authority_ok target = Some u \<and> url_Scheme u = ''dns'' \<and> candidate = TrimPrefix (url_Path u) ''/''))))"
    by cases (auto dest!: candidate_cases)
  ultimately show ?thesis
    by blast
qed

theorem endpoint_parsed_witness:
  "parseServerEndpoint (\<lambda>_. True) (''dns:///'' @ ''billing.internal'' @ '':'' @ Itoa 50051) = (''billing.internal'', 50051) \<and>
   parseServerEndpoint (\<lambda>_. True) ''unix:///run/billing.sock'' = (''/run/billing.sock'', 0)"
proof -
  have "plain_host ''billing.internal''" "parseServerEndpoint (\<lambda>_. True) ''unix:///run/billing.sock'' = (''/run/billing.sock'', 0)"
    by code_simp+
  then show ?thesis
    using endpoint_parsed [of "\<lambda>_. True" "''unix:///run/billing.sock''" "''/run/billing.sock''" 0 "''billing.internal''" 50051] by simp
qed

end
