(* ===== verification/Profile_Selector.thy ===== *)
theory Profile_Selector
  imports Telemetry Json "HOL-Library.List_Lexorder"
begin

text \<open>
  The one-time tool \<^verbatim>\<open>tools/profile-selector\<close>, which reduces the template to one of its two profiles, over a
  file tree. A file system maps absolute paths, as lists of names, to files and directories; links are
  not modelled. Whatever else may make a call of the operating system fail, such as permissions, and what
  a write or a removal that fails half way leaves at a path are parameters of the world, as is what \<^verbatim>\<open>git status\<close> prints.
\<close>

section \<open>path/filepath\<close>

definition clean_step :: "bool \<Rightarrow> string list \<Rightarrow> string \<Rightarrow> string list" where
  "clean_step rooted acc name =
     (if name = [] \<or> name = ''.'' then acc
      else if name = ''..'' then (case acc of
          [] \<Rightarrow> if rooted then [] else [''..'']
        | x # xs \<Rightarrow> if x = ''..'' then ''..'' # acc else xs)
      else name # acc)"

text \<open>The names a cleaned path consists of, and the path they spell.\<close>

definition clean_names :: "string \<Rightarrow> string list" where
  "clean_names s = rev (foldl (clean_step (HasPrefix s ''/'')) [] (Split s CHR ''/''))"

definition Clean :: "string \<Rightarrow> string" where
  "Clean s = (let body = join_strings ''/'' (clean_names s) in
     if HasPrefix s ''/'' then ''/'' @ body else if body = [] then ''.'' else body)"

definition IsAbs :: "string \<Rightarrow> bool" where
  "IsAbs s \<longleftrightarrow> HasPrefix s ''/''"

definition filepath_Join :: "string \<Rightarrow> string \<Rightarrow> string" where
  "filepath_Join root p = (if root = [] then (if p = [] then [] else Clean p) else Clean (root @ ''/'' @ p))"

section \<open>The file system\<close>

datatype node = Regular string | Directory

type_synonym path = "string list"

datatype os_error = NotExist | Fault string

record selector_world =
  sw_files :: "path \<Rightarrow> node option"
  sw_fault :: "string \<Rightarrow> path \<Rightarrow> string option"
  sw_torn :: "path \<Rightarrow> node option \<Rightarrow> node option"
  sw_git :: "string + string"
  sw_stdout :: "string list"
  sw_stderr :: "string list"

definition os_text :: "os_error \<Rightarrow> error" where
  "os_text e = (case e of NotExist \<Rightarrow> External ''no such file or directory'' | Fault m \<Rightarrow> External m)"

text \<open>The file a path names: the calls of this tool pass absolute, cleaned paths.\<close>

definition names :: "string \<Rightarrow> path" where
  "names p = clean_names p"

definition below :: "path \<Rightarrow> path \<Rightarrow> bool" where
  "below p q \<longleftrightarrow> take (length p) q = p"

definition os_Stat :: "string \<Rightarrow> selector_world \<Rightarrow> os_error + node" where
  "os_Stat p w = (case sw_fault w ''stat'' (names p) of Some m \<Rightarrow> Inl (Fault m)
     | None \<Rightarrow> (case sw_files w (names p) of None \<Rightarrow> Inl NotExist | Some n \<Rightarrow> Inr n))"

definition os_ReadFile :: "string \<Rightarrow> selector_world \<Rightarrow> os_error + string" where
  "os_ReadFile p w = (case sw_fault w ''read'' (names p) of Some m \<Rightarrow> Inl (Fault m)
     | None \<Rightarrow> (case sw_files w (names p) of None \<Rightarrow> Inl NotExist | Some Directory \<Rightarrow> Inl (Fault ''is a directory'') | Some (Regular c) \<Rightarrow> Inr c))"

definition os_WriteFile :: "string \<Rightarrow> string \<Rightarrow> (selector_world, os_error, unit) io" where
  "os_WriteFile p c w = (case sw_fault w ''write'' (names p) of
       Some m \<Rightarrow> (Inl (Fault m), w\<lparr>sw_files := (sw_files w)(names p := sw_torn w (names p) (sw_files w (names p)))\<rparr>)
     | None \<Rightarrow>
         if sw_files w (butlast (names p)) \<noteq> Some Directory then (Inl NotExist, w)
         else if sw_files w (names p) = Some Directory then (Inl (Fault ''is a directory''), w)
         else (Inr (), w\<lparr>sw_files := (sw_files w)(names p \<mapsto> Regular c)\<rparr>))"

text \<open>Renaming moves what is below the old path, and replaces a file at the new one.\<close>

definition move :: "path \<Rightarrow> path \<Rightarrow> (path \<Rightarrow> node option) \<Rightarrow> path \<Rightarrow> node option" where
  "move p q files r = (if below q r then files (p @ drop (length q) r) else if below p r then None else files r)"

definition os_Rename :: "string \<Rightarrow> string \<Rightarrow> (selector_world, os_error, unit) io" where
  "os_Rename p q w = (case sw_fault w ''rename'' (names p) of Some m \<Rightarrow> (Inl (Fault m), w)
     | None \<Rightarrow>
         if sw_files w (names p) = None \<or> sw_files w (butlast (names q)) \<noteq> Some Directory then (Inl NotExist, w)
         else if sw_files w (names q) = Some Directory then (Inl (Fault ''file exists''), w)
         else (Inr (), w\<lparr>sw_files := move (names p) (names q) (sw_files w)\<rparr>))"

text \<open>Removing nothing is not an error.\<close>

definition os_RemoveAll :: "string \<Rightarrow> (selector_world, os_error, unit) io" where
  "os_RemoveAll p w = (case sw_fault w ''remove'' (names p) of
       Some m \<Rightarrow> (Inl (Fault m), w\<lparr>sw_files := (\<lambda>q. if below (names p) q then sw_torn w q (sw_files w q) else sw_files w q)\<rparr>)
     | None \<Rightarrow> (Inr (), w\<lparr>sw_files := (\<lambda>q. if below (names p) q then None else sw_files w q)\<rparr>))"

section \<open>The selection\<close>

definition publicHTTPProfile :: string where "publicHTTPProfile = ''public-http''"

definition serviceGRPCProfile :: string where "serviceGRPCProfile = ''service-grpc''"

record selectionPlan =
  sp_profile :: string
  sp_remove :: "string list"
  sp_airSource :: string
  sp_sqlcSource :: string
  sp_envFragments :: "string list"

definition commonRemovals :: "string list" where
  "commonRemovals = [''.github/workflows/profile-selector.yml'', ''config/env'', ''tools/profile-selector'']"

definition publicHTTPRemovals :: "string list" where
  "publicHTTPRemovals =
     [''.air.grpcapi.toml'',
      ''.github/workflows/protobuf.yml'',
      ''buf.gen.yaml'',
      ''buf.yaml'',
      ''cmd/grpcapi'',
      ''contracts/grpc'',
      ''internal/app/grpcapi'',
      ''internal/delivery/grpc'',
      ''internal/infra/config/grpcapi_config.go'',
      ''internal/infra/config/grpcapi_config_test.go'',
      ''internal/infra/grpcclient'',
      ''internal/infra/security'',
      ''internal/observability/grpcsemconv'',
      ''internal/security'',
      ''internal/util/grpcmetadata'',
      ''make/service-grpc.mk'',
      ''sqlc.service-grpc.yaml'']"

definition serviceGRPCRemovals :: "string list" where
  "serviceGRPCRemovals =
     [''.air.httpapi.toml'',
      ''.github/workflows/openapi.yml'',
      ''cmd/httpapi'',
      ''contracts/http'',
      ''internal/app/httpapi'',
      ''internal/delivery/http'',
      ''internal/domain/user'',
      ''internal/infra/cache/redis/store/user_store.go'',
      ''internal/infra/cache/redis/store/user_store_integration_test.go'',
      ''internal/infra/composed/user'',
      ''internal/infra/config/httpapi_config.go'',
      ''internal/infra/config/httpapi_config_test.go'',
      ''internal/infra/db/postgres/sqlc/gen/models.go'',
      ''internal/infra/db/postgres/sqlc/gen/user.sql.go'',
      ''internal/infra/db/postgres/sqlc/schema/auth.sql'',
      ''internal/infra/db/postgres/sqlc/user.sql'',
      ''internal/infra/db/postgres/store/user_store.go'',
      ''internal/infra/db/postgres/store/user_store_integration_test.go'',
      ''internal/infra/db/postgres/migrations/00001_schema.sql'',
      ''internal/infra/external/oauth'',
      ''internal/infra/external/otp'',
      ''internal/repository/cache/cachetest/user_cache_store.go'',
      ''internal/repository/cache/user_repository.go'',
      ''internal/repository/db/dbtest/user_repository.go'',
      ''internal/repository/db/user_repository.go'',
      ''internal/repository/external/oauth'',
      ''internal/repository/external/otp'',
      ''internal/repository/kvstore/kvstoretest/oauth_state_repository.go'',
      ''internal/repository/kvstore/kvstoretest/otp_repository.go'',
      ''internal/repository/kvstore/kvstoretest/session_repository.go'',
      ''internal/repository/kvstore/kvstoretest/token_bucket_repository.go'',
      ''internal/repository/kvstore/oauth_state_repository.go'',
      ''internal/repository/kvstore/otp_repository.go'',
      ''internal/repository/kvstore/session_repository.go'',
      ''internal/repository/kvstore/sliding_window_repository.go'',
      ''internal/repository/kvstore/token_bucket_repository.go'',
      ''internal/infra/kvstore/redis/store/oauth_state_store.go'',
      ''internal/infra/kvstore/redis/store/oauth_state_store_integration_test.go'',
      ''internal/infra/kvstore/redis/store/otp_store.go'',
      ''internal/infra/kvstore/redis/store/otp_store_integration_test.go'',
      ''internal/infra/kvstore/redis/store/rate_limit_store_integration_test.go'',
      ''internal/infra/kvstore/redis/store/session_store.go'',
      ''internal/infra/kvstore/redis/store/session_store_integration_test.go'',
      ''internal/infra/kvstore/redis/store/sliding_window_store.go'',
      ''internal/infra/kvstore/redis/store/token_bucket_store.go'',
      ''internal/usecase/auth'',
      ''internal/usecase/globalratelimit'',
      ''make/public-http.mk'',
      ''oapi-codegen.yaml'',
      ''sqlc.public-http.yaml'']"

definition newSelectionPlan :: "string \<Rightarrow> error + selectionPlan" where
  "newSelectionPlan profile =
     (if profile = publicHTTPProfile then Inr
        \<lparr>sp_profile = profile, sp_remove = commonRemovals @ publicHTTPRemovals, sp_airSource = ''.air.httpapi.toml'', sp_sqlcSource = ''sqlc.public-http.yaml'',
         sp_envFragments = [''config/env/common.env.example'', ''config/env/public-http.env.example'']\<rparr>
      else if profile = serviceGRPCProfile then Inr
        \<lparr>sp_profile = profile, sp_remove = commonRemovals @ serviceGRPCRemovals, sp_airSource = ''.air.grpcapi.toml'', sp_sqlcSource = ''sqlc.service-grpc.yaml'',
         sp_envFragments = [''config/env/common.env.example'', ''config/env/service-grpc.env.example'']\<rparr>
      else Inl (Msg (''--profile must be '' @ Quote publicHTTPProfile @ '' or '' @ Quote serviceGRPCProfile)))"

definition refuse_existing :: "string \<Rightarrow> selector_world \<Rightarrow> string \<Rightarrow> error option" where
  "refuse_existing root w destination = (case os_Stat (filepath_Join root destination) w of
      Inr _ \<Rightarrow> Some (Msg (''refusing to replace existing '' @ destination))
    | Inl NotExist \<Rightarrow> None
    | Inl e \<Rightarrow> Some (Errorf (''inspect '' @ destination) (os_text e)))"

text \<open>The first failure of a loop that returns on failure.\<close>

definition first_error :: "('a \<Rightarrow> error option) \<Rightarrow> 'a list \<Rightarrow> error option" where
  "first_error f xs = (case filter (\<lambda>x. f x \<noteq> None) xs of [] \<Rightarrow> None | x # _ \<Rightarrow> f x)"

definition required_path :: "string \<Rightarrow> selector_world \<Rightarrow> string \<Rightarrow> error option" where
  "required_path root w p = (case os_Stat (filepath_Join root p) w of
      Inr _ \<Rightarrow> None
    | Inl e \<Rightarrow> Some (Errorf (''profile manifest is stale: required path '' @ Quote p) (os_text e)))"

definition validateRepository :: "string \<Rightarrow> selectionPlan \<Rightarrow> selector_world \<Rightarrow> error option" where
  "validateRepository root plan w =
     (case os_ReadFile (filepath_Join root ''go.mod'') w of
        Inl _ \<Rightarrow> Some (Msg ''run the selector from the template repository root'')
      | Inr moduleFile \<Rightarrow>
          if \<not> HasPrefix moduleFile ''module '' then Some (Msg ''run the selector from the template repository root'')
          else case os_Stat (filepath_Join root ''.template-profile'') w of
              Inr _ \<Rightarrow> Some (Msg ''a profile has already been selected'')
            | Inl (Fault m) \<Rightarrow> Some (Errorf ''inspect .template-profile'' (os_text (Fault m)))
            | Inl NotExist \<Rightarrow> (case first_error (refuse_existing root w) [''.air.toml'', ''sqlc.yaml''] of
                 Some e \<Rightarrow> Some e
               | None \<Rightarrow> (case first_error (required_path root w) ([sp_airSource plan, sp_sqlcSource plan] @ sp_envFragments plan @ sp_remove plan) of
                    Some e \<Rightarrow> Some e
                  | None \<Rightarrow> (case sw_git w of
                       Inl m \<Rightarrow> Some (Errorf ''check Git working tree'' (External m))
                     | Inr output \<Rightarrow> if TrimSpace output \<noteq> [] then Some (Msg ''Git working tree must be clean before profile selection'') else None))))"

definition print_line :: "string \<Rightarrow> selector_world \<Rightarrow> selector_world" where
  "print_line s w = w\<lparr>sw_stdout := sw_stdout w @ [s]\<rparr>"

definition printPlan :: "selectionPlan \<Rightarrow> bool \<Rightarrow> selector_world \<Rightarrow> selector_world" where
  "printPlan plan app w = fold print_line
     ([(if app then ''Applying'' else ''Dry run'') @ '' profile '' @ Quote (sp_profile plan) @ '':''] @
      map (\<lambda>p. ''  remove '' @ p) (sort (sp_remove plan)) @
      [''  generate .env.example from '' @ join_strings '' + '' (sp_envFragments plan),
       ''  rename '' @ sp_airSource plan @ '' to .air.toml'',
       ''  rename '' @ sp_sqlcSource plan @ '' to sqlc.yaml'',
       ''  write .template-profile'']) w"

fun combine_from :: "string \<Rightarrow> bool \<Rightarrow> string list \<Rightarrow> selector_world \<Rightarrow> error + string" where
  "combine_from root first [] w = Inr []"
| "combine_from root first (p # ps) w = (case os_ReadFile (filepath_Join root p) w of
      Inl e \<Rightarrow> Inl (Errorf (''read environment fragment '' @ p) (os_text e))
    | Inr content \<Rightarrow> (case combine_from root False ps w of
         Inl e \<Rightarrow> Inl e
       | Inr rest \<Rightarrow> Inr ((if first then [] else [CHR 0x0A]) @ TrimRightChar content (CHR 0x0A) @ [CHR 0x0A] @ rest)))"

definition combineFiles :: "string \<Rightarrow> string list \<Rightarrow> selector_world \<Rightarrow> error + string" where
  "combineFiles root paths w = (case combine_from root True paths w of Inl e \<Rightarrow> Inl e
     | Inr s \<Rightarrow> Inr (''# Generated by the template profile selector.'' @ [CHR 0x0A, CHR 0x0A] @ s))"

definition removeOwnedPath :: "string \<Rightarrow> string \<Rightarrow> (selector_world, unit) eff" where
  "removeOwnedPath root relative =
     (let clean = Clean relative in
      if clean = ''.'' \<or> clean = ''..'' \<or> IsAbs clean \<or> HasPrefix clean ''../''
      then fail (Msg (''unsafe removal path '' @ Quote relative))
      else attempt (os_RemoveAll (filepath_Join root clean)) (\<lambda>e. fail (Errorf (''remove '' @ relative) (os_text e))) return)"

fun remove_all :: "string \<Rightarrow> string list \<Rightarrow> (selector_world, unit) eff" where
  "remove_all root [] = return ()"
| "remove_all root (p # ps) = attempt (removeOwnedPath root p) fail (\<lambda>_. remove_all root ps)"

definition applySelection :: "string \<Rightarrow> selectionPlan \<Rightarrow> (selector_world, unit) eff" where
  "applySelection root plan w = (case combineFiles root (sp_envFragments plan) w of
      Inl e \<Rightarrow> (Inl e, w)
    | Inr environment \<Rightarrow>
        attempt (os_WriteFile (filepath_Join root ''.env.example'') environment) (\<lambda>e. fail (Errorf ''write .env.example'' (os_text e))) (\<lambda>_.
        attempt (os_Rename (filepath_Join root (sp_airSource plan)) (filepath_Join root ''.air.toml'')) (\<lambda>e. fail (Errorf ''install Air configuration'' (os_text e))) (\<lambda>_.
        attempt (os_Rename (filepath_Join root (sp_sqlcSource plan)) (filepath_Join root ''sqlc.yaml'')) (\<lambda>e. fail (Errorf ''install sqlc configuration'' (os_text e))) (\<lambda>_.
        attempt (os_WriteFile (filepath_Join root ''.template-profile'') (sp_profile plan @ [CHR 0x0A])) (\<lambda>e. fail (Errorf ''write profile marker'' (os_text e))) (\<lambda>_.
        remove_all root (sp_remove plan))))) w)"

text \<open>\<open>main\<close>: the exit status, and \<^verbatim>\<open>fatal\<close> on the way. \<open>getwd\<close> is what \<^verbatim>\<open>os.Getwd\<close> returns.\<close>

definition fatal :: "(nat \<Rightarrow> string) \<Rightarrow> error \<Rightarrow> selector_world \<Rightarrow> nat \<times> selector_world" where
  "fatal cs e w = (1, w\<lparr>sw_stderr := sw_stderr w @ [''profile selector: '' @ Error_text cs e]\<rparr>)"

definition selector_main :: "(nat \<Rightarrow> string) \<Rightarrow> error + string \<Rightarrow> string \<Rightarrow> bool \<Rightarrow> selector_world \<Rightarrow> nat \<times> selector_world" where
  "selector_main cs getwd profile app w = (case getwd of
      Inl e \<Rightarrow> fatal cs e w
    | Inr root \<Rightarrow> (case newSelectionPlan profile of
         Inl e \<Rightarrow> fatal cs e w
       | Inr plan \<Rightarrow> (case validateRepository root plan w of
            Some e \<Rightarrow> fatal cs e w
          | None \<Rightarrow>
              let w1 = printPlan plan app w in
              if \<not> app then (0, fold print_line [[], ''Dry run only. Add --apply to make these changes.''] w1)
              else case applySelection root plan w1 of
                  (Inl e, w2) \<Rightarrow> fatal cs e w2
                | (Inr _, w2) \<Rightarrow> (0, fold print_line
                    [[], ''Selected '' @ sp_profile plan @ ''. The selector removed itself so this choice cannot be applied twice.'',
                     ''Next run: go mod tidy'', ''Then run: make check test''] w2))))"

section \<open>Lemmas on paths\<close>

lemma Split_nonempty [simp]: "Split s c \<noteq> []"
  by (induction s) (auto split: list.split)

lemma Split_append: "Split (s @ CHR ''/'' # t) CHR ''/'' = Split s CHR ''/'' @ Split t CHR ''/''"
  by (induction s) (auto split: list.split)

lemma Split_free: "c \<notin> set s \<Longrightarrow> Split s c = [s]"
  by (induction s) auto

lemma Split_join: "xs \<noteq> [] \<Longrightarrow> \<forall>x\<in>set xs. CHR ''/'' \<notin> set x \<Longrightarrow> Split (join_strings ''/'' xs) CHR ''/'' = xs"
  by (induction "''/''" xs rule: join_strings.induct) (auto simp: Split_free Split_append)

lemma Split_parts: "x \<in> set (Split s c) \<Longrightarrow> c \<notin> set x"
  by (induction s arbitrary: x) (auto split: list.splits if_splits)

definition name_ok :: "string \<Rightarrow> bool" where
  "name_ok x \<longleftrightarrow> x \<noteq> [] \<and> x \<noteq> ''.'' \<and> x \<noteq> ''..'' \<and> CHR ''/'' \<notin> set x"

lemma clean_rooted:
  assumes "list_all name_ok acc" "\<forall>x\<in>set xs. CHR ''/'' \<notin> set x"
  shows "list_all name_ok (foldl (clean_step True) acc xs)"
  using assms by (induction xs arbitrary: acc) (auto simp: clean_step_def name_ok_def split: list.splits)

lemma clean_relative:
  assumes "list_all name_ok acc" "\<forall>x\<in>set xs. CHR ''/'' \<notin> set x"
  shows "\<exists>ys m. list_all name_ok ys \<and> foldl (clean_step False) (acc @ replicate k ''..'') xs = ys @ replicate m ''..''"
  using assms
proof (induction xs arbitrary: acc k)
  case (Cons x xs)
  have "\<exists>ys m. list_all name_ok ys \<and> clean_step False (acc @ replicate k ''..'') x = ys @ replicate m ''..''"
  proof (cases "x = ''..''")
    case True
    show ?thesis
    proof (cases acc)
      case Nil
      then have "clean_step False (acc @ replicate k ''..'') x = [] @ replicate (Suc k) ''..''"
        using True by (cases k) (auto simp: clean_step_def)
      then show ?thesis
        by (intro exI [of _ "[]"] exI [of _ "Suc k"]) simp
    next
      case (Cons y ys)
      then have "clean_step False (acc @ replicate k ''..'') x = ys @ replicate k ''..''" "list_all name_ok ys"
        using True Cons.prems(1) by (auto simp: clean_step_def name_ok_def [of y])
      then show ?thesis
        by blast
    qed
  next
    case False
    then have "clean_step False (acc @ replicate k ''..'') x = acc @ replicate k ''..'' \<or>
        clean_step False (acc @ replicate k ''..'') x = (x # acc) @ replicate k ''..'' \<and> list_all name_ok (x # acc)"
      using Cons.prems by (auto simp: clean_step_def name_ok_def [of x])
    then show ?thesis
      using Cons.prems(1) by blast
  qed
  then show ?case
    using Cons.IH Cons.prems(2) by (metis foldl_Cons list.set_intros(2))
qed auto

lemma clean_again:
  assumes "list_all name_ok xs"
  shows "foldl (clean_step b) acc xs = rev xs @ acc"
  using assms by (induction xs arbitrary: acc) (auto simp: clean_step_def name_ok_def)

text \<open>A relative path that stays below its start leads, from any directory, to the same names below it.\<close>

lemma dots_stay: "''..'' \<in> set acc \<Longrightarrow> ''..'' \<in> set (foldl (clean_step False) acc xs)"
  by (induction xs arbitrary: acc) (auto simp: clean_step_def split: list.split)

lemma clean_below:
  assumes "''..'' \<notin> set (foldl (clean_step False) acc xs)"
  shows "foldl (clean_step True) (acc @ base) xs = foldl (clean_step False) acc xs @ base"
  using assms
proof (induction xs arbitrary: acc)
  case (Cons x xs)
  have "clean_step True (acc @ base) x = clean_step False acc x @ base"
    using Cons.prems dots_stay [of "[''..'']" xs] dots_stay [of acc xs]
    by (cases acc) (auto simp: clean_step_def [of _ _ x] split: list.split if_split_asm)
  then show ?case
    using Cons by (metis foldl_Cons)
qed simp

lemma rooted_names: "HasPrefix s ''/'' \<Longrightarrow> list_all name_ok (clean_names s)"
  using clean_rooted [of "[]" "Split s CHR ''/''"] by (auto simp: clean_names_def Split_parts)

lemma HasPrefix_Cons [simp]: "HasPrefix (c # s) (d # p) \<longleftrightarrow> c = d \<and> HasPrefix s p" "HasPrefix s []" "\<not> HasPrefix [] (d # p)"
  by (auto simp: HasPrefix_def)

lemma Clean_rooted_names:
  assumes "HasPrefix s ''/''"
  shows "clean_names (Clean s) = clean_names s"
proof -
  let ?ns = "clean_names s"
  have ok: "list_all name_ok ?ns"
    using assms by (rule rooted_names)
  have split: "Split (Clean s) CHR ''/'' = [] # (if ?ns = [] then [[]] else ?ns)"
    using assms ok Split_join [of ?ns] by (auto simp: Clean_def name_ok_def list_all_iff)
  have "HasPrefix (Clean s) ''/''"
    using assms by (simp add: Clean_def)
  then show ?thesis
    using clean_again [OF ok, of True "[]"] split by (simp add: clean_names_def [of "Clean s"] clean_step_def [of _ _ "[]"])
qed

lemma relative_names:
  assumes "\<not> HasPrefix s ''/''" "list_all name_ok (clean_names s)" "clean_names s \<noteq> []"
  shows "clean_names (Clean s) = clean_names s" "\<not> HasPrefix (Clean s) ''/''"
proof -
  let ?ns = "clean_names s"
  obtain x xs where ns: "?ns = x # xs"
    using assms(3) by (cases ?ns) auto
  then have x: "x \<noteq> []" "CHR ''/'' \<notin> set x"
    using assms(2) by (simp_all add: name_ok_def)
  have clean: "Clean s = join_strings ''/'' ?ns"
    using assms(1) ns x by (cases xs) (auto simp: Clean_def)
  show prefix: "\<not> HasPrefix (Clean s) ''/''"
    unfolding clean ns using x by (cases x; cases xs) auto
  have "Split (Clean s) CHR ''/'' = ?ns"
    unfolding clean using assms by (intro Split_join) (auto simp: name_ok_def list_all_iff)
  then show "clean_names (Clean s) = ?ns"
    using prefix clean_again [OF assms(2), of False "[]"] by (simp add: clean_names_def [of "Clean s"])
qed

lemma safe_names:
  assumes "\<not> (Clean s = ''.'' \<or> Clean s = ''..'' \<or> IsAbs (Clean s) \<or> HasPrefix (Clean s) ''../'')"
  shows "\<not> HasPrefix s ''/''" "list_all name_ok (clean_names s)" "clean_names s \<noteq> []"
proof -
  show relative: "\<not> HasPrefix s ''/''"
    using assms by (auto simp: Clean_def IsAbs_def)
  obtain ys m where names: "list_all name_ok ys" "clean_names s = replicate m ''..'' @ rev ys"
    using relative clean_relative [of "[]" "Split s CHR ''/''" 0] by (auto simp: clean_names_def Split_parts)
  have "m = 0"
  proof (cases m)
    case (Suc k)
    then have "clean_names s = ''..'' # replicate k ''..'' @ rev ys"
      using names(2) by simp
    then have "Clean s = ''..'' \<or> HasPrefix (Clean s) ''../''"
      using relative by (cases "replicate k ''..'' @ rev ys") (auto simp: Clean_def)
    then show ?thesis
      using assms by blast
  qed
  then show "list_all name_ok (clean_names s)"
    using names by simp
  show "clean_names s \<noteq> []"
    using assms relative by (auto simp: Clean_def)
qed

lemma Join_names:
  assumes "IsAbs root" "\<not> HasPrefix s ''/''" "list_all name_ok (clean_names s)"
  shows "names (filepath_Join root s) = names root @ clean_names s"
proof -
  have root: "HasPrefix root ''/''" "root \<noteq> []"
    using assms(1) by (auto simp: IsAbs_def)
  then have rooted: "HasPrefix (root @ ''/'' @ s) ''/''"
    by (cases root) auto
  have "rev (clean_names s) = foldl (clean_step False) [] (Split s CHR ''/'')"
    using assms(2) by (simp add: clean_names_def)
  moreover have "''..'' \<notin> set (rev (clean_names s))"
    using assms(3) by (auto simp: list_all_iff name_ok_def)
  ultimately have "foldl (clean_step True) ([] @ rev (clean_names root)) (Split s CHR ''/'') = rev (clean_names s) @ rev (clean_names root)"
    using clean_below [of "[]" "Split s CHR ''/''" "rev (clean_names root)"] by simp
  then have "clean_names (root @ ''/'' @ s) = clean_names root @ clean_names s"
    using root rooted by (simp add: clean_names_def [of "root @ CHR ''/'' # s"] clean_names_def [of root] Split_append)
  then show ?thesis
    using root Clean_rooted_names [OF rooted] by (simp add: names_def filepath_Join_def)
qed

section \<open>Lemmas on the selection\<close>

lemma below_append: "below (p @ r) q \<Longrightarrow> below p q"
  by (auto simp: below_def dest: arg_cong [where f = "take (length p)"])

lemma below_self [simp]: "below p p" "below (p @ r) p \<longleftrightarrow> r = []"
  by (auto simp: below_def)

lemma below_base [simp]: "below (p @ r) (p @ s) \<longleftrightarrow> below r s"
  by (auto simp: below_def)

definition owned :: "string \<Rightarrow> bool" where
  "owned s \<longleftrightarrow> \<not> (Clean s = ''.'' \<or> Clean s = ''..'' \<or> IsAbs (Clean s) \<or> HasPrefix (Clean s) ''../'')"

lemma owned_names:
  assumes "IsAbs root" "owned s"
  shows "names (filepath_Join root s) = names root @ clean_names s" "names (filepath_Join root (Clean s)) = names root @ clean_names s" "clean_names s \<noteq> []"
proof -
  note safe = safe_names [OF assms(2) [unfolded owned_def]]
  show "names (filepath_Join root s) = names root @ clean_names s"
    using Join_names [OF assms(1) safe(1,2)] .
  show "names (filepath_Join root (Clean s)) = names root @ clean_names s"
    using Join_names [OF assms(1), of "Clean s"] relative_names [OF safe] safe(2) by simp
  show "clean_names s \<noteq> []"
    by (rule safe(3))
qed

lemma removeOwnedPath_cases:
  assumes "removeOwnedPath root p w = (r, w')" "IsAbs root"
  obtains (refused) e where "r = Inl e" "w' = w" "\<not> owned p"
    | (failed) e where "owned p" "r = Inl e"
        "w' = w\<lparr>sw_files := (\<lambda>q. if below (names root @ clean_names p) q then sw_torn w q (sw_files w q) else sw_files w q)\<rparr>"
    | (removed) "owned p" "r = Inr ()" "w' = w\<lparr>sw_files := (\<lambda>q. if below (names root @ clean_names p) q then None else sw_files w q)\<rparr>"
proof (cases "owned p")
  case False
  then show thesis
    using assms(1) refused by (auto simp: removeOwnedPath_def owned_def Let_def)
next
  case True
  then have run: "attempt (os_RemoveAll (filepath_Join root (Clean p))) (\<lambda>e. fail (Errorf (''remove '' @ p) (os_text e))) return w = (r, w')"
    using assms(1) by (simp add: removeOwnedPath_def owned_def)
  show thesis
  proof (cases "sw_fault w ''remove'' (names root @ clean_names p)")
    case None
    then show thesis
      using run True removed by (simp add: os_RemoveAll_def owned_names [OF assms(2) True] attempt_def)
  next
    case (Some m)
    then show thesis
      using run True by (intro failed) (auto simp: os_RemoveAll_def owned_names [OF assms(2) True] attempt_def)
  qed
qed

lemma remove_all_files:
  assumes "remove_all root ps w = (Inr (), w')" "IsAbs root"
  shows "sw_files w' = (\<lambda>q. if \<exists>p\<in>set ps. below (names root @ clean_names p) q then None else sw_files w q)"
  using assms(1)
proof (induction ps arbitrary: w)
  case (Cons p ps)
  from Cons.prems obtain w1 where first: "removeOwnedPath root p w = (Inr (), w1)" "remove_all root ps w1 = (Inr (), w')"
    by (auto elim: attempt_fail_Inr)
  from first(1) assms(2) have "sw_files w1 = (\<lambda>q. if below (names root @ clean_names p) q then None else sw_files w q)"
    by (cases rule: removeOwnedPath_cases) auto
  then show ?case
    using Cons.IH [OF first(2)] by (auto simp: fun_eq_iff)
qed simp

text \<open>What every step changes stays strictly below the root.\<close>

definition confined :: "path \<Rightarrow> selector_world \<Rightarrow> selector_world \<Rightarrow> bool" where
  "confined R w w' \<longleftrightarrow> (\<forall>q. sw_files w' q \<noteq> sw_files w q \<longrightarrow> below R q \<and> q \<noteq> R)"

lemma confined_refl [simp]: "confined R w w"
  by (simp add: confined_def)

lemma confined_trans [trans]: "confined R w w1 \<Longrightarrow> confined R w1 w2 \<Longrightarrow> confined R w w2"
  unfolding confined_def by metis

lemma removeOwnedPath_confined:
  assumes "removeOwnedPath root p w = (r, w')" "IsAbs root"
  shows "confined (names root) w w'"
  using assms
proof (cases rule: removeOwnedPath_cases)
  case failed
  then show ?thesis
    using owned_names(3) [OF assms(2)] by (auto simp: confined_def dest: below_append)
next
  case removed
  then show ?thesis
    using owned_names(3) [OF assms(2)] by (auto simp: confined_def dest: below_append)
qed simp

lemma remove_all_confined: "remove_all root ps w = (r, w') \<Longrightarrow> IsAbs root \<Longrightarrow> confined (names root) w w'"
proof (induction ps arbitrary: w)
  case (Cons p ps)
  from Cons.prems(1) [simplified] show ?case
    using Cons.prems(2) Cons.IH by (cases rule: attempt_cases) (auto intro: removeOwnedPath_confined confined_trans)
qed simp

lemma write_cases:
  assumes "os_WriteFile p c w = (r, w')"
  obtains (ok) "r = Inr ()" "w' = w\<lparr>sw_files := (sw_files w)(names p \<mapsto> Regular c)\<rparr>" "sw_files w (butlast (names p)) = Some Directory"
    | (failed) e where "r = Inl e" "\<forall>q. q \<noteq> names p \<longrightarrow> sw_files w' q = sw_files w q"
  using assms by (auto simp: os_WriteFile_def split: option.splits if_splits)

lemma rename_cases:
  assumes "os_Rename p q w = (r, w')"
  obtains (ok) "r = Inr ()" "w' = w\<lparr>sw_files := move (names p) (names q) (sw_files w)\<rparr>"
    | (failed) e where "r = Inl e" "w' = w"
  using assms by (auto simp: os_Rename_def split: option.splits if_splits)

text \<open>
  What the plans are checked for once: every removal stays inside the repository, none reaches the
  files the selection installs or reads from the root, and those files have single, different names.
\<close>

definition destinations :: "string list" where
  "destinations = [''.env.example'', ''.air.toml'', ''sqlc.yaml'', ''.template-profile'']"

definition plan_ok :: "selectionPlan \<Rightarrow> bool" where
  "plan_ok plan \<longleftrightarrow> list_all owned (sp_remove plan) \<and> list_all owned (sp_envFragments plan) \<and>
     list_all (\<lambda>x. owned x \<and> clean_names x = [x]) (sp_airSource plan # sp_sqlcSource plan # ''go.mod'' # destinations) \<and>
     distinct (sp_airSource plan # sp_sqlcSource plan # destinations) \<and>
     list_all (\<lambda>p. list_all (\<lambda>x. \<not> below (clean_names p) [x]) (sp_airSource plan # sp_sqlcSource plan # destinations)) (sp_remove plan)"

lemma plans_ok: "newSelectionPlan profile = Inr plan \<Longrightarrow> plan_ok plan"
proof -
  assume new: "newSelectionPlan profile = Inr plan"
  then consider "profile = publicHTTPProfile" | "profile = serviceGRPCProfile"
    by (auto simp: newSelectionPlan_def split: if_splits)
  then show ?thesis
  proof cases
    case 1
    have "(case newSelectionPlan publicHTTPProfile of Inl _ \<Rightarrow> False | Inr p \<Rightarrow> plan_ok p)"
      by code_simp
    then show ?thesis
      using new 1 by simp
  next
    case 2
    have "(case newSelectionPlan serviceGRPCProfile of Inl _ \<Rightarrow> False | Inr p \<Rightarrow> plan_ok p)"
      by code_simp
    then show ?thesis
      using new 2 by simp
  qed
qed

text \<open>The tree a successful selection leaves.\<close>

definition selected_tree :: "path \<Rightarrow> selectionPlan \<Rightarrow> string \<Rightarrow> (path \<Rightarrow> node option) \<Rightarrow> (path \<Rightarrow> node option) \<Rightarrow> bool" where
  "selected_tree R plan environment files files' \<longleftrightarrow>
     files' (R @ [''.template-profile'']) = Some (Regular (sp_profile plan @ [CHR 0x0A])) \<and>
     files' (R @ [''.env.example'']) = Some (Regular environment) \<and>
     files' (R @ [''.air.toml'']) = files (R @ [sp_airSource plan]) \<and>
     files' (R @ [''sqlc.yaml'']) = files (R @ [sp_sqlcSource plan]) \<and>
     (\<forall>p\<in>set (sp_remove plan). \<forall>q. below (R @ clean_names p) q \<longrightarrow> files' q = None) \<and>
     (\<forall>q. (\<forall>p\<in>set (sp_remove plan). \<not> below (R @ clean_names p) q) \<and>
          (\<forall>x\<in>set (sp_airSource plan # sp_sqlcSource plan # destinations). \<not> below (R @ [x]) q) \<longrightarrow> files' q = files q)"

lemma below_single [simp]: "below [y] [x] \<longleftrightarrow> x = y"
  by (auto simp: below_def)

lemma installed_tree:
  assumes "distinct (a # s # destinations)"
    and "g = (move (R @ [s]) (R @ [''sqlc.yaml'']) (move (R @ [a]) (R @ [''.air.toml'']) (f(R @ [''.env.example''] \<mapsto> e))))(R @ [''.template-profile''] \<mapsto> m)"
  shows "g (R @ [''.template-profile'']) = Some m" "g (R @ [''.env.example'']) = Some e" "g (R @ [''.air.toml'']) = f (R @ [a])"
    "g (R @ [''sqlc.yaml'']) = f (R @ [s])" "\<forall>x\<in>set (a # s # destinations). \<not> below (R @ [x]) q \<Longrightarrow> g q = f q"
  using assms(1) by (auto simp: assms(2) destinations_def move_def)

lemma root_file:
  assumes "IsAbs root" "plan_ok plan" "x \<in> set (sp_airSource plan # sp_sqlcSource plan # ''go.mod'' # destinations)"
  shows "names (filepath_Join root x) = names root @ [x]"
  using assms owned_names(1) [OF assms(1), of x] by (auto simp: plan_ok_def list_all_iff)

lemma applySelection_success:
  assumes "applySelection root plan w = (Inr u, w')" "IsAbs root" "plan_ok plan"
  obtains environment where "combineFiles root (sp_envFragments plan) w = Inr environment"
    "selected_tree (names root) plan environment (sw_files w) (sw_files w')"
proof -
  let ?R = "names root"
  note at = root_file [OF assms(2,3)]
  obtain environment where env: "combineFiles root (sp_envFragments plan) w = Inr environment"
    using assms(1) by (auto simp: applySelection_def split: sum.splits)
  obtain w1 w2 w3 w4 where run: "os_WriteFile (filepath_Join root ''.env.example'') environment w = (Inr (), w1)"
      "os_Rename (filepath_Join root (sp_airSource plan)) (filepath_Join root ''.air.toml'') w1 = (Inr (), w2)"
      "os_Rename (filepath_Join root (sp_sqlcSource plan)) (filepath_Join root ''sqlc.yaml'') w2 = (Inr (), w3)"
      "os_WriteFile (filepath_Join root ''.template-profile'') (sp_profile plan @ [CHR 0x0A]) w3 = (Inr (), w4)"
      "remove_all root (sp_remove plan) w4 = (Inr (), w')"
    using assms(1) env by (auto simp: applySelection_def elim!: attempt_fail_Inr)
  have w1: "sw_files w1 = (sw_files w)(?R @ [''.env.example''] \<mapsto> Regular environment)"
    using run(1) by (cases rule: write_cases) (simp_all add: at destinations_def)
  have w2: "sw_files w2 = move (?R @ [sp_airSource plan]) (?R @ [''.air.toml'']) (sw_files w1)"
    using run(2) by (cases rule: rename_cases) (simp_all add: at destinations_def)
  have w3: "sw_files w3 = move (?R @ [sp_sqlcSource plan]) (?R @ [''sqlc.yaml'']) (sw_files w2)"
    using run(3) by (cases rule: rename_cases) (simp_all add: at destinations_def)
  have w4: "sw_files w4 = (sw_files w3)(?R @ [''.template-profile''] \<mapsto> Regular (sp_profile plan @ [CHR 0x0A]))"
    using run(4) by (cases rule: write_cases) (simp_all add: at destinations_def)
  note final = remove_all_files [OF run(5) assms(2)]
  have kept: "\<not> (\<exists>p\<in>set (sp_remove plan). below (?R @ clean_names p) (?R @ [x]))" if "x \<in> set destinations" for x
    using that assms(3) by (auto simp: plan_ok_def list_all_iff)
  have "distinct (sp_airSource plan # sp_sqlcSource plan # destinations)"
    using assms(3) by (simp add: plan_ok_def)
  note tree = installed_tree [OF this w4 [unfolded w3 w2 w1]]
  have "selected_tree ?R plan environment (sw_files w) (sw_files w')"
    unfolding selected_tree_def final
  proof (intro conjI allI impI ballI)
    fix q
    assume "(\<forall>p\<in>set (sp_remove plan). \<not> below (?R @ clean_names p) q) \<and>
      (\<forall>x\<in>set (sp_airSource plan # sp_sqlcSource plan # destinations). \<not> below (?R @ [x]) q)"
    then show "(if \<exists>p\<in>set (sp_remove plan). below (?R @ clean_names p) q then None else sw_files w4 q) = sw_files w q"
      using tree(5) by auto
  qed (use tree(1-4) kept in \<open>auto simp: destinations_def\<close>)
  with env that show thesis
    by blast
qed

lemma write_confined:
  assumes "os_WriteFile p c w = (r, w')" "names p = R @ [x]"
  shows "confined R w w'"
  using assms(1)
proof (cases rule: write_cases)
  case ok
  then show ?thesis
    using assms(2) by (auto simp: confined_def below_def)
next
  case failed
  then have "sw_files w' q \<noteq> sw_files w q \<Longrightarrow> q = R @ [x]" for q
    using assms(2) by metis
  then show ?thesis
    unfolding confined_def below_def by (metis append_eq_conv_conj append_self_conv list.discI)
qed

lemma rename_confined:
  assumes "os_Rename p q w = (r, w')" "names p = R @ [x]" "names q = R @ [y]"
  shows "confined R w w'"
  using assms(1)
proof (cases rule: rename_cases)
  case ok
  then show ?thesis
    using assms(2,3) by (auto simp: confined_def move_def split: if_splits dest: below_append)
qed (simp add: confined_def)

lemma applySelection_confined:
  assumes "applySelection root plan w = (r, w')" "IsAbs root" "plan_ok plan"
  shows "confined (names root) w w'"
proof (cases "combineFiles root (sp_envFragments plan) w")
  case (Inr environment)
  note at = root_file [OF assms(2,3)]
  note steps = write_confined [OF _ at] rename_confined [OF _ at at] remove_all_confined [OF _ assms(2)]
  show ?thesis
    using assms(1) Inr unfolding applySelection_def
    by (auto elim!: attempt_cases simp: destinations_def dest!: steps) (blast intro: confined_trans)+
qed (use assms(1) in \<open>simp add: applySelection_def\<close>)

lemma print_line_files [simp]: "sw_files (print_line s w) = sw_files w"
  by (simp add: print_line_def)

lemma print_files [simp]:
  "sw_files (fold print_line ls w) = sw_files w" "sw_fault (fold print_line ls w) = sw_fault w" "sw_git (fold print_line ls w) = sw_git w"
  "sw_files (printPlan plan app w) = sw_files w" "sw_fault (printPlan plan app w) = sw_fault w" "sw_git (printPlan plan app w) = sw_git w"
proof -
  have all: "sw_files (fold print_line ls w) = sw_files w \<and> sw_fault (fold print_line ls w) = sw_fault w \<and> sw_git (fold print_line ls w) = sw_git w" for ls
    by (induction ls arbitrary: w) (simp_all add: print_line_def)
  then show "sw_files (fold print_line ls w) = sw_files w" "sw_fault (fold print_line ls w) = sw_fault w" "sw_git (fold print_line ls w) = sw_git w"
    by simp_all
  show "sw_files (printPlan plan app w) = sw_files w" "sw_fault (printPlan plan app w) = sw_fault w" "sw_git (printPlan plan app w) = sw_git w"
    using all unfolding printPlan_def by blast+
qed

lemma selector_main_cases:
  assumes "selector_main cs (Inr root) profile app w = (code, w')"
  obtains (unknown) e where "newSelectionPlan profile = Inl e" "code = 1" "sw_files w' = sw_files w"
    | (invalid) plan e where "newSelectionPlan profile = Inr plan" "validateRepository root plan w = Some e" "code = 1" "sw_files w' = sw_files w"
    | (dry) plan where "newSelectionPlan profile = Inr plan" "validateRepository root plan w = None" "\<not> app" "code = 0" "sw_files w' = sw_files w"
    | (failed) plan e w2 where "newSelectionPlan profile = Inr plan" "validateRepository root plan w = None" "app" "code = 1"
        "applySelection root plan (printPlan plan app w) = (Inl e, w2)" "sw_files w' = sw_files w2"
    | (applied) plan w2 where "newSelectionPlan profile = Inr plan" "validateRepository root plan w = None" "app" "code = 0"
        "applySelection root plan (printPlan plan app w) = (Inr (), w2)" "sw_files w' = sw_files w2"
proof (cases "newSelectionPlan profile")
  case (Inl e)
  then show thesis
    using assms unknown by (auto simp: selector_main_def fatal_def)
next
  case (Inr plan)
  show thesis
  proof (cases "validateRepository root plan w")
    case None
    show thesis
    proof (cases app)
      case False
      then show thesis
        using assms Inr None dry print_files(1) [of "[[], ''Dry run only. Add --apply to make these changes.'']" "printPlan plan app w"]
        by (auto simp: selector_main_def simp del: fold_simps)
    next
      case True
      obtain r w2 where run: "applySelection root plan (printPlan plan app w) = (r, w2)"
        by (cases "applySelection root plan (printPlan plan app w)")
      then show thesis
        using assms Inr None True failed applied by (cases r) (auto simp: selector_main_def fatal_def Let_def)
    qed
  next
    case (Some e)
    then show thesis
      using assms Inr invalid by (auto simp: selector_main_def fatal_def)
  qed
qed

lemma combine_files:
  assumes "sw_files w = sw_files v" "sw_fault w = sw_fault v"
  shows "combineFiles root ps w = combineFiles root ps v"
proof -
  have "os_ReadFile p w = os_ReadFile p v" for p
    unfolding os_ReadFile_def assms ..
  then have "combine_from root b ps w = combine_from root b ps v" for b
    by (induction ps arbitrary: b) (simp_all cong: sum.case_cong)
  then show ?thesis
    by (simp add: combineFiles_def)
qed

lemma marked_refused:
  assumes "IsAbs root" "sw_files w (names root @ [''.template-profile'']) \<noteq> None" "selector_main cs (Inr root) profile app w = (code, w')"
  shows "code = 1 \<and> sw_files w' = sw_files w"
proof -
  have "validateRepository root plan w \<noteq> None" if "newSelectionPlan profile = Inr plan" for plan
  proof -
    have "names (filepath_Join root ''.template-profile'') = names root @ [''.template-profile'']"
      using root_file [OF assms(1) plans_ok [OF that]] by (simp add: destinations_def)
    then show ?thesis
      using assms(2) by (auto simp: validateRepository_def os_Stat_def split: sum.split option.split)
  qed
  note refused = this
  from assms(3) show ?thesis
    by (cases rule: selector_main_cases) (auto dest: refused)
qed

text \<open>Without failures of the operating system every step of a validated selection succeeds.\<close>

lemma remove_all_succeeds:
  assumes "IsAbs root" "list_all owned ps" "\<And>op p. sw_fault w op p = None"
  shows "\<exists>w'. remove_all root ps w = (Inr (), w')"
  using assms(2,3)
proof (induction ps arbitrary: w)
  case (Cons p ps)
  obtain r w1 where first: "removeOwnedPath root p w = (r, w1)"
    by (cases "removeOwnedPath root p w")
  have "r = Inr () \<and> sw_fault w1 = sw_fault w"
    using first assms(1)
  proof (cases rule: removeOwnedPath_cases)
    case failed
    then show ?thesis
      using first Cons.prems(2) by (auto simp: removeOwnedPath_def owned_def os_RemoveAll_def attempt_def Let_def)
  qed (use Cons.prems(1) in auto)
  then show ?case
    using first Cons.IH [of w1] Cons.prems by simp
qed simp

lemma combine_succeeds:
  assumes "\<And>op p. sw_fault w op p = None" "\<forall>p\<in>set ps. \<exists>c. sw_files w (names (filepath_Join root p)) = Some (Regular c)"
  shows "\<exists>s. combineFiles root ps w = Inr s"
proof -
  have "\<exists>s. combine_from root b ps w = Inr s" for b
    using assms(2)
  proof (induction ps arbitrary: b)
    case (Cons p ps)
    then obtain c s where "sw_files w (names (filepath_Join root p)) = Some (Regular c)" "combine_from root False ps w = Inr s"
      by fastforce
    then show ?case
      using assms(1) by (simp add: os_ReadFile_def)
  qed simp
  then show ?thesis
    by (metis combineFiles_def sum.case(2))
qed

lemma first_error_None: "first_error f xs = None \<longleftrightarrow> (\<forall>x\<in>set xs. f x = None)"
  by (auto simp: first_error_def filter_empty_conv dest: filter_eq_ConsD split: list.split)

lemma validated_tree:
  assumes "IsAbs root" "plan_ok plan" "validateRepository root plan w = None"
  shows "sw_files w (names root @ [''.air.toml'']) = None" "sw_files w (names root @ [''sqlc.yaml'']) = None" "sw_files w (names root @ [''.template-profile'']) = None"
    "sw_files w (names root @ [sp_airSource plan]) \<noteq> None" "sw_files w (names root @ [sp_sqlcSource plan]) \<noteq> None"
proof -
  note at = root_file [OF assms(1,2)]
  have checks: "os_Stat (filepath_Join root ''.template-profile'') w = Inl NotExist" "first_error (refuse_existing root w) [''.air.toml'', ''sqlc.yaml''] = None"
      "first_error (required_path root w) ([sp_airSource plan, sp_sqlcSource plan] @ sp_envFragments plan @ sp_remove plan) = None"
    using assms(3) by (auto simp: validateRepository_def split: sum.splits os_error.splits if_splits option.splits)
  show "sw_files w (names root @ [''.template-profile'']) = None" "sw_files w (names root @ [''.air.toml'']) = None" "sw_files w (names root @ [''sqlc.yaml'']) = None"
    using checks(1,2) by (auto simp: first_error_None refuse_existing_def os_Stat_def at destinations_def split: option.splits sum.splits os_error.splits)
  show "sw_files w (names root @ [sp_airSource plan]) \<noteq> None" "sw_files w (names root @ [sp_sqlcSource plan]) \<noteq> None"
    using checks(3) by (auto simp: first_error_None required_path_def os_Stat_def at split: option.splits sum.splits)
qed

lemma apply_succeeds:
  assumes "IsAbs root" "plan_ok plan" "validateRepository root plan w = None" "\<And>op p. sw_fault w op p = None"
    "sw_files w (names root) = Some Directory" "sw_files w (names root @ [''.env.example'']) \<noteq> Some Directory"
    "\<forall>p\<in>set (sp_envFragments plan). \<exists>c. sw_files w (names (filepath_Join root p)) = Some (Regular c)"
  shows "\<exists>w'. applySelection root plan w = (Inr (), w')"
proof -
  let ?R = "names root"
  note at = root_file [OF assms(1,2)] and tree = validated_tree [OF assms(1-3)]
  obtain environment where env: "combineFiles root (sp_envFragments plan) w = Inr environment"
    using combine_succeeds [OF assms(4,7)] ..
  have names: "distinct (sp_airSource plan # sp_sqlcSource plan # destinations)"
    using assms(2) by (simp add: plan_ok_def)
  define f1 where "f1 = (sw_files w)(?R @ [''.env.example''] \<mapsto> Regular environment)"
  define f2 where "f2 = move (?R @ [sp_airSource plan]) (?R @ [''.air.toml'']) f1"
  define f3 where "f3 = move (?R @ [sp_sqlcSource plan]) (?R @ [''sqlc.yaml'']) f2"
  define f4 where "f4 = f3(?R @ [''.template-profile''] \<mapsto> Regular (sp_profile plan @ [CHR 0x0A]))"
  have "os_WriteFile (filepath_Join root ''.env.example'') environment w = (Inr (), w\<lparr>sw_files := f1\<rparr>)"
    using assms(4-6) by (simp add: os_WriteFile_def at destinations_def f1_def)
  moreover have "os_Rename (filepath_Join root (sp_airSource plan)) (filepath_Join root ''.air.toml'') (w\<lparr>sw_files := f1\<rparr>) = (Inr (), w\<lparr>sw_files := f2\<rparr>)"
    using assms(4,5) tree names by (auto simp: os_Rename_def at destinations_def f1_def f2_def)
  moreover have "os_Rename (filepath_Join root (sp_sqlcSource plan)) (filepath_Join root ''sqlc.yaml'') (w\<lparr>sw_files := f2\<rparr>) = (Inr (), w\<lparr>sw_files := f3\<rparr>)"
    using assms(4,5) tree names by (auto simp: os_Rename_def at destinations_def f1_def f2_def f3_def move_def)
  moreover have "os_WriteFile (filepath_Join root ''.template-profile'') (sp_profile plan @ [CHR 0x0A]) (w\<lparr>sw_files := f3\<rparr>) = (Inr (), w\<lparr>sw_files := f4\<rparr>)"
    using assms(4,5) tree names by (auto simp: os_WriteFile_def at destinations_def f1_def f2_def f3_def f4_def move_def)
  moreover have "\<exists>w'. remove_all root (sp_remove plan) (w\<lparr>sw_files := f4\<rparr>) = (Inr (), w')"
    using assms(2,4) by (intro remove_all_succeeds [OF assms(1)]) (simp_all add: plan_ok_def)
  ultimately show ?thesis
    by (auto simp: applySelection_def env)
qed

lemma validate_same:
  assumes "sw_files w = sw_files v" "sw_fault w = sw_fault v" "sw_git w = sw_git v"
  shows "validateRepository root plan w = validateRepository root plan v"
proof -
  have "os_ReadFile p w = os_ReadFile p v" "os_Stat p w = os_Stat p v" for p
    unfolding os_ReadFile_def os_Stat_def assms by (rule refl)+
  then have "refuse_existing root w = refuse_existing root v" "required_path root w = required_path root v"
    by (simp_all add: refuse_existing_def required_path_def fun_eq_iff)
  then show ?thesis
    unfolding validateRepository_def assms(3) \<open>\<And>p. os_ReadFile p w = os_ReadFile p v\<close> \<open>\<And>p. os_Stat p w = os_Stat p v\<close> by (simp only:)
qed

lemma selector_succeeds:
  assumes "IsAbs root" "newSelectionPlan profile = Inr plan" "validateRepository root plan w = None" "\<And>op p. sw_fault w op p = None"
    "sw_files w (names root) = Some Directory" "sw_files w (names root @ [''.env.example'']) \<noteq> Some Directory"
    "\<forall>p\<in>set (sp_envFragments plan). \<exists>c. sw_files w (names (filepath_Join root p)) = Some (Regular c)"
  shows "fst (selector_main cs (Inr root) profile True w) = 0"
proof -
  let ?w = "printPlan plan True w"
  have "\<exists>w'. applySelection root plan ?w = (Inr (), w')"
    using assms validate_same [of ?w w root plan] plans_ok [OF assms(2)] by (intro apply_succeeds) simp_all
  then show ?thesis
    using assms(2,3) by (auto simp: selector_main_def)
qed

section \<open>Properties\<close>

text \<open>
  (C33) The profile selector. Whatever happens, failures of the operating system half way included, no file outside the
  repository is touched and the root itself stays. Without the flag to apply, with an unknown profile
  or when the repository fails the checks, no file changes at all. When it reports success, the marker
  and the environment example have the right contents, the chosen configuration files are installed under their
  conventional names, everything the plan lists is gone with all that was below it, and every other
  file is as it was; and from then on every further run, for either profile, is refused and
  changes nothing.
\<close>

theorem selection_exact:
  assumes "IsAbs root" "selector_main cs (Inr root) profile app w = (code, w')"
  shows "confined (names root) w w' \<and>
    (\<not> app \<or> isl (newSelectionPlan profile) \<or> validateRepository root (projr (newSelectionPlan profile)) w \<noteq> None \<longrightarrow> sw_files w' = sw_files w) \<and>
    (code = 0 \<and> app \<longrightarrow> (\<exists>plan environment. newSelectionPlan profile = Inr plan \<and> combineFiles root (sp_envFragments plan) w = Inr environment \<and>
       selected_tree (names root) plan environment (sw_files w) (sw_files w') \<and>
       (\<forall>cs2 profile2 app2 w2 code2 w3. sw_files w2 = sw_files w' \<longrightarrow> selector_main cs2 (Inr root) profile2 app2 w2 = (code2, w3) \<longrightarrow>
          code2 = 1 \<and> sw_files w3 = sw_files w2)))"
  using assms(2)
proof (cases rule: selector_main_cases)
  case (failed plan e w2)
  then show ?thesis
    using applySelection_confined [OF failed(5) assms(1) plans_ok [OF failed(1)]] by (auto simp: confined_def)
next
  case (applied plan w2)
  note ok = plans_ok [OF applied(1)]
  obtain environment where "combineFiles root (sp_envFragments plan) (printPlan plan app w) = Inr environment"
      "selected_tree (names root) plan environment (sw_files (printPlan plan app w)) (sw_files w2)"
    using applySelection_success [OF applied(5) assms(1) ok] .
  then have tree: "combineFiles root (sp_envFragments plan) w = Inr environment"
      "selected_tree (names root) plan environment (sw_files w) (sw_files w')"
    using applied(6) combine_files [of "printPlan plan app w" w root] by simp_all
  have "sw_files w' (names root @ [''.template-profile'']) \<noteq> None"
    using tree(2) by (simp add: selected_tree_def)
  then have "code2 = 1 \<and> sw_files w3 = sw_files w2" if "sw_files w2 = sw_files w'" "selector_main cs2 (Inr root) profile2 app2 w2 = (code2, w3)"
    for cs2 profile2 app2 w2 code2 w3
    using marked_refused [OF assms(1) _ that(2)] that(1) by simp
  with tree applied(1) have "\<exists>plan environment. newSelectionPlan profile = Inr plan \<and> combineFiles root (sp_envFragments plan) w = Inr environment \<and>
       selected_tree (names root) plan environment (sw_files w) (sw_files w') \<and>
       (\<forall>cs2 profile2 app2 w2 code2 w3. sw_files w2 = sw_files w' \<longrightarrow> selector_main cs2 (Inr root) profile2 app2 w2 = (code2, w3) \<longrightarrow>
          code2 = 1 \<and> sw_files w3 = sw_files w2)"
    by (intro exI [of _ plan] exI [of _ environment]) blast
  moreover have "confined (names root) w w'"
    using applySelection_confined [OF applied(5) assms(1) ok] applied(6) by (simp add: confined_def)
  ultimately show ?thesis
    using applied(1-3) by simp
qed (simp_all add: confined_def)

text \<open>A small checkout with everything the first plan names.\<close>

definition template_tree :: "path \<Rightarrow> node option" where
  "template_tree q =
     (if q = [''repo''] then Some Directory
      else if q = [''repo'', ''go.mod''] then Some (Regular ''module example'')
      else if q = [''repo'', ''README.md''] then Some (Regular ''readme'')
      else if q \<in> set (map (\<lambda>p. ''repo'' # clean_names p)
             ([''.air.httpapi.toml'', ''sqlc.public-http.yaml'', ''config/env/common.env.example'', ''config/env/public-http.env.example''] @ commonRemovals @ publicHTTPRemovals))
      then Some (Regular ''A=1'') else None)"

definition template_world :: selector_world where
  "template_world = \<lparr>sw_files = template_tree, sw_fault = (\<lambda>_ _. None), sw_torn = (\<lambda>_ n. n), sw_git = Inr [], sw_stdout = [], sw_stderr = []\<rparr>"

text \<open>
  The selector does its work: on a repository that passes its checks, whose environment fragments are
  readable and whose environment example is not a directory, and without failures of the operating
  system, applying a known profile ends with success.
\<close>

theorem selection_completes:
  assumes "IsAbs root" "newSelectionPlan profile = Inr plan" "validateRepository root plan w = None" "\<And>op p. sw_fault w op p = None"
    "sw_files w (names root) = Some Directory" "sw_files w (names root @ [''.env.example'']) \<noteq> Some Directory"
    "\<forall>p\<in>set (sp_envFragments plan). \<exists>c. sw_files w (names (filepath_Join root p)) = Some (Regular c)"
  shows "fst (selector_main cs (Inr root) profile True w) = 0"
  using assms by (rule selector_succeeds)

lemma template_valid:
  "newSelectionPlan publicHTTPProfile = Inr (projr (newSelectionPlan publicHTTPProfile))"
  "validateRepository ''/repo'' (projr (newSelectionPlan publicHTTPProfile)) template_world = None"
  "sw_files template_world (names ''/repo'') = Some Directory" "sw_files template_world (names ''/repo'' @ [''.env.example'']) = None"
  "\<forall>p\<in>set (sp_envFragments (projr (newSelectionPlan publicHTTPProfile))).
     sw_files template_world (names (filepath_Join ''/repo'' p)) = Some (Regular ''A=1'')"
  "sw_files template_world [''repo'', ''README.md''] = Some (Regular ''readme'')" "IsAbs ''/repo''"
  by code_simp+

theorem selection_completes_witness: "fst (selector_main (\<lambda>_. []) (Inr ''/repo'') publicHTTPProfile True template_world) = 0"
  by (rule selection_completes [OF template_valid(7,1,2)]) (use template_valid in \<open>auto simp: template_world_def\<close>)

theorem selection_exact_witness:
  "\<exists>w'. selector_main (\<lambda>_. []) (Inr ''/repo'') publicHTTPProfile True template_world = (0, w') \<and>
     sw_files w' [''repo'', ''.template-profile''] = Some (Regular (''public-http'' @ [CHR 0x0A])) \<and>
     sw_files w' [''repo'', ''buf.yaml''] = None \<and> sw_files w' [''repo'', ''README.md''] = Some (Regular ''readme'')"
proof -
  let ?plan = "projr (newSelectionPlan publicHTTPProfile)"
  obtain w' where run: "selector_main (\<lambda>_. []) (Inr ''/repo'') publicHTTPProfile True template_world = (0, w')"
    using selector_succeeds [OF template_valid(7,1,2), of "\<lambda>_. []"] template_valid by (auto simp: template_world_def prod_eq_iff)
  have plan: "names ''/repo'' = [''repo'']" "sp_profile ?plan = ''public-http''" "''buf.yaml'' \<in> set (sp_remove ?plan)" "clean_names ''buf.yaml'' = [''buf.yaml'']"
      "\<forall>p\<in>set (sp_remove ?plan). \<not> below ([''repo''] @ clean_names p) [''repo'', ''README.md'']"
      "\<forall>x\<in>set (sp_airSource ?plan # sp_sqlcSource ?plan # destinations). \<not> below ([''repo''] @ [x]) [''repo'', ''README.md'']"
    by code_simp+
  obtain environment where tree: "selected_tree [''repo''] ?plan environment (sw_files template_world) (sw_files w')"
    using selection_exact [OF template_valid(7) run] template_valid(1) plan(1) by (metis sum.sel(2))
  have "below ([''repo''] @ clean_names ''buf.yaml'') [''repo'', ''buf.yaml'']"
    by (simp add: plan(4) below_def)
  then have "sw_files w' [''repo'', ''buf.yaml''] = None"
    using tree plan(3) unfolding selected_tree_def by blast
  moreover have "sw_files w' [''repo'', ''README.md''] = Some (Regular ''readme'')"
    using tree plan(5,6) template_valid(6) unfolding selected_tree_def by (metis (no_types, lifting))
  moreover have "sw_files w' [''repo'', ''.template-profile''] = Some (Regular (''public-http'' @ [CHR 0x0A]))"
    using tree plan(2) by (simp add: selected_tree_def)
  ultimately show ?thesis
    using run by blast
qed

end
