(* ===== verification/Object_Storage.thy ===== *)
theory Object_Storage
  imports Telemetry
begin

text \<open>
  Object storage: the contract of \<^verbatim>\<open>internal/repository/external/objectstorage\<close> and its implementation on
  Cloudflare R2, \<^verbatim>\<open>internal/infra/external/objectstorage/r2/store.go\<close>. The S3 client is a parameter; what the
  store relies on of the service behind it is the locale \<open>s3_service\<close>. The result is that the store
  refines a map from keys to objects: nothing but the addressed key of the configured bucket changes,
  and an answer about presence is never made up from a failure.
\<close>

section \<open>The S3 client\<close>

record 'w s3_client =
  s3_PutObject :: "string \<Rightarrow> string \<Rightarrow> string \<Rightarrow> string \<Rightarrow> ('w, string option) eff"
  s3_HeadObject :: "string \<Rightarrow> string \<Rightarrow> ('w, unit) eff"
  s3_PresignGetObject :: "string \<Rightarrow> string \<Rightarrow> duration \<Rightarrow> ('w, string) eff"

text \<open>The two searches of \<^verbatim>\<open>errors.AsType\<close> and \<^verbatim>\<open>errors.As\<close> for the library's error types.\<close>

record s3_errors =
  as_NotFound :: "error \<Rightarrow> bool"
  as_APIError_code :: "error \<Rightarrow> string option"

section \<open>The store\<close>

record r2_config =
  r2_AccountID :: string
  r2_AccessKeyID :: string
  r2_SecretAccessKey :: string
  r2_Bucket :: string
  r2_Region :: string

record 'w r2_store =
  r2_client :: "'w s3_client"
  r2_bucket :: string

record put_object_result =
  ETag :: string
  ByteSize :: int

text \<open>\<open>load\<close> is the library's configuration for a region and static credentials, \<open>client\<close> its client for an endpoint with path-style addressing.\<close>

definition r2_New :: "(string \<Rightarrow> string \<Rightarrow> string \<Rightarrow> ('w, 'c) eff) \<Rightarrow> ('c \<Rightarrow> string \<Rightarrow> bool \<Rightarrow> 'w s3_client) \<Rightarrow> r2_config \<Rightarrow> ('w, 'w r2_store) eff" where
  "r2_New load client cfg =
     (let account = TrimSpace (r2_AccountID cfg); key = TrimSpace (r2_AccessKeyID cfg); secret = TrimSpace (r2_SecretAccessKey cfg);
          bucket = TrimSpace (r2_Bucket cfg); region = TrimSpace (r2_Region cfg)
      in if account = [] then fail (Msg ''r2 config account id is required'')
         else if key = [] then fail (Msg ''r2 config access key id is required'')
         else if secret = [] then fail (Msg ''r2 config secret access key is required'')
         else if bucket = [] then fail (Msg ''r2 config bucket is required'')
         else if region = [] then fail (Msg ''r2 config region is required'')
         else let endpoint = ''https://'' @ account @ ''.r2.cloudflarestorage.com'' in
           attempt (load region key secret) (\<lambda>e. fail (Errorf ''r2 load config'' e))
             (\<lambda>c. return \<lparr>r2_client = client c endpoint True, r2_bucket = bucket\<rparr>))"

definition r2_PutObject :: "'w r2_store \<Rightarrow> string \<Rightarrow> string \<Rightarrow> string \<Rightarrow> ('w, put_object_result) eff" where
  "r2_PutObject s key body contentType =
     attempt (s3_PutObject (r2_client s) (r2_bucket s) key body contentType) (\<lambda>e. fail (Errorf ''r2 put object'' e))
       (\<lambda>etag. return \<lparr>ETag = (case etag of None \<Rightarrow> [] | Some t \<Rightarrow> t), ByteSize = int (length body)\<rparr>)"

definition r2_ObjectExists :: "s3_errors \<Rightarrow> 'w r2_store \<Rightarrow> string \<Rightarrow> ('w, bool) eff" where
  "r2_ObjectExists es s key =
     attempt (s3_HeadObject (r2_client s) (r2_bucket s) key)
       (\<lambda>e. if as_NotFound es e then return False
            else if as_APIError_code es e = Some ''NotFound'' then return False
            else fail (Errorf ''r2 head object'' e))
       (\<lambda>_. return True)"

definition r2_SignGetObjectURL :: "'w r2_store \<Rightarrow> string \<Rightarrow> duration \<Rightarrow> ('w, string) eff" where
  "r2_SignGetObjectURL s key ttl =
     attempt (s3_PresignGetObject (r2_client s) (r2_bucket s) key ttl) (\<lambda>e. fail (Errorf ''r2 sign get object'' e)) return"

section \<open>The contract of an object storage\<close>

text \<open>
  \<open>objects\<close> is the abstract state: the body and content type under each key. A put that fails may or
  may not have been carried out.
\<close>

type_synonym objects = "string \<rightharpoonup> string \<times> string"

locale object_storage =
  fixes put :: "string \<Rightarrow> string \<Rightarrow> string \<Rightarrow> ('w, put_object_result) eff"
    and exists :: "string \<Rightarrow> ('w, bool) eff"
    and sign :: "string \<Rightarrow> duration \<Rightarrow> ('w, string) eff"
    and objects :: "'w \<Rightarrow> objects"
  assumes put_ok: "put k b t w = (Inr r, w') \<Longrightarrow> objects w' = (objects w)(k \<mapsto> (b, t)) \<and> ByteSize r = int (length b)"
    and put_failed: "put k b t w = (Inl e, w') \<Longrightarrow> objects w' \<in> {objects w, (objects w)(k \<mapsto> (b, t))}"
    and exists_ok: "exists k w = (Inr x, w') \<Longrightarrow> x = (objects w k \<noteq> None) \<and> objects w' = objects w"
    and exists_failed: "exists k w = (Inl e, w') \<Longrightarrow> objects w' = objects w"
    and sign_keeps: "objects (snd (sign k d w)) = objects w"
begin

text \<open>A client's upload: look first, then put.\<close>

lemma upload_visible:
  assumes "put k b t w = (Inr r, w1)" "exists k2 w1 = (Inr x, w2)"
  shows "x = (k2 = k \<or> objects w k2 \<noteq> None)"
  using put_ok [OF assms(1)] exists_ok [OF assms(2)] by auto

lemma others_kept:
  assumes "put k b t w = (r, w1)" "k2 \<noteq> k"
  shows "objects w1 k2 = objects w k2"
proof (cases r)
  case (Inl e)
  then show ?thesis
    using put_failed [of k b t w e w1] assms by auto
next
  case (Inr x)
  then show ?thesis
    using put_ok [of k b t w x w1] assms by auto
qed

end

section \<open>What R2 provides\<close>

text \<open>
  The documented behaviour of the service: a put that succeeds stores the object, a head of a missing
  object fails with one of the two not-found errors and only then, and asking or signing changes
  nothing.
\<close>

locale s3_service =
  fixes c :: "'w s3_client"
    and es :: s3_errors
    and stored :: "'w \<Rightarrow> string \<Rightarrow> objects"
  assumes s3_put_ok: "s3_PutObject c bk k b t w = (Inr r, w') \<Longrightarrow> stored w' = (stored w)(bk := (stored w bk)(k \<mapsto> (b, t)))"
    and s3_put_failed: "s3_PutObject c bk k b t w = (Inl e, w') \<Longrightarrow> stored w' \<in> {stored w, (stored w)(bk := (stored w bk)(k \<mapsto> (b, t)))}"
    and s3_head_keeps: "stored (snd (s3_HeadObject c bk k w)) = stored w"
    and s3_head_ok: "s3_HeadObject c bk k w = (Inr u, w') \<Longrightarrow> stored w bk k \<noteq> None"
    and s3_head_missing: "s3_HeadObject c bk k w = (Inl e, w') \<Longrightarrow> as_NotFound es e \<or> as_APIError_code es e = Some ''NotFound'' \<Longrightarrow> stored w bk k = None"
    and s3_sign_keeps: "stored (snd (s3_PresignGetObject c bk k d w)) = stored w"
begin

lemma put_cases:
  assumes "r2_PutObject \<lparr>r2_client = c, r2_bucket = bk\<rparr> k b t w = (r, w')"
  obtains (ok) etag where "s3_PutObject c bk k b t w = (Inr etag, w')" "r = Inr \<lparr>ETag = (case etag of None \<Rightarrow> [] | Some x \<Rightarrow> x), ByteSize = int (length b)\<rparr>"
    | (failed) e where "s3_PutObject c bk k b t w = (Inl e, w')" "r = Inl (Errorf ''r2 put object'' e)"
  using assms by (auto simp: r2_PutObject_def elim!: attempt_cases)

lemma exists_cases:
  assumes "r2_ObjectExists es \<lparr>r2_client = c, r2_bucket = bk\<rparr> k w = (r, w')"
  shows "stored w' = stored w \<and> (\<forall>x. r = Inr x \<longrightarrow> x = (stored w bk k \<noteq> None))"
  using assms s3_head_keeps [of bk k w] by (auto simp: r2_ObjectExists_def elim!: attempt_cases dest: s3_head_ok s3_head_missing split: if_splits)

lemma others_untouched:
  assumes "r2_PutObject \<lparr>r2_client = c, r2_bucket = bk\<rparr> k b t w = (r, w')" "bk2 \<noteq> bk"
  shows "stored w' bk2 = stored w bk2"
  using assms(1)
proof (cases rule: put_cases)
  case ok
  then show ?thesis
    using s3_put_ok [of bk k b t w _ w'] assms(2) by auto
next
  case failed
  then show ?thesis
    using s3_put_failed [of bk k b t w _ w'] assms(2) by auto
qed

end

sublocale s3_service \<subseteq> r2: object_storage
  "r2_PutObject \<lparr>r2_client = c, r2_bucket = bk\<rparr>" "r2_ObjectExists es \<lparr>r2_client = c, r2_bucket = bk\<rparr>"
  "r2_SignGetObjectURL \<lparr>r2_client = c, r2_bucket = bk\<rparr>" "\<lambda>w. stored w bk" for bk
proof unfold_locales
  fix k b t w r w'
  assume "r2_PutObject \<lparr>r2_client = c, r2_bucket = bk\<rparr> k b t w = (Inr r, w')"
  then show "stored w' bk = (stored w bk)(k \<mapsto> (b, t)) \<and> ByteSize r = int (length b)"
    by (cases rule: put_cases) (auto dest: s3_put_ok)
next
  fix k b t w e w'
  assume "r2_PutObject \<lparr>r2_client = c, r2_bucket = bk\<rparr> k b t w = (Inl e, w')"
  then show "stored w' bk \<in> {stored w bk, (stored w bk)(k \<mapsto> (b, t))}"
    by (cases rule: put_cases) (auto dest!: s3_put_failed)
next
  fix k w x w'
  assume "r2_ObjectExists es \<lparr>r2_client = c, r2_bucket = bk\<rparr> k w = (Inr x, w')"
  then show "x = (stored w bk k \<noteq> None) \<and> stored w' bk = stored w bk"
    using exists_cases [of bk k w "Inr x" w'] by simp
next
  fix k w e w'
  assume "r2_ObjectExists es \<lparr>r2_client = c, r2_bucket = bk\<rparr> k w = (Inl e, w')"
  then show "stored w' bk = stored w bk"
    using exists_cases [of bk k w "Inl e" w'] by simp
next
  fix k d w
  show "stored (snd (r2_SignGetObjectURL \<lparr>r2_client = c, r2_bucket = bk\<rparr> k d w)) bk = stored w bk"
    using s3_sign_keeps [of bk k d w] by (auto simp: r2_SignGetObjectURL_def attempt_def split: prod.split sum.split)
qed

context s3_service
begin

lemma refines_map:
  "(r2_PutObject \<lparr>r2_client = c, r2_bucket = bk\<rparr> k b t w = (r, w') \<longrightarrow>
      (\<forall>x. r = Inr x \<longrightarrow> stored w' bk = (stored w bk)(k \<mapsto> (b, t)) \<and> ByteSize x = int (length b)) \<and>
      (\<forall>k2. k2 \<noteq> k \<longrightarrow> stored w' bk k2 = stored w bk k2) \<and> (\<forall>bk2. bk2 \<noteq> bk \<longrightarrow> stored w' bk2 = stored w bk2)) \<and>
    (r2_ObjectExists es \<lparr>r2_client = c, r2_bucket = bk\<rparr> k w = (q, w'') \<longrightarrow>
      stored w'' = stored w \<and> (\<forall>x. q = Inr x \<longrightarrow> x = (stored w bk k \<noteq> None)))"
  using r2.put_ok [of bk k b t w _ w'] r2.others_kept [of bk k b t w r w'] others_untouched [of bk k b t w r w'] exists_cases [of bk k w q w''] by auto

end

section \<open>A service for the examples\<close>

definition memory_s3 :: "(string \<Rightarrow> objects) s3_client" where
  "memory_s3 = \<lparr>s3_PutObject = (\<lambda>bk k b t w. (Inr (Some ''e''), w(bk := (w bk)(k \<mapsto> (b, t))))),
     s3_HeadObject = (\<lambda>bk k w. (if w bk k = None then Inl (External ''NotFound'') else Inr (), w)),
     s3_PresignGetObject = (\<lambda>bk k d w. (Inr (bk @ ''/'' @ k), w))\<rparr>"

definition s3_error_types :: s3_errors where
  "s3_error_types = \<lparr>as_NotFound = (\<lambda>e. False), as_APIError_code = (\<lambda>e. case e of External m \<Rightarrow> Some m | _ \<Rightarrow> None)\<rparr>"

interpretation memory: s3_service memory_s3 s3_error_types "\<lambda>w. w"
  by unfold_locales (auto simp: memory_s3_def s3_error_types_def split: if_splits)

section \<open>Properties\<close>

text \<open>
  (C34) The R2 store refines a map from keys to objects, over every service with S3's documented behaviour. A put that succeeds adds exactly the body and
  content type under the key and reports the size of the body; whether it succeeds or not, no other
  key and no other bucket changes. Asking whether an object exists answers only what the bucket holds
  and changes nothing; in particular a failure of the service is an error and never the
  answer that the object is absent.
\<close>

theorem object_store_refines_map:
  assumes "s3_service c es stored"
  shows "(r2_PutObject \<lparr>r2_client = c, r2_bucket = bk\<rparr> k b t w = (r, w') \<longrightarrow>
      (\<forall>x. r = Inr x \<longrightarrow> stored w' bk = (stored w bk)(k \<mapsto> (b, t)) \<and> ByteSize x = int (length b)) \<and>
      (\<forall>k2. k2 \<noteq> k \<longrightarrow> stored w' bk k2 = stored w bk k2) \<and> (\<forall>bk2. bk2 \<noteq> bk \<longrightarrow> stored w' bk2 = stored w bk2)) \<and>
    (r2_ObjectExists es \<lparr>r2_client = c, r2_bucket = bk\<rparr> k w = (q, w'') \<longrightarrow>
      stored w'' = stored w \<and> (\<forall>x. q = Inr x \<longrightarrow> x = (stored w bk k \<noteq> None)))"
  by (rule s3_service.refines_map [OF assms])

theorem object_store_refines_map_witness:
  "fst (r2_ObjectExists s3_error_types \<lparr>r2_client = memory_s3, r2_bucket = ''b''\<rparr> ''a''
     (snd (r2_PutObject \<lparr>r2_client = memory_s3, r2_bucket = ''b''\<rparr> ''a'' ''data'' ''text/plain'' (\<lambda>_. Map.empty)))) = Inr True"
proof -
  let ?s = "\<lparr>r2_client = memory_s3, r2_bucket = ''b''\<rparr>"
  obtain w1 where put: "r2_PutObject ?s ''a'' ''data'' ''text/plain'' (\<lambda>_. Map.empty) = (Inr \<lparr>ETag = ''e'', ByteSize = 4\<rparr>, w1)"
    by (simp add: r2_PutObject_def memory_s3_def)
  obtain x w2 where ex: "r2_ObjectExists s3_error_types ?s ''a'' w1 = (Inr x, w2)"
    by (cases "w1 ''b'' ''a''") (auto simp: r2_ObjectExists_def memory_s3_def s3_error_types_def attempt_def)
  show ?thesis
    using object_store_refines_map [OF memory.s3_service_axioms, of "''b''" "''a''" "''data''" "''text/plain''" "\<lambda>_. Map.empty" _ w1]
      object_store_refines_map [OF memory.s3_service_axioms, of "''b''" "''a''" "[]" "[]" w1 _ w1 "Inr x" w2] put ex by auto
qed

end
