(* ===== verification/Telemetry_Adapters.thy ===== *)
theory Telemetry_Adapters
  imports Telemetry
begin

text \<open>
  The adapters behind the telemetry contracts: the logger of \<^verbatim>\<open>internal/infra/logger/zap\<close>, the log emitter,
  the meter and the tracer of \<^verbatim>\<open>internal/infra/observability/otel\<close>, and the glue of
  \<^verbatim>\<open>internal/app/runtime/adapter.go\<close> that sends log entries to both. The zap core and the OpenTelemetry SDK are
  parameters. The meter is used by many goroutines: its instrument cache is a step relation.
\<close>

section \<open>internal/infra/logger/zap\<close>

text \<open>
  The primary output (level, whether zap's own rule for stack traces applies, context fields, message, fields) and
  a secondary sink for entries at or above its own level. Levels are zap's: debug -1, info 0, warn 1,
  error 2.
\<close>

record 'w zap_logger =
  zap_base :: "int \<Rightarrow> bool \<Rightarrow> fields \<Rightarrow> string \<Rightarrow> fields \<Rightarrow> 'w \<Rightarrow> 'w"
  sinkLevel :: int
  emitSink :: "ctx \<Rightarrow> severity \<Rightarrow> string \<Rightarrow> fields \<Rightarrow> 'w \<Rightarrow> 'w"
  ctxFields :: "ctx \<Rightarrow> fields"

definition level_of :: "severity \<Rightarrow> int" where
  "level_of s = (case s of SeverityDebug \<Rightarrow> - 1 | SeverityInfo \<Rightarrow> 0 | SeverityWarn \<Rightarrow> 1 | SeverityError \<Rightarrow> 2)"

definition newLogger :: "(int \<Rightarrow> bool \<Rightarrow> fields \<Rightarrow> string \<Rightarrow> fields \<Rightarrow> 'w \<Rightarrow> 'w) \<Rightarrow> int \<Rightarrow> 'w zap_logger" where
  "newLogger base lvl = \<lparr>zap_base = base, sinkLevel = lvl, emitSink = (\<lambda>_ _ _ _ w. w), ctxFields = (\<lambda>_. None)\<rparr>"

text \<open>\<open>parse\<close> is \<^verbatim>\<open>zapcore.ParseLevel\<close>, \<open>build\<close> the library's logger for a mode and a level.\<close>

definition zap_New :: "(string \<Rightarrow> error + int) \<Rightarrow> (bool \<Rightarrow> int \<Rightarrow> error + (int \<Rightarrow> bool \<Rightarrow> fields \<Rightarrow> string \<Rightarrow> fields \<Rightarrow> 'w \<Rightarrow> 'w)) \<Rightarrow>
    string \<Rightarrow> string \<Rightarrow> bool \<Rightarrow> error + 'w zap_logger" where
  "zap_New parse build level otelLevel development = (case parse level of
      Inl e \<Rightarrow> Inl e
    | Inr lvl \<Rightarrow> (case parse otelLevel of
         Inl e \<Rightarrow> Inl e
       | Inr sink \<Rightarrow> (case build development lvl of Inl e \<Rightarrow> Inl e | Inr base \<Rightarrow> Inr (newLogger base sink))))"

definition SetLogSink :: "'w zap_logger \<Rightarrow> (ctx \<Rightarrow> severity \<Rightarrow> string \<Rightarrow> fields \<Rightarrow> 'w \<Rightarrow> 'w) option \<Rightarrow> 'w zap_logger" where
  "SetLogSink l s = l\<lparr>emitSink := (case s of None \<Rightarrow> (\<lambda>_ _ _ _ w. w) | Some f \<Rightarrow> f)\<rparr>"

definition SetContextFieldsProvider :: "'w zap_logger \<Rightarrow> (ctx \<Rightarrow> fields) option \<Rightarrow> 'w zap_logger" where
  "SetContextFieldsProvider l p = l\<lparr>ctxFields := (case p of None \<Rightarrow> (\<lambda>_. None) | Some f \<Rightarrow> f)\<rparr>"

text \<open>\<open>frames\<close> is \<^verbatim>\<open>runtime.Caller\<close>: file, line and, when known, function of the frame so many calls up.\<close>

type_synonym frames = "nat \<Rightarrow> (string \<times> int \<times> string option) option"

definition buildCallerSinkFields :: "frames \<Rightarrow> nat \<Rightarrow> fields" where
  "buildCallerSinkFields frames skip = (case frames skip of None \<Rightarrow> None
     | Some (file, line, fn) \<Rightarrow> FromPairs [AString ''code.location'', AString (file @ '':'' @ Itoa line),
         AString ''code.function'', AString (case fn of None \<Rightarrow> [] | Some n \<Rightarrow> n)])"

definition emitSinkLog :: "'w zap_logger \<Rightarrow> frames \<Rightarrow> ctx \<Rightarrow> severity \<Rightarrow> string \<Rightarrow> fields \<Rightarrow> fields \<Rightarrow> nat \<Rightarrow> 'w \<Rightarrow> 'w" where
  "emitSinkLog l frames c s m f cf skip w =
     (if level_of s < sinkLevel l then w else emitSink l c s m (MergeFields [cf, f, buildCallerSinkFields frames skip]) w)"

definition zap_log :: "severity \<Rightarrow> 'w zap_logger \<Rightarrow> frames \<Rightarrow> ctx \<Rightarrow> string \<Rightarrow> fields list \<Rightarrow> 'w \<Rightarrow> 'w" where
  "zap_log s l frames c m ofs w =
     (let f = OptionalFields ofs; cf = ctxFields l c
      in emitSinkLog l frames c s m f cf 3 (zap_base l (level_of s) True cf m f w))"

definition zap_Debug :: "'w zap_logger \<Rightarrow> frames \<Rightarrow> ctx \<Rightarrow> string \<Rightarrow> fields list \<Rightarrow> 'w \<Rightarrow> 'w" where
  "zap_Debug = zap_log SeverityDebug"

definition zap_Info :: "'w zap_logger \<Rightarrow> frames \<Rightarrow> ctx \<Rightarrow> string \<Rightarrow> fields list \<Rightarrow> 'w \<Rightarrow> 'w" where
  "zap_Info = zap_log SeverityInfo"

definition zap_Warn :: "'w zap_logger \<Rightarrow> frames \<Rightarrow> ctx \<Rightarrow> string \<Rightarrow> fields list \<Rightarrow> 'w \<Rightarrow> 'w" where
  "zap_Warn = zap_log SeverityWarn"

definition error_field :: "(nat \<Rightarrow> string) \<Rightarrow> error option \<Rightarrow> any" where
  "error_field cs e = (case e of None \<Rightarrow> AOther ''<nil>'' | Some x \<Rightarrow> AError (Error_text cs x))"

definition logError :: "'w zap_logger \<Rightarrow> frames \<Rightarrow> (nat \<Rightarrow> string) \<Rightarrow> ctx \<Rightarrow> string \<Rightarrow> error option \<Rightarrow> bool \<Rightarrow> fields list \<Rightarrow> 'w \<Rightarrow> 'w" where
  "logError l frames cs c m e stack ofs w =
     (let f0 = CloneFields (OptionalFields ofs);
          f1 = (case f0 of None \<Rightarrow> Some [] | Some x \<Rightarrow> Some x);
          f = put_field ''error'' (error_field cs e) f1;
          cf = ctxFields l c
      in emitSinkLog l frames c SeverityError m f cf 4 (zap_base l (level_of SeverityError) stack cf m f w))"

definition zap_Error :: "'w zap_logger \<Rightarrow> frames \<Rightarrow> (nat \<Rightarrow> string) \<Rightarrow> ctx \<Rightarrow> string \<Rightarrow> error option \<Rightarrow> fields list \<Rightarrow> 'w \<Rightarrow> 'w" where
  "zap_Error l frames cs c m e = logError l frames cs c m e True"

definition zap_ErrorNoStack :: "'w zap_logger \<Rightarrow> frames \<Rightarrow> (nat \<Rightarrow> string) \<Rightarrow> ctx \<Rightarrow> string \<Rightarrow> error option \<Rightarrow> fields list \<Rightarrow> 'w \<Rightarrow> 'w" where
  "zap_ErrorNoStack l frames cs c m e = logError l frames cs c m e False"

section \<open>otel/log.go\<close>

datatype log_value = String_value string | Bool_value bool | Int64_value int | Float64_value string

text \<open>\<open>rfc3339\<close> formats a time, which a field holds in its default format.\<close>

fun toLogValue :: "(string \<Rightarrow> string) \<Rightarrow> any \<Rightarrow> log_value" where
  "toLogValue rfc3339 (AString s) = String_value s"
| "toLogValue rfc3339 (ABool b) = Bool_value b"
| "toLogValue rfc3339 (AInt i) = Int64_value i"
| "toLogValue rfc3339 (AInt32 i) = Int64_value i"
| "toLogValue rfc3339 (AInt64 i) = Int64_value i"
| "toLogValue rfc3339 (AUint w) = Int64_value (sint w)"
| "toLogValue rfc3339 (AUint32 w) = Int64_value (uint w)"
| "toLogValue rfc3339 (AUint64 w) = Int64_value (sint w)"
| "toLogValue rfc3339 (AFloat32 f) = Float64_value f"
| "toLogValue rfc3339 (AFloat64 f) = Float64_value f"
| "toLogValue rfc3339 (ATime t) = String_value (rfc3339 t)"
| "toLogValue rfc3339 (AError e) = String_value e"
| "toLogValue rfc3339 (AOther v) = String_value v"

definition toLogAttributes :: "(string \<Rightarrow> string) \<Rightarrow> fields \<Rightarrow> (string \<times> log_value) list" where
  "toLogAttributes rfc3339 f = map (\<lambda>(k, v). (k, toLogValue rfc3339 v)) (entries f)"

text \<open>The severity numbers of the OpenTelemetry log data model.\<close>

definition toOTelSeverity :: "severity \<Rightarrow> nat" where
  "toOTelSeverity s = (case s of SeverityDebug \<Rightarrow> 5 | SeverityWarn \<Rightarrow> 13 | SeverityError \<Rightarrow> 17 | _ \<Rightarrow> 9)"

record log_record =
  lr_Timestamp :: int
  lr_ObservedTimestamp :: int
  lr_Severity :: nat
  lr_SeverityText :: string
  lr_Body :: string
  lr_Attributes :: "(string \<times> log_value) list"

record 'w otel_logger =
  ol_Enabled :: "ctx \<Rightarrow> nat \<Rightarrow> 'w \<Rightarrow> bool"
  ol_Emit :: "ctx \<Rightarrow> log_record \<Rightarrow> 'w \<Rightarrow> 'w"

definition otel_Emit :: "'w otel_logger \<Rightarrow> ('w \<Rightarrow> int) \<Rightarrow> (string \<Rightarrow> string) \<Rightarrow> ctx \<Rightarrow> severity \<Rightarrow> string \<Rightarrow> fields list \<Rightarrow> 'w \<Rightarrow> 'w" where
  "otel_Emit e now rfc3339 c s m ofs w =
     (let f = OptionalFields ofs; sev = toOTelSeverity s in
      if \<not> ol_Enabled e c sev w then w
      else ol_Emit e c \<lparr>lr_Timestamp = now w, lr_ObservedTimestamp = now w, lr_Severity = sev, lr_SeverityText = Severity_String s,
             lr_Body = m, lr_Attributes = toLogAttributes rfc3339 f\<rparr> w)"

definition logScopeName :: "string \<Rightarrow> string" where
  "logScopeName serviceName = serviceName @ ''/logger''"

section \<open>app/runtime/adapter.go\<close>

definition logEmitterToLogSink :: "(ctx \<Rightarrow> severity \<Rightarrow> string \<Rightarrow> fields list \<Rightarrow> 'w \<Rightarrow> 'w) \<Rightarrow> ctx \<Rightarrow> severity \<Rightarrow> string \<Rightarrow> fields \<Rightarrow> 'w \<Rightarrow> 'w" where
  "logEmitterToLogSink emit c s m f =
     emit c (toObservabilitySeverity s) m [Some (if len_fields f > 0 then maps_Copy [] f else [])]"

text \<open>The logger as \<^verbatim>\<open>NewTelemetry\<close> connects it.\<close>

definition wired_logger :: "(int \<Rightarrow> bool \<Rightarrow> fields \<Rightarrow> string \<Rightarrow> fields \<Rightarrow> 'w \<Rightarrow> 'w) \<Rightarrow> int \<Rightarrow> 'w otel_logger \<Rightarrow> ('w \<Rightarrow> int) \<Rightarrow> (string \<Rightarrow> string) \<Rightarrow> 'w zap_logger" where
  "wired_logger base lvl e now rfc3339 =
     SetContextFieldsProvider (SetLogSink (newLogger base lvl) (Some (logEmitterToLogSink (otel_Emit e now rfc3339)))) (Some contextFieldsProvider)"

section \<open>otel/meter.go\<close>

record metric_option =
  mo_Description :: string
  mo_Unit :: string

datatype instrument_option = WithDescription string | WithUnit string

text \<open>The three conversions differ in the type of the options only.\<close>

definition instrument_options :: "metric_option list \<Rightarrow> instrument_option list" where
  "instrument_options os = (case os of [] \<Rightarrow> []
     | o1 # _ \<Rightarrow> (if mo_Description o1 \<noteq> [] then [WithDescription (mo_Description o1)] else []) @
         (if mo_Unit o1 \<noteq> [] then [WithUnit (mo_Unit o1)] else []))"

definition toCounterOptions :: "metric_option list \<Rightarrow> instrument_option list" where
  "toCounterOptions = instrument_options"

definition toUpDownCounterOptions :: "metric_option list \<Rightarrow> instrument_option list" where
  "toUpDownCounterOptions = instrument_options"

definition toHistogramOptions :: "metric_option list \<Rightarrow> instrument_option list" where
  "toHistogramOptions = instrument_options"

definition metricScopeName :: "string \<Rightarrow> string" where
  "metricScopeName serviceName = serviceName @ ''/metrics''"

text \<open>
  The caches of the meter; an instrument of the library is \<open>'i\<close>. The world counts the calls of the
  library, which may answer each differently.
\<close>

datatype 'i instrument = Noop_instrument | Cached_instrument 'i

record 'i meter =
  mt_counters :: "(string \<times> 'i) list"
  mt_upDownCounters :: "(string \<times> 'i) list"
  mt_histograms :: "(string \<times> 'i) list"

definition NewMeter :: "'i meter" where
  "NewMeter = \<lparr>mt_counters = [], mt_upDownCounters = [], mt_histograms = []\<rparr>"

text \<open>\<^verbatim>\<open>sync.Map.LoadOrStore\<close>: the entry that is there, or the new one.\<close>

definition LoadOrStore :: "string \<Rightarrow> 'i \<Rightarrow> (string \<times> 'i) list \<Rightarrow> 'i \<times> (string \<times> 'i) list" where
  "LoadOrStore name i cache = (case map_of cache name of Some j \<Rightarrow> (j, cache) | None \<Rightarrow> (i, AList.update name i cache))"

definition lookup_or_create :: "('r \<Rightarrow> string \<Rightarrow> instrument_option list \<Rightarrow> 'i option \<times> 'r) \<Rightarrow> string \<Rightarrow> instrument_option list \<Rightarrow>
    (string \<times> 'i) list \<Rightarrow> 'r \<Rightarrow> 'i instrument \<times> (string \<times> 'i) list \<times> 'r" where
  "lookup_or_create create name opts cache r =
     (if name = [] then (Noop_instrument, cache, r)
      else case map_of cache name of
          Some i \<Rightarrow> (Cached_instrument i, cache, r)
        | None \<Rightarrow> (case create r name opts of
             (None, r1) \<Rightarrow> (Noop_instrument, cache, r1)
           | (Some i, r1) \<Rightarrow> (case LoadOrStore name i cache of (j, cache1) \<Rightarrow> (Cached_instrument j, cache1, r1))))"

definition meter_Counter :: "('r \<Rightarrow> string \<Rightarrow> instrument_option list \<Rightarrow> 'i option \<times> 'r) \<Rightarrow> string \<Rightarrow> metric_option list \<Rightarrow> 'i meter \<Rightarrow> 'r \<Rightarrow>
    'i instrument \<times> 'i meter \<times> 'r" where
  "meter_Counter create name os m r = (case lookup_or_create create name (toCounterOptions os) (mt_counters m) r of
      (i, cache, r1) \<Rightarrow> (i, m\<lparr>mt_counters := cache\<rparr>, r1))"

definition meter_UpDownCounter :: "('r \<Rightarrow> string \<Rightarrow> instrument_option list \<Rightarrow> 'i option \<times> 'r) \<Rightarrow> string \<Rightarrow> metric_option list \<Rightarrow> 'i meter \<Rightarrow> 'r \<Rightarrow>
    'i instrument \<times> 'i meter \<times> 'r" where
  "meter_UpDownCounter create name os m r = (case lookup_or_create create name (toUpDownCounterOptions os) (mt_upDownCounters m) r of
      (i, cache, r1) \<Rightarrow> (i, m\<lparr>mt_upDownCounters := cache\<rparr>, r1))"

definition meter_Histogram :: "('r \<Rightarrow> string \<Rightarrow> instrument_option list \<Rightarrow> 'i option \<times> 'r) \<Rightarrow> string \<Rightarrow> metric_option list \<Rightarrow> 'i meter \<Rightarrow> 'r \<Rightarrow>
    'i instrument \<times> 'i meter \<times> 'r" where
  "meter_Histogram create name os m r = (case lookup_or_create create name (toHistogramOptions os) (mt_histograms m) r of
      (i, cache, r1) \<Rightarrow> (i, m\<lparr>mt_histograms := cache\<rparr>, r1))"

text \<open>The three instruments: a measurement reaches the library with the fields as attributes; the no-op one drops it.\<close>

definition toMetricAttributes :: "fields \<Rightarrow> (string \<times> attribute) list" where
  "toMetricAttributes f = map (\<lambda>(k, v). (k, toTraceAttribute v)) (entries f)"

definition instrument_Add :: "('i \<Rightarrow> 'v \<Rightarrow> (string \<times> attribute) list \<Rightarrow> 'w \<Rightarrow> 'w) \<Rightarrow> 'i instrument \<Rightarrow> 'v \<Rightarrow> fields list \<Rightarrow> 'w \<Rightarrow> 'w" where
  "instrument_Add observe i v ofs w = (case i of Noop_instrument \<Rightarrow> w | Cached_instrument x \<Rightarrow> observe x v (toMetricAttributes (OptionalFields ofs)) w)"

text \<open>
  Many goroutines use one cache of the meter. A call is up to three steps: the lookup, the creation after
  a miss, and storing what was created; the calls under way are a list. What the calls have
  returned is recorded.
\<close>

datatype 'i call_state = Missed string | Created string 'i

inductive meter_run :: "(string \<times> 'i) list \<Rightarrow> 'i call_state list \<Rightarrow> (string \<times> 'i instrument) list \<Rightarrow> bool" where
  idle: "meter_run [] [] []"
| hit: "meter_run cache calls results \<Longrightarrow> name \<noteq> [] \<Longrightarrow> map_of cache name = Some i \<Longrightarrow> meter_run cache calls ((name, Cached_instrument i) # results)"
| unnamed: "meter_run cache calls results \<Longrightarrow> meter_run cache calls (([], Noop_instrument) # results)"
| missed: "meter_run cache calls results \<Longrightarrow> name \<noteq> [] \<Longrightarrow> map_of cache name = None \<Longrightarrow> meter_run cache (calls @ [Missed name]) results"
| created: "meter_run cache (xs @ Missed name # ys) results \<Longrightarrow> meter_run cache (xs @ Created name i # ys) results"
| refused: "meter_run cache (xs @ Missed name # ys) results \<Longrightarrow> meter_run cache (xs @ ys) ((name, Noop_instrument) # results)"
| stored: "meter_run cache (xs @ Created name i # ys) results \<Longrightarrow> LoadOrStore name i cache = (j, cache1) \<Longrightarrow>
    meter_run cache1 (xs @ ys) ((name, Cached_instrument j) # results)"

section \<open>otel/tracer.go\<close>

definition tracerName :: "string \<Rightarrow> string \<Rightarrow> string" where
  "tracerName serviceName scope = serviceName @ ''/'' @ scope"

text \<open>\<open>start\<close> is the library's tracer of a name; the attributes are given only when there are fields.\<close>

definition startWithKind :: "(string \<Rightarrow> span_kind \<Rightarrow> string \<Rightarrow> (string \<times> attribute) list option \<Rightarrow> ctx \<Rightarrow> 'w \<Rightarrow> ctx \<times> 'w) \<Rightarrow>
    string \<Rightarrow> span_kind \<Rightarrow> ctx \<Rightarrow> string \<Rightarrow> string \<Rightarrow> fields list \<Rightarrow> 'w \<Rightarrow> ctx \<times> 'w" where
  "startWithKind start serviceName kind c scope spanName ofs =
     (let f = OptionalFields ofs in
      start (tracerName serviceName scope) kind spanName (if len_fields f > 0 then Some (toTraceAttributes f) else None) c)"

definition tracer_Start :: "(string \<Rightarrow> span_kind \<Rightarrow> string \<Rightarrow> (string \<times> attribute) list option \<Rightarrow> ctx \<Rightarrow> 'w \<Rightarrow> ctx \<times> 'w) \<Rightarrow> string \<Rightarrow> ctx \<Rightarrow> string \<Rightarrow> string \<Rightarrow> fields list \<Rightarrow> 'w \<Rightarrow> ctx \<times> 'w" where
  "tracer_Start start serviceName = startWithKind start serviceName SpanInternal"

definition tracer_StartServer :: "(string \<Rightarrow> span_kind \<Rightarrow> string \<Rightarrow> (string \<times> attribute) list option \<Rightarrow> ctx \<Rightarrow> 'w \<Rightarrow> ctx \<times> 'w) \<Rightarrow> string \<Rightarrow> ctx \<Rightarrow> string \<Rightarrow> string \<Rightarrow> fields list \<Rightarrow> 'w \<Rightarrow> ctx \<times> 'w" where
  "tracer_StartServer start serviceName = startWithKind start serviceName SpanServer"

definition tracer_StartClient :: "(string \<Rightarrow> span_kind \<Rightarrow> string \<Rightarrow> (string \<times> attribute) list option \<Rightarrow> ctx \<Rightarrow> 'w \<Rightarrow> ctx \<times> 'w) \<Rightarrow> string \<Rightarrow> ctx \<Rightarrow> string \<Rightarrow> string \<Rightarrow> fields list \<Rightarrow> 'w \<Rightarrow> ctx \<times> 'w" where
  "tracer_StartClient start serviceName = startWithKind start serviceName SpanClient"

text \<open>The identifiers of the active span, if it is valid.\<close>

definition TraceContext :: "ctx \<Rightarrow> (string \<times> string) option" where
  "TraceContext c = ctx_span c"

text \<open>The carrier functions do nothing without a carrier; \<open>propagator\<close> is the library's.\<close>

definition tracer_Extract :: "(ctx \<Rightarrow> 'k \<Rightarrow> ctx) \<Rightarrow> ctx \<Rightarrow> 'k option \<Rightarrow> ctx" where
  "tracer_Extract propagator c carrier = (case carrier of None \<Rightarrow> c | Some k \<Rightarrow> propagator c k)"

definition tracer_Inject :: "(ctx \<Rightarrow> 'k \<Rightarrow> 'k) \<Rightarrow> ctx \<Rightarrow> 'k option \<Rightarrow> 'k option" where
  "tracer_Inject propagator c carrier = map_option (propagator c) carrier"

section \<open>Lemmas\<close>

lemma meter_run_inv:
  assumes "meter_run cache calls results"
  shows "(name, Cached_instrument i) \<in> set results \<Longrightarrow> map_of cache name = Some i"
    "Missed [] \<notin> set calls \<and> (\<forall>i. Created [] i \<notin> set calls) \<and> map_of cache [] = None"
  using assms
proof (induction rule: meter_run.induct)
  case (stored cache xs n j ys results k cache1)
  {
    case 1
    then show ?case
      using stored by (auto simp: LoadOrStore_def update_conv' split: option.splits if_splits)
  next
    case 2
    then show ?case
      using stored by (auto simp: LoadOrStore_def update_conv' split: option.splits if_splits)
  }
qed auto

text \<open>A call that nothing interleaves with is one of the runs.\<close>

lemma lookup_run:
  assumes "meter_run cache calls results" "lookup_or_create create name opts cache r = (i, cache1, r1)"
  shows "meter_run cache1 calls ((name, i) # results)"
proof (cases "name = []")
  case True
  then show ?thesis
    using assms unnamed [OF assms(1)] by (simp add: lookup_or_create_def)
next
  case False
  show ?thesis
  proof (cases "map_of cache name")
    case None
    note miss = missed [OF assms(1) False None]
    show ?thesis
      using assms(2) False None refused [of cache calls name "[]" results] stored [OF created [of cache calls name "[]" results]] miss
      by (auto simp: lookup_or_create_def split: option.splits prod.splits)
  next
    case (Some j)
    then show ?thesis
      using assms False hit [OF assms(1) False Some] by (auto simp: lookup_or_create_def)
  qed
qed

lemma sint_wraps: "sint (w :: 64 word) = (if uint w < 2 ^ 63 then uint w else uint w - 2 ^ 64)"
proof -
  have range: "0 \<le> uint w" "uint w < 2 ^ 64"
    using uint_lt2p [of w] by simp_all
  have "sint w = (uint w + 2 ^ 63) mod 2 ^ 64 - 2 ^ 63"
    using int_word_sint [of "uint w", where 'a = 64] by simp
  moreover have "(uint w + 2 ^ 63) mod 2 ^ 64 = (if uint w < 2 ^ 63 then uint w + 2 ^ 63 else uint w + 2 ^ 63 - 2 ^ 64)"
  proof (cases "uint w < 2 ^ 63")
    case False
    then have "(uint w + 2 ^ 63 - 2 ^ 64) mod 2 ^ 64 = uint w + 2 ^ 63 - 2 ^ 64"
      using range by (intro mod_pos_pos_trivial) simp_all
    then show ?thesis
      using False minus_mod_self2 [of "uint w + 2 ^ 63" "2 ^ 64 :: int"] by simp
  qed (use range in simp)
  ultimately show ?thesis
    by simp
qed

text \<open>The integers of Go among the values of a field, with their ranges.\<close>

fun go_integer :: "any \<Rightarrow> int option" where
  "go_integer (AInt i) = Some i"
| "go_integer (AInt32 i) = Some i"
| "go_integer (AInt64 i) = Some i"
| "go_integer (AUint w) = Some (uint w)"
| "go_integer (AUint32 w) = Some (uint w)"
| "go_integer (AUint64 w) = Some (uint w)"
| "go_integer _ = None"

fun go_value :: "any \<Rightarrow> bool" where
  "go_value (AInt i) = int64_range i"
| "go_value (AInt32 i) = (- (2 ^ 31) \<le> i \<and> i < 2 ^ 31)"
| "go_value (AInt64 i) = int64_range i"
| "go_value _ = True"

fun as_attribute :: "log_value \<Rightarrow> attribute" where
  "as_attribute (String_value s) = String_attr s"
| "as_attribute (Bool_value b) = Bool_attr b"
| "as_attribute (Int64_value i) = Int64_attr i"
| "as_attribute (Float64_value f) = Float64_attr f"

lemma integer_attribute:
  assumes "go_value v" "go_integer v = Some n"
  shows "\<exists>j. toTraceAttribute v = Int64_attr j \<and> int64_range j \<and> (if n < 2 ^ 63 then j = n else j = n - 2 ^ 64)"
proof (cases v)
  case (AUint w)
  then show ?thesis
    using assms uint_lt2p [of w] uint_ge_0 [of w] by (auto simp: sint_wraps int64_range_def)
next
  case (AUint64 w)
  then show ?thesis
    using assms uint_lt2p [of w] uint_ge_0 [of w] by (auto simp: sint_wraps int64_range_def)
next
  case (AUint32 w)
  then show ?thesis
    using assms uint_lt2p [of w] uint_ge_0 [of w] by (auto simp: int64_range_def)
qed (use assms in \<open>auto simp: int64_range_def\<close>)

text \<open>A Go map has one entry per key; so has what the adapters build.\<close>

definition one_per_key :: "fields \<Rightarrow> bool" where
  "one_per_key f \<longleftrightarrow> distinct (map fst (entries f))"

lemma one_per_key_built [simp]: "one_per_key (FromPairs ps)" "one_per_key None" "one_per_key (contextFieldsProvider c)" "one_per_key (buildCallerSinkFields frames n)"
proof -
  show pairs: "one_per_key (FromPairs ps)" for ps
    using distinct_put_pairs [of "[]" "\<lambda>k. k \<noteq> []" ps] by (simp add: one_per_key_def FromPairs_def nil_if_empty_def entries_def)
  show "one_per_key None"
    by (simp add: one_per_key_def entries_def)
  then show "one_per_key (buildCallerSinkFields frames n)"
    by (simp add: buildCallerSinkFields_def pairs split: option.split)
  show "one_per_key (contextFieldsProvider c)"
    by (auto simp: one_per_key_def contextFieldsProvider_def nil_if_empty_def entries_def split: option.split)
qed

lemma distinct_maps_Copy: "distinct (map fst m) \<Longrightarrow> distinct (map fst (maps_Copy m f))"
proof -
  have "distinct (map fst m) \<Longrightarrow> distinct (map fst (fold (\<lambda>(k, v) m. AList.update k v m) xs m))" for xs
    by (induction xs arbitrary: m) (auto simp: distinct_update)
  then show "distinct (map fst m) \<Longrightarrow> distinct (map fst (maps_Copy m f))"
    by (simp add: maps_Copy_def)
qed

lemma MergeFields_three:
  assumes "one_per_key a" "one_per_key b" "one_per_key c"
  shows "lookup_field (MergeFields [a, b, c]) = lookup_field a ++ lookup_field b ++ lookup_field c" "one_per_key (MergeFields [a, b, c])"
proof -
  have empty: "len_fields f = 0 \<Longrightarrow> lookup_field f = Map.empty" for f
    by (cases f) (auto simp: fun_eq_iff)
  show "lookup_field (MergeFields [a, b, c]) = lookup_field a ++ lookup_field b ++ lookup_field c"
    using assms by (auto simp: MergeFields_def map_of_maps_Copy one_per_key_def empty lookup_entries [of "Some _"] entries_def [of "Some _"])
  show "one_per_key (MergeFields [a, b, c])"
    by (simp add: MergeFields_def one_per_key_def entries_def [of "Some _"] distinct_maps_Copy) (simp add: entries_def)
qed

text \<open>A world that records both outputs.\<close>

record log_world =
  lw_now :: int
  lw_stdout :: "(int \<times> bool \<times> fields \<times> string \<times> fields) list"
  lw_records :: "(ctx \<times> log_record) list"

definition stdout_core :: "int \<Rightarrow> bool \<Rightarrow> fields \<Rightarrow> string \<Rightarrow> fields \<Rightarrow> log_world \<Rightarrow> log_world" where
  "stdout_core lvl stack cf m f w = w\<lparr>lw_stdout := lw_stdout w @ [(lvl, stack, cf, m, f)]\<rparr>"

definition record_logger :: "(nat \<Rightarrow> bool) \<Rightarrow> log_world otel_logger" where
  "record_logger enabled = \<lparr>ol_Enabled = (\<lambda>_ sev _. enabled sev), ol_Emit = (\<lambda>c r w. w\<lparr>lw_records := lw_records w @ [(c, r)]\<rparr>)\<rparr>"

text \<open>What reaches the exporter: nothing, or one record with the fields given.\<close>

definition exported :: "(string \<Rightarrow> string) \<Rightarrow> ctx \<Rightarrow> severity \<Rightarrow> string \<Rightarrow> (string \<Rightarrow> any option) \<Rightarrow> log_world \<Rightarrow> log_world \<Rightarrow> bool" where
  "exported rfc3339 c s m given w w' \<longleftrightarrow> (\<exists>r. lw_records w' = lw_records w @ [(c, r)] \<and> lr_Timestamp r = lw_now w \<and> lr_Severity r = toOTelSeverity s \<and>
     lr_SeverityText r = Severity_String s \<and> lr_Body r = m \<and> map_of (lr_Attributes r) = map_option (toLogValue rfc3339) \<circ> given)"

lemma sink_exports:
  assumes "one_per_key f"
  shows "let w' = emitSinkLog (wired_logger stdout_core lvl (record_logger enabled) lw_now rfc3339) frames c s m f (contextFieldsProvider c) skip w in
    lw_stdout w' = lw_stdout w \<and>
    (if level_of s < lvl \<or> \<not> enabled (toOTelSeverity s) then lw_records w' = lw_records w
     else exported rfc3339 c s m (lookup_field (contextFieldsProvider c) ++ lookup_field f ++ lookup_field (buildCallerSinkFields frames skip)) w w')"
proof -
  let ?out = "MergeFields [contextFieldsProvider c, f, buildCallerSinkFields frames skip]"
  have look: "lookup_field ?out = lookup_field (contextFieldsProvider c) ++ lookup_field f ++ lookup_field (buildCallerSinkFields frames skip)"
      and keys: "one_per_key ?out"
    using MergeFields_three [OF _ assms] by simp_all
  have copy: "map_of (if len_fields ?out > 0 then maps_Copy [] ?out else []) = lookup_field ?out"
    using keys by (cases ?out) (auto simp: one_per_key_def map_of_maps_Copy fun_eq_iff)
  have attrs: "map_of (toLogAttributes rfc3339 (Some xs)) = map_option (toLogValue rfc3339) \<circ> map_of xs" for xs
    by (induction xs) (auto simp: toLogAttributes_def entries_def fun_eq_iff)
  have sev: "toObservabilitySeverity s = s"
    by (cases s) (simp_all add: toObservabilitySeverity_def)
  show ?thesis
    by (auto simp: emitSinkLog_def wired_logger_def SetContextFieldsProvider_def SetLogSink_def newLogger_def logEmitterToLogSink_def otel_Emit_def
        OptionalFields_def record_logger_def exported_def sev attrs copy look Let_def)
qed

section \<open>Properties\<close>

text \<open>
  The meter gives every goroutine the same instrument. However lookups, creations and stores of the
  cache interleave, once any call has returned an instrument for a name, every call of
  \<^verbatim>\<open>Counter\<close> for that name returns that very instrument, creates nothing and leaves the meter as it is; so
  no measurement goes to an instrument that was replaced.
\<close>

theorem meter_instrument_stable:
  assumes "meter_run (mt_counters m) calls results" "(name, Cached_instrument i) \<in> set results"
  shows "meter_Counter create name os m r = (Cached_instrument i, m, r)"
proof -
  have "map_of (mt_counters m) name = Some i" "name \<noteq> []"
    using meter_run_inv(1) [OF assms] meter_run_inv(2) [OF assms(1)] by auto
  then show ?thesis
    by (simp add: meter_Counter_def lookup_or_create_def)
qed

theorem meter_instrument_stable_witness:
  "meter_Counter (\<lambda>n _ _. (Some n, Suc n)) ''requests_total'' [] \<lparr>mt_counters = [(''requests_total'', 0)], mt_upDownCounters = [], mt_histograms = []\<rparr> (5::nat) =
     (Cached_instrument 0, \<lparr>mt_counters = [(''requests_total'', 0)], mt_upDownCounters = [], mt_histograms = []\<rparr>, 5)"
proof -
  have "meter_run ([] :: (string \<times> nat) list) [Missed ''requests_total'', Missed ''requests_total''] []"
    using missed [OF missed [OF idle, of "''requests_total''"], of "''requests_total''"] by simp
  then have "meter_run [] [Created ''requests_total'' (0::nat), Created ''requests_total'' (Suc 0)] []"
    using created [of "[]" "[]" "''requests_total''" "[Missed ''requests_total'']" "[]" "0 :: nat"]
      created [of "[]" "[Created ''requests_total'' (0 :: nat)]" "''requests_total''" "[]" "[]" "Suc 0"] by simp
  then have "meter_run [(''requests_total'', 0::nat)] [Created ''requests_total'' (Suc 0)] [(''requests_total'', Cached_instrument 0)]"
    using stored [of "[]" "[]" "''requests_total''" 0 "[Created ''requests_total'' (Suc 0)]" "[]" 0 "[(''requests_total'', 0)]"] by (simp add: LoadOrStore_def)
  then have "meter_run [(''requests_total'', 0::nat)] [] [(''requests_total'', Cached_instrument 0), (''requests_total'', Cached_instrument 0)]"
    using stored [of "[(''requests_total'', 0)]" "[]" "''requests_total''" "Suc 0" "[]" _ 0] by (simp add: LoadOrStore_def)
  then show ?thesis
    using meter_instrument_stable [of "\<lparr>mt_counters = [(''requests_total'', 0 :: nat)], mt_upDownCounters = [], mt_histograms = []\<rparr>" "[]" "[(''requests_total'', Cached_instrument 0), (''requests_total'', Cached_instrument 0)]" "''requests_total''" 0] by simp
qed



text \<open>
  Every log entry is correlated in both outputs. A call of the wired logger, for any severity, adds exactly one entry
  to the primary output, with the request and span identifiers of the context beside the entry's own
  fields, and an error keeps its text under one key without changing the caller's map. The
  exporter gets exactly one record, with the same severity, message and time, exactly when the severity is
  at or above the configured level and the exporter accepts it; its attributes are the context's, overridden by the entry's own,
  overridden by the place of the call.
\<close>

theorem log_correlated:
  fixes lvl :: int and enabled :: "nat \<Rightarrow> bool" and rfc3339 :: "string \<Rightarrow> string" and c :: ctx and cs :: "nat \<Rightarrow> string"
    and e :: "error option" and ofs :: "fields list"
  assumes "one_per_key (OptionalFields ofs)"
  defines "l \<equiv> wired_logger stdout_core lvl (record_logger enabled) lw_now rfc3339"
    and "cf \<equiv> contextFieldsProvider c"
    and "ef \<equiv> put_field ''error'' (error_field cs e) (Some (maps_Copy [] (OptionalFields ofs)))"
  shows "(let w' = zap_log s l frames c m ofs w in
      lw_stdout w' = lw_stdout w @ [(level_of s, True, cf, m, OptionalFields ofs)] \<and>
      (if level_of s < lvl \<or> \<not> enabled (toOTelSeverity s) then lw_records w' = lw_records w
       else exported rfc3339 c s m (lookup_field cf ++ lookup_field (OptionalFields ofs) ++ lookup_field (buildCallerSinkFields frames 3)) w w')) \<and>
    (let w' = logError l frames cs c m e stack ofs w in
      lw_stdout w' = lw_stdout w @ [(2, stack, cf, m, ef)] \<and> lookup_field ef = (lookup_field (OptionalFields ofs))(''error'' \<mapsto> error_field cs e) \<and>
      (if 2 < lvl \<or> \<not> enabled 17 then lw_records w' = lw_records w
       else exported rfc3339 c SeverityError m (lookup_field cf ++ lookup_field ef ++ lookup_field (buildCallerSinkFields frames 4)) w w'))"
proof -
  let ?f = "OptionalFields ofs"
  have l: "ctxFields l = contextFieldsProvider" "zap_base l = stdout_core"
    by (simp_all add: l_def wired_logger_def SetContextFieldsProvider_def SetLogSink_def newLogger_def)
  have core: "exported rfc3339 c t m g (stdout_core a b d x y w) w' \<longleftrightarrow> exported rfc3339 c t m g w w'"
      "lw_records (stdout_core a b d x y w) = lw_records w" "lw_stdout (stdout_core a b d x y w) = lw_stdout w @ [(a, b, d, x, y)]" for t g a b d x y w'
    by (simp_all add: exported_def stdout_core_def)
  have ef: "(case CloneFields ?f of None \<Rightarrow> Some [] | Some x \<Rightarrow> Some x) = Some (maps_Copy [] ?f)"
    by (cases ?f) (auto simp: CloneFields_def maps_Copy_def entries_def)
  have keys: "one_per_key ef"
    by (simp add: ef_def put_field_def one_per_key_def entries_def distinct_update distinct_maps_Copy)
  have look: "lookup_field ef = (lookup_field ?f)(''error'' \<mapsto> error_field cs e)"
    using assms(1) by (simp add: ef_def one_per_key_def map_of_maps_Copy lookup_entries [of "Some _"] entries_def [of "Some _"])
  have info: "zap_log s l frames c m ofs w = emitSinkLog l frames c s m ?f cf 3 (stdout_core (level_of s) True cf m ?f w)"
    by (simp add: zap_log_def l cf_def Let_def)
  have severe: "logError l frames cs c m e stack ofs w = emitSinkLog l frames c SeverityError m ef cf 4 (stdout_core 2 stack cf m ef w)"
    by (simp add: logError_def l cf_def ef ef_def level_of_def Let_def)
  have numbers: "level_of SeverityError = 2" "toOTelSeverity SeverityError = 17"
    by (simp_all add: level_of_def toOTelSeverity_def)
  show ?thesis
    using look sink_exports [OF assms(1), of lvl enabled rfc3339 frames c s m 3 "stdout_core (level_of s) True cf m ?f w", folded l_def]
      sink_exports [OF keys, of lvl enabled rfc3339 frames c SeverityError m 4 "stdout_core 2 stack cf m ef w", folded l_def]
    unfolding Let_def info severe core numbers cf_def by (intro conjI) blast+
qed

definition quiet_logs :: log_world where
  "quiet_logs = \<lparr>lw_now = 0, lw_stdout = [], lw_records = []\<rparr>"

theorem log_correlated_witness:
  "let w' = zap_log SeverityInfo (wired_logger stdout_core 0 (record_logger (\<lambda>_. True)) lw_now id) (\<lambda>_. None) (WithRequestID Background ''r1'') ''hello''
        [Some [(''k'', AInt 1)]] quiet_logs in
   lw_stdout w' = [(0, True, Some [(''request.id'', AString ''r1'')], ''hello'', Some [(''k'', AInt 1)])] \<and>
   exported id (WithRequestID Background ''r1'') SeverityInfo ''hello'' [''request.id'' \<mapsto> AString ''r1'', ''k'' \<mapsto> AInt 1] quiet_logs w'"
proof -
  have fields: "contextFieldsProvider (WithRequestID Background ''r1'') = Some [(''request.id'', AString ''r1'')]"
      "buildCallerSinkFields (\<lambda>_. None) 3 = None" "OptionalFields [Some [(''k'', AInt 1)]] = Some [(''k'', AInt 1)]"
      "lookup_field (Some [(''request.id'', AString ''r1'')]) ++ lookup_field (Some [(''k'', AInt 1)]) ++ lookup_field None = [''request.id'' \<mapsto> AString ''r1'', ''k'' \<mapsto> AInt 1]"
    by (auto simp: contextFieldsProvider_def RequestID_roundtrip nil_if_empty_def buildCallerSinkFields_def OptionalFields_def WithRequestID_def Background_def
        fun_eq_iff map_add_def RequestIDFromContext_def)
  show ?thesis
    using log_correlated [of "[Some [(''k'', AInt 1)]]" SeverityInfo 0 "\<lambda>_. True" id "\<lambda>_. None" "WithRequestID Background ''r1''" "''hello''"
      quiet_logs "\<lambda>_. []" None True]
    unfolding Let_def fields by (simp add: one_per_key_def entries_def level_of_def quiet_logs_def fields(4) [unfolded lookup_field_simps])
qed

end
