(* ===== verification/Binding.thy ===== *)
theory Binding
  imports Prelude
begin

text \<open>
  \<^verbatim>\<open>internal/delivery/http/binding\<close>: the binder that normalises the strings of a bound request,
  over the values that reflection shows it. The inner binder is Echo's and a parameter.
\<close>

section \<open>Reflected values\<close>

text \<open>
  A value by its kind: a string, a struct with its fields (tags, settable or not, value), a pointer
  or slice that may be nil, and any other kind. A slice or pointer holds values of one element type.
\<close>

record tags =
  tag_trim :: string
  tag_case :: string

datatype gval =
    GString string
  | GStruct "(tags \<times> bool \<times> gval) list"
  | GPointer "gval option"
  | GSlice "gval list option"
  | GOther

section \<open>Normalisation\<close>

definition skipTrim :: "tags \<Rightarrow> bool" where
  "skipTrim sf \<longleftrightarrow> tag_trim sf = ''false''"

definition applyCase :: "tags \<Rightarrow> string \<Rightarrow> string" where
  "applyCase sf s =
     (if tag_case sf = ''lower'' then ToLower s
      else if tag_case sf = ''upper'' then ToUpper s
      else s)"

definition normalizeString :: "tags \<Rightarrow> string \<Rightarrow> string" where
  "normalizeString sf s = applyCase sf (if skipTrim sf then s else TrimSpace s)"

text \<open>
  The loop over the fields of a struct, the switch on the kind of a settable field, and the loop over
  the elements of a slice, whose element kinds are treated as a pointer field's are.
\<close>

fun normalizeStruct :: "gval \<Rightarrow> gval"
  and normalizeField :: "tags \<times> bool \<times> gval \<Rightarrow> tags \<times> bool \<times> gval"
  and normalizeElement :: "tags \<Rightarrow> gval \<Rightarrow> gval"
where
  "normalizeStruct (GPointer (Some (GStruct fs))) = GPointer (Some (GStruct (map normalizeField fs)))"
| "normalizeStruct (GStruct fs) = GStruct (map normalizeField fs)"
| "normalizeStruct v = v"
| "normalizeField (sf, settable, v) =
     (if \<not> settable then (sf, settable, v)
      else (sf, settable, case v of
         GString s \<Rightarrow> GString (normalizeString sf s)
       | GStruct _ \<Rightarrow> normalizeStruct v
       | GPointer _ \<Rightarrow> normalizeElement sf v
       | GSlice (Some es) \<Rightarrow> GSlice (Some (map (normalizeElement sf) es))
       | _ \<Rightarrow> v))"
| "normalizeElement sf (GString s) = GString (normalizeString sf s)"
| "normalizeElement sf (GStruct fs) = normalizeStruct (GStruct fs)"
| "normalizeElement sf (GPointer (Some (GString s))) = GPointer (Some (GString (normalizeString sf s)))"
| "normalizeElement sf (GPointer (Some (GStruct fs))) = normalizeStruct (GPointer (Some (GStruct fs)))"
| "normalizeElement sf v = v"

text \<open>The target of a bind is a pointer to a struct; anything else is left alone.\<close>

definition normalizeStrings :: "gval option \<Rightarrow> gval option" where
  "normalizeStrings target = (case target of
      Some (GPointer (Some (GStruct fs))) \<Rightarrow> Some (GPointer (Some (normalizeStruct (GStruct fs))))
    | _ \<Rightarrow> target)"

text \<open>\<open>inner\<close> is the inner binder on this request: it fills the target or fails.\<close>

definition Bind :: "(gval option \<Rightarrow> 'e + gval option) \<Rightarrow> gval option \<Rightarrow> 'e + gval option" where
  "Bind inner target = (case inner target of Inl e \<Rightarrow> Inl e | Inr t \<Rightarrow> Inr (normalizeStrings t))"

section \<open>Strings\<close>

lemma upper_char_idem [simp]: "upper_char (upper_char c) = upper_char c"
  by (cases "CHR ''a'' \<le> c \<and> c \<le> CHR ''z''") (auto simp: upper_char_def less_eq_char_def)

lemma is_space_upper [simp]: "is_space (upper_char c) = is_space c"
  by (cases "CHR ''a'' \<le> c \<and> c \<le> CHR ''z''") (auto simp: is_space_code upper_char_def less_eq_char_def)

lemma ToUpper_idem [simp]: "ToUpper (ToUpper s) = ToUpper s"
  by (simp add: ToUpper_def)

lemma TrimSpace_ToUpper: "TrimSpace (ToUpper s) = ToUpper (TrimSpace s)"
  by (simp add: TrimSpace_def ToUpper_def dropWhile_map o_def rev_map)

lemma normalizeString_idem [simp]: "normalizeString sf (normalizeString sf s) = normalizeString sf s"
  by (simp add: normalizeString_def applyCase_def TrimSpace_ToLower TrimSpace_ToUpper)

section \<open>Structure\<close>

text \<open>The shape of a value: everything but its strings.\<close>

fun shape :: "gval \<Rightarrow> gval" where
  "shape (GString s) = GString []"
| "shape (GStruct fs) = GStruct (map (\<lambda>(sf, b, v). (sf, b, shape v)) fs)"
| "shape (GPointer p) = GPointer (map_option shape p)"
| "shape (GSlice es) = GSlice (map_option (map shape) es)"
| "shape GOther = GOther"

lemma normalize_shape:
  "shape (normalizeStruct v) = shape v"
  "(\<lambda>(sf, b, v). (sf, b, shape v)) (normalizeField f) = (\<lambda>(sf, b, v). (sf, b, shape v)) f"
  "shape (normalizeElement sf v) = shape v"
proof (induction v and f and sf v rule: normalizeStruct_normalizeField_normalizeElement.induct)
  case (1 fs)
  then show ?case
    by (auto simp: case_prod_unfold)
next
  case (2 fs)
  then show ?case
    by (auto simp: case_prod_unfold)
next
  case (4 sf settable v)
  then show ?case
    by (cases v) (auto split: option.split)
qed simp_all

lemma normalizeElement_pointer [simp]: "normalizeElement sf (GPointer p) \<noteq> GSlice q"
  by (cases "(sf, GPointer p)" rule: normalizeElement.cases) auto

lemma normalize_idem:
  "normalizeStruct (normalizeStruct v) = normalizeStruct v"
  "normalizeField (normalizeField f) = normalizeField f"
  "normalizeElement sf (normalizeElement sf v) = normalizeElement sf v"
proof (induction v and f and sf v rule: normalizeStruct_normalizeField_normalizeElement.induct)
  case (4 sf settable v)
  then show ?case
    by (cases v) (auto split: option.splits gval.splits)
qed auto

section \<open>What is promised of a bound request\<close>

text \<open>
  A tidy string: without white space at its ends, unless the field opts out, and in the case its
  field asks for. The strings of a request that the binder promises to reach are those of its
  settable fields, also through nested structs, pointers, and slices of strings and structs.
\<close>

definition tidy :: "tags \<Rightarrow> string \<Rightarrow> bool" where
  "tidy sf s \<longleftrightarrow> (tag_trim sf \<noteq> ''false'' \<and> s \<noteq> [] \<longrightarrow> \<not> is_space (hd s) \<and> \<not> is_space (last s)) \<and>
     (tag_case sf = ''lower'' \<longrightarrow> (\<forall>c\<in>set s. \<not> (CHR ''A'' \<le> c \<and> c \<le> CHR ''Z''))) \<and>
     (tag_case sf = ''upper'' \<longrightarrow> (\<forall>c\<in>set s. \<not> (CHR ''a'' \<le> c \<and> c \<le> CHR ''z'')))"

fun deref :: "gval \<Rightarrow> gval list" where
  "deref (GPointer None) = []"
| "deref (GPointer (Some v)) = [v]"
| "deref v = [v]"

fun parts :: "gval \<Rightarrow> gval list" where
  "parts (GSlice None) = []"
| "parts (GSlice (Some vs)) = concat (map deref vs)"
| "parts v = deref v"

inductive reaches :: "(tags \<times> bool \<times> gval) list \<Rightarrow> tags \<Rightarrow> string \<Rightarrow> bool" where
  field: "(sf, True, v) \<in> set fs \<Longrightarrow> GString s \<in> set (parts v) \<Longrightarrow> reaches fs sf s"
| nested: "(sf, True, v) \<in> set fs \<Longrightarrow> GStruct gs \<in> set (parts v) \<Longrightarrow> reaches gs sf' s \<Longrightarrow> reaches fs sf' s"

lemma hd_last_TrimSpace: "TrimSpace s \<noteq> [] \<Longrightarrow> \<not> is_space (hd (TrimSpace s)) \<and> \<not> is_space (last (TrimSpace s))"
proof -
  assume *: "TrimSpace s \<noteq> []"
  define t where "t = dropWhile is_space s"
  have trim: "TrimSpace s = rev (dropWhile is_space (rev t))"
    by (simp add: TrimSpace_def t_def)
  have tl: "t \<noteq> []" "\<exists>us. t = TrimSpace s @ us"
    using * unfolding trim by auto (metis rev_append rev_rev_ident takeWhile_dropWhile_id)
  then have "hd t = hd (TrimSpace s)"
    using * by auto
  moreover have "\<not> is_space (hd t)"
    using tl(1) hd_dropWhile [of is_space s] by (simp add: t_def)
  moreover have "\<not> is_space (last (TrimSpace s))"
    using * hd_dropWhile [of is_space "rev t"] by (simp add: trim last_rev)
  ultimately show ?thesis
    by simp
qed

lemma lower_char_not_upper: "\<not> (CHR ''A'' \<le> lower_char c \<and> lower_char c \<le> CHR ''Z'')"
  by (cases "CHR ''A'' \<le> c \<and> c \<le> CHR ''Z''") (auto simp: lower_char_def less_eq_char_def)

lemma upper_char_not_lower: "\<not> (CHR ''a'' \<le> upper_char c \<and> upper_char c \<le> CHR ''z'')"
  by (cases "CHR ''a'' \<le> c \<and> c \<le> CHR ''z''") (auto simp: upper_char_def less_eq_char_def)

lemma tidy_normalizeString: "tidy sf (normalizeString sf s)"
proof -
  have ends: "tag_trim sf \<noteq> ''false'' \<Longrightarrow> normalizeString sf s \<noteq> [] \<Longrightarrow>
      \<not> is_space (hd (normalizeString sf s)) \<and> \<not> is_space (last (normalizeString sf s))"
    using hd_last_TrimSpace [of s]
    by (auto simp: normalizeString_def applyCase_def skipTrim_def ToLower_def ToUpper_def hd_map last_map split: if_splits)
  have "tag_case sf = ''lower'' \<Longrightarrow> c \<in> set (normalizeString sf s) \<Longrightarrow> \<not> (CHR ''A'' \<le> c \<and> c \<le> CHR ''Z'')" for c
    using lower_char_not_upper by (auto simp: normalizeString_def applyCase_def ToLower_def simp del: not_le)
  moreover have "tag_case sf = ''upper'' \<Longrightarrow> c \<in> set (normalizeString sf s) \<Longrightarrow> \<not> (CHR ''a'' \<le> c \<and> c \<le> CHR ''z'')" for c
    using upper_char_not_lower by (auto simp: normalizeString_def applyCase_def ToUpper_def simp del: not_le)
  ultimately show ?thesis
    using ends unfolding tidy_def by blast
qed

lemma parts_normalizeElement:
  assumes "u \<in> set (deref (normalizeElement sf v))"
  shows "(\<forall>s. u = GString s \<longrightarrow> (\<exists>s0. s = normalizeString sf s0)) \<and> (\<forall>gs. u = GStruct gs \<longrightarrow> (\<exists>gs0. gs = map normalizeField gs0))"
  using assms by (cases "(sf, v)" rule: normalizeElement.cases) auto

lemma parts_normalizeField:
  assumes "normalizeField (sf, True, v) = (sf', True, v')" "u \<in> set (parts v')"
  shows "(\<forall>s. u = GString s \<longrightarrow> (\<exists>s0. s = normalizeString sf' s0)) \<and> (\<forall>gs. u = GStruct gs \<longrightarrow> (\<exists>gs0. gs = map normalizeField gs0))"
proof (cases v)
  case (GPointer p)
  then show ?thesis
    using assms by (cases "(sf, v)" rule: normalizeElement.cases) auto
next
  case (GSlice es)
  then show ?thesis
    using assms parts_normalizeElement [of u sf] by (cases es) auto
qed (use assms in auto)

lemma reaches_tidy: "reaches fs sf s \<Longrightarrow> fs = map normalizeField gs \<Longrightarrow> tidy sf s"
proof (induction arbitrary: gs rule: reaches.induct)
  case (field sf v fs s)
  then obtain sf0 b v0 where "normalizeField (sf0, b, v0) = (sf, True, v)"
    by auto
  then show ?case
    using parts_normalizeField [of sf0 v0 sf v, OF _ field(2)] tidy_normalizeString by (auto split: if_splits)
next
  case (nested sf v fs hs sf' s)
  then obtain sf0 b v0 where "normalizeField (sf0, b, v0) = (sf, True, v)"
    by auto
  then obtain gs0 where "hs = map normalizeField gs0"
    using parts_normalizeField [of sf0 v0 sf v, OF _ nested(2)] by (auto split: if_splits)
  then show ?case
    by (rule nested.IH)
qed

lemma shape_normalizeStrings: "map_option shape (normalizeStrings t) = map_option shape t"
proof (cases "\<exists>fs. t = Some (GPointer (Some (GStruct fs)))")
  case True
  then show ?thesis
    using normalize_shape(1) [of "GStruct _"] by (auto simp: normalizeStrings_def simp del: normalizeStruct.simps)
qed (auto simp: normalizeStrings_def split: option.split gval.split)

lemma normalizeStrings_idem: "normalizeStrings (normalizeStrings t) = normalizeStrings t"
proof (cases "\<exists>fs. t = Some (GPointer (Some (GStruct fs)))")
  case True
  then show ?thesis
    using normalize_idem(1) [of "GStruct _"] by (auto simp: normalizeStrings_def)
qed (auto simp: normalizeStrings_def split: option.split gval.split)

lemma normalizeStrings_struct: "normalizeStrings t = Some (GPointer (Some (GStruct fs))) \<Longrightarrow> \<exists>gs. fs = map normalizeField gs"
  by (auto simp: normalizeStrings_def split: option.splits gval.splits)

section \<open>Properties\<close>

text \<open>
  A bound request is tidy: the normalising binder passes the inner binder's error on; when it
  succeeds, every string it promises to reach is trimmed and in the case its field asks for, the
  shape of the value (fields, nil pointers, lengths, values that are not strings) is what the inner
  binder made, and a second normalising binder around it would change nothing.
\<close>

theorem bind_normalises:
  assumes "Bind inner target = Inr t"
  shows "\<exists>t0. inner target = Inr t0 \<and> map_option shape t = map_option shape t0 \<and> Bind (Bind inner) target = Inr t \<and>
    (\<forall>fs sf s. t = Some (GPointer (Some (GStruct fs))) \<longrightarrow> reaches fs sf s \<longrightarrow> tidy sf s)"
proof -
  obtain t0 where t0: "inner target = Inr t0" "t = normalizeStrings t0"
    using assms by (auto simp: Bind_def split: sum.splits)
  have "tidy sf s" if "t = Some (GPointer (Some (GStruct fs)))" "reaches fs sf s" for fs sf s
    using normalizeStrings_struct [of t0 fs] reaches_tidy [OF that(2)] that(1) t0(2) by auto
  then show ?thesis
    using t0 by (simp add: Bind_def shape_normalizeStrings normalizeStrings_idem)
qed

definition login_request :: "string \<Rightarrow> gval option" where
  "login_request s = Some (GPointer (Some (GStruct [(\<lparr>tag_trim = [], tag_case = ''lower''\<rparr>, True, GSlice (Some [GString s]))])))"

theorem bind_normalises_witness:
  "\<exists>fs. (Bind (\<lambda>_. Inr (login_request '' Ab '')) None :: string + gval option) = Inr (Some (GPointer (Some (GStruct fs)))) \<and>
     reaches fs \<lparr>tag_trim = [], tag_case = ''lower''\<rparr> ''ab'' \<and> tidy \<lparr>tag_trim = [], tag_case = ''lower''\<rparr> ''ab''"
proof -
  let ?sf = "\<lparr>tag_trim = [], tag_case = ''lower''\<rparr>"
  let ?fs = "[(?sf, True, GSlice (Some [GString ''ab'']))]"
  have run: "(Bind (\<lambda>_. Inr (login_request '' Ab '')) None :: string + gval option) = Inr (Some (GPointer (Some (GStruct ?fs))))"
    by (simp add: Bind_def login_request_def normalizeStrings_def normalizeString_def applyCase_def skipTrim_def TrimSpace_def is_space_def
        ToLower_def lower_char_def less_eq_char_def char_of_def bit_0)
  have reach: "reaches ?fs ?sf ''ab''"
    by (rule reaches.field [of _ "GSlice (Some [GString ''ab''])"]) simp_all
  show ?thesis
    using bind_normalises [OF run] run reach by auto
qed

end
