(* ===== verification/User_Repo.thy ===== *)
theory User_Repo
  imports Kv_Stores
begin

text \<open>
  The user repository: the SQL statements of \<^verbatim>\<open>sqlc/gen/user.sql.go\<close> as functions on the two
  tables, the classification of driver errors (\<^verbatim>\<open>pgerr.go\<close>, \<^verbatim>\<open>db_error.go\<close>), the store
  over them (\<^verbatim>\<open>user_store.go\<close>) and the cache-aside store of
  \<^verbatim>\<open>internal/infra/composed/user\<close>. The tables carry the constraints of the schema; a statement is
  atomic, as PostgreSQL executes it.
\<close>

section \<open>Statements\<close>

text \<open>
  Storing a string in a \<^verbatim>\<open>VARCHAR(n)\<close> column: excess characters are an error unless they are all
  spaces, which are cut off.
\<close>

definition varchar :: "nat \<Rightarrow> string \<Rightarrow> string option" where
  "varchar n s = (if length s \<le> n then Some s
     else if list_all (\<lambda>c. c = CHR '' '') (drop n s) then Some (take n s) else None)"

abbreviation CodeForeignKeyViolation :: string where "CodeForeignKeyViolation \<equiv> ''23503''"
abbreviation CodeUniqueViolation :: string where "CodeUniqueViolation \<equiv> ''23505''"
abbreviation CodeCheckViolation :: string where "CodeCheckViolation \<equiv> ''23514''"
abbreviation CodeStringDataTruncation :: string where "CodeStringDataTruncation \<equiv> ''22001''"

definition too_long :: error where
  "too_long = Pg CodeStringDataTruncation ''value too long for type character varying''"

definition duplicate_key :: error where
  "duplicate_key = Pg CodeUniqueViolation ''duplicate key value violates unique constraint''"

definition new_user :: "string \<Rightarrow> int \<Rightarrow> user_row" where
  "new_user email i = \<lparr>u_id = i, u_email = email, u_status = StatusActive\<rparr>"

definition CreateUser :: "string \<Rightarrow> database \<Rightarrow> (error + user_row) \<times> database" where
  "CreateUser email d =
     (case varchar 320 email of
        None \<Rightarrow> (Inl too_long, d)
      | Some e \<Rightarrow>
          let d' = d\<lparr>next_id := next_id d + 1\<rparr> in
          if \<exists>u\<in>set (users d). u_email u = e then (Inl duplicate_key, d')
          else (Inr (new_user e (next_id d)), d'\<lparr>users := users d @ [new_user e (next_id d)]\<rparr>))"

definition GetUserByEmail :: "string \<Rightarrow> database \<Rightarrow> (error + user_row) \<times> database" where
  "GetUserByEmail email d =
     (case find (\<lambda>u. u_email u = email) (users d) of
        None \<Rightarrow> (Inl (Sentinel PgxErrNoRows), d) | Some u \<Rightarrow> (Inr u, d))"

definition GetUserByID :: "int \<Rightarrow> database \<Rightarrow> (error + user_row) \<times> database" where
  "GetUserByID i d =
     (case find (\<lambda>u. u_id u = i) (users d) of
        None \<Rightarrow> (Inl (Sentinel PgxErrNoRows), d) | Some u \<Rightarrow> (Inr u, d))"

text \<open>The common table expressions of \<^verbatim>\<open>upsertOAuthConnection\<close>, in order.\<close>

definition existing :: "string \<Rightarrow> string \<Rightarrow> database \<Rightarrow> user_row option" where
  "existing provider subject d =
     (case find (\<lambda>c. c_provider c = provider \<and> c_subject c = subject) (connections d) of
        None \<Rightarrow> None | Some c \<Rightarrow> find (\<lambda>u. u_id u = c_user c) (users d))"

definition insert_or_touch :: "string \<Rightarrow> database \<Rightarrow> (error + user_row) \<times> database" where
  "insert_or_touch email d =
     (case varchar 320 email of
        None \<Rightarrow> (Inl too_long, d)
      | Some e \<Rightarrow>
          let d' = d\<lparr>next_id := next_id d + 1\<rparr> in
          (case find (\<lambda>u. u_email u = e) (users d) of
             Some u \<Rightarrow> (Inr u, d')
           | None \<Rightarrow> (Inr (new_user e (next_id d)), d'\<lparr>users := users d @ [new_user e (next_id d)]\<rparr>)))"

definition ensure_connection :: "string \<Rightarrow> string \<Rightarrow> user_row \<Rightarrow> database \<Rightarrow> error + database" where
  "ensure_connection provider subject u d =
     (case (varchar 32 provider, varchar 255 subject) of
        (Some p, Some s) \<Rightarrow>
          if \<exists>c\<in>set (connections d). c_provider c = p \<and> c_subject c = s then Inr d
          else Inr (d\<lparr>connections := connections d @ [\<lparr>c_user = u_id u, c_provider = p, c_subject = s\<rparr>]\<rparr>)
      | _ \<Rightarrow> Inl too_long)"

definition UpsertOAuthConnection :: "string \<Rightarrow> string \<Rightarrow> string \<Rightarrow> database \<Rightarrow> (error + user_row) \<times> database" where
  "UpsertOAuthConnection provider subject email d =
     (case (case existing provider subject d of Some u \<Rightarrow> (Inr u, d) | None \<Rightarrow> insert_or_touch email d) of
        (Inl e, _) \<Rightarrow> (Inl e, d)
      | (Inr u, d') \<Rightarrow>
          (case ensure_connection provider subject u d' of
             Inl e \<Rightarrow> (Inl e, d)
           | Inr d'' \<Rightarrow> (Inr u, d'')))"

section \<open>Driver errors\<close>

definition as_Pg :: "error \<Rightarrow> string option" where
  "as_Pg e = (case e of Pg c _ \<Rightarrow> Some c | _ \<Rightarrow> None)"

definition IsNoRows :: "error \<Rightarrow> bool" where
  "IsNoRows e \<longleftrightarrow> errors_Is e PgxErrNoRows"

definition IsForeignKeyViolation :: "error \<Rightarrow> bool" where
  "IsForeignKeyViolation e \<longleftrightarrow> first_match as_Pg e = Some CodeForeignKeyViolation"

definition IsUniqueViolation :: "error \<Rightarrow> bool" where
  "IsUniqueViolation e \<longleftrightarrow> first_match as_Pg e = Some CodeUniqueViolation"

definition IsValueTooLong :: "error \<Rightarrow> bool" where
  "IsValueTooLong e \<longleftrightarrow> first_match as_Pg e = Some CodeStringDataTruncation"

definition IsCheckViolation :: "error \<Rightarrow> bool" where
  "IsCheckViolation e \<longleftrightarrow> first_match as_Pg e = Some CodeCheckViolation"

definition wrapWriteErr :: "error \<Rightarrow> string \<Rightarrow> error" where
  "wrapWriteErr e msg =
     (if IsValueTooLong e then Errorf msg (Joined [Sentinel ErrValueTooLong, e])
      else if IsCheckViolation e then Errorf msg (Joined [Sentinel ErrDataException, e])
      else if IsUniqueViolation e then Errorf msg (Joined [Sentinel ErrDuplicateKey, e])
      else if IsForeignKeyViolation e then Errorf msg (Joined [Sentinel ErrForeignKey, e])
      else Errorf msg e)"

definition wrapSelectErr :: "error \<Rightarrow> string \<Rightarrow> error" where
  "wrapSelectErr e msg =
     (if IsNoRows e then Errorf msg (Joined [Sentinel ErrNotFound, e]) else Errorf msg e)"

section \<open>UserStore\<close>

record oauth_user_upsert =
  Provider :: string
  ProviderUserID :: string
  Upsert_Email :: string

record 'w user_repo =
  ur_GetByEmail :: "string \<Rightarrow> ('w, user) eff"
  ur_GetByID :: "int \<Rightarrow> ('w, user) eff"
  ur_CreateByEmail :: "string \<Rightarrow> ('w, user) eff"
  ur_UpsertOAuthUser :: "oauth_user_upsert \<Rightarrow> ('w, user) eff"

definition user_of_row :: "user_row \<Rightarrow> user" where
  "user_of_row r = \<lparr>ID = u_id r, Email = u_email r, Status = u_status r\<rparr>"

definition db_fields :: "string \<Rightarrow> any list \<Rightarrow> fields" where
  "db_fields operation extra = FromPairs ([AString ''db.system'', AString ''postgresql'', AString ''db.operation'', AString operation,
     AString ''db.sql.table'', AString ''users''] @ extra)"

definition UserStore_GetByEmail :: "'s world sink \<Rightarrow> string \<Rightarrow> ('s world, user) eff" where
  "UserStore_GetByEmail tr email =
     with_span tr ''repository'' ''user_store.get_by_email'' (db_fields ''select'' []) (\<lambda>_ w. w)
       (attempt (db_call (GetUserByEmail email)) (\<lambda>e. fail (wrapSelectErr e ''get user by email''))
          (\<lambda>row. return (user_of_row row)))"

definition UserStore_GetByID :: "'s world sink \<Rightarrow> int \<Rightarrow> ('s world, user) eff" where
  "UserStore_GetByID tr i =
     with_span tr ''repository'' ''user_store.get_by_id'' (db_fields ''select'' [AString ''user.id'', AInt64 i]) (\<lambda>_ w. w)
       (attempt (db_call (GetUserByID i)) (\<lambda>e. fail (wrapSelectErr e ''get user by id''))
          (\<lambda>row. return (user_of_row row)))"

definition UserStore_CreateByEmail :: "'s world sink \<Rightarrow> string \<Rightarrow> ('s world, user) eff" where
  "UserStore_CreateByEmail tr email =
     with_span tr ''repository'' ''user_store.create_by_email'' (db_fields ''insert'' []) (\<lambda>_ w. w)
       (attempt (db_call (CreateUser email)) (\<lambda>e. fail (wrapWriteErr e ''create user''))
          (\<lambda>row. return (user_of_row row)))"

definition UserStore_UpsertOAuthUser :: "'s world sink \<Rightarrow> oauth_user_upsert \<Rightarrow> ('s world, user) eff" where
  "UserStore_UpsertOAuthUser tr info =
     with_span tr ''repository'' ''user_store.upsert_oauth_user''
       (db_fields ''upsert'' [AString ''oauth.provider'', AString (Provider info)]) (\<lambda>_ w. w)
       (attempt (db_call (UpsertOAuthConnection (Provider info) (ProviderUserID info) (Upsert_Email info)))
          (\<lambda>e. fail (wrapWriteErr e ''upsert oauth connection''))
          (\<lambda>row. return (user_of_row row)))"

definition UserStore :: "'s world sink \<Rightarrow> 's world user_repo" where
  "UserStore tr = \<lparr>ur_GetByEmail = UserStore_GetByEmail tr, ur_GetByID = UserStore_GetByID tr,
     ur_CreateByEmail = UserStore_CreateByEmail tr, ur_UpsertOAuthUser = UserStore_UpsertOAuthUser tr\<rparr>"

section \<open>CachedUserStore\<close>

record 'w cached_user_store =
  cus_base :: "'w user_repo"
  cus_cache :: "'w user_cache_repo"
  cus_log :: "'w sink"
  cus_tracer :: "'w sink"

definition NewCachedUserStore :: "'w sink option \<Rightarrow> 'w sink option \<Rightarrow> 'w user_repo \<Rightarrow> 'w user_cache_repo \<Rightarrow> 'w cached_user_store" where
  "NewCachedUserStore lg tr base cache = \<lparr>cus_base = base, cus_cache = cache, cus_log = or_noop lg, cus_tracer = or_noop tr\<rparr>"

text \<open>A failed cache call is logged and otherwise ignored; \<open>errv\<close> is the value an error takes in a field map.\<close>

definition cache_warning :: "'w cached_user_store \<Rightarrow> (error \<Rightarrow> any) \<Rightarrow> string \<Rightarrow> int \<Rightarrow> error \<Rightarrow> 'w \<Rightarrow> 'w" where
  "cache_warning r errv msg i e = Warn (cus_log r) msg (FromPairs [AString ''user.id'', AInt64 i, AString ''error'', errv e])"

definition load_through :: "'w cached_user_store \<Rightarrow> (error \<Rightarrow> any) \<Rightarrow> int \<Rightarrow> ('w, user) eff" where
  "load_through r errv i =
     perform (cus_tracer r (SpanAttributes (FromPairs [AString ''cache'', AString ''miss''])))
       (attempt (ur_GetByID (cus_base r) i) fail
          (\<lambda>u. attempt (uc_SetByID (cus_cache r) i u)
             (\<lambda>e. perform (cache_warning r errv ''user cache write failed'' i e) (return u))
             (\<lambda>_. return u)))"

definition CachedUserStore_GetByID :: "'w cached_user_store \<Rightarrow> (error \<Rightarrow> any) \<Rightarrow> int \<Rightarrow> ('w, user) eff" where
  "CachedUserStore_GetByID r errv i =
     with_span (cus_tracer r) ''repository'' ''cached_user_store.get_by_id'' (FromPairs [AString ''user.id'', AInt64 i]) (\<lambda>_ w. w)
       (attempt (uc_GetByID (cus_cache r) i)
          (\<lambda>e. perform (cache_warning r errv ''user cache read failed'' i e) (load_through r errv i))
          (\<lambda>found. case found of
             Some u \<Rightarrow> perform (cus_tracer r (SpanAttributes (FromPairs [AString ''cache'', AString ''hit'']))) (return u)
           | None \<Rightarrow> load_through r errv i))"

definition CachedUserStore_UpsertOAuthUser :: "'w cached_user_store \<Rightarrow> (error \<Rightarrow> any) \<Rightarrow> oauth_user_upsert \<Rightarrow> ('w, user) eff" where
  "CachedUserStore_UpsertOAuthUser r errv info =
     attempt (ur_UpsertOAuthUser (cus_base r) info) fail
       (\<lambda>u. attempt (uc_DeleteByID (cus_cache r) (ID u))
          (\<lambda>e. perform (cache_warning r errv ''user cache invalidation failed'' (ID u) e) (return u))
          (\<lambda>_. return u))"

definition CachedUserStore :: "'w cached_user_store \<Rightarrow> (error \<Rightarrow> any) \<Rightarrow> 'w user_repo" where
  "CachedUserStore r errv = \<lparr>ur_GetByEmail = ur_GetByEmail (cus_base r), ur_GetByID = CachedUserStore_GetByID r errv,
     ur_CreateByEmail = ur_CreateByEmail (cus_base r), ur_UpsertOAuthUser = CachedUserStore_UpsertOAuthUser r errv\<rparr>"

section \<open>The tables\<close>

text \<open>The constraints of the schema, and that the identity column is ahead of every row.\<close>

definition db_ok :: "database \<Rightarrow> bool" where
  "db_ok d \<longleftrightarrow> distinct (map u_id (users d)) \<and> distinct (map u_email (users d)) \<and>
     distinct (map (\<lambda>c. (c_provider c, c_subject c)) (connections d)) \<and>
     (\<forall>c\<in>set (connections d). c_user c \<in> u_id ` set (users d)) \<and> (\<forall>u\<in>set (users d). u_id u < next_id d)"

definition link :: "database \<Rightarrow> string \<times> string \<Rightarrow> int option" where
  "link d ps = map_of (map (\<lambda>c. ((c_provider c, c_subject c), c_user c)) (connections d)) ps"

text \<open>What a change of the tables may do: keep the constraints, keep every row and link, add active rows.\<close>

definition grows :: "database \<Rightarrow> database \<Rightarrow> bool" where
  "grows d d' \<longleftrightarrow> db_ok d' \<and> set (users d) \<subseteq> set (users d') \<and> link d \<subseteq>\<^sub>m link d' \<and>
     (\<forall>u\<in>set (users d') - set (users d). u_status u = StatusActive \<and> u_id u \<notin> u_id ` set (users d))"

lemma grows_refl: "db_ok d \<Longrightarrow> grows d d"
  by (simp add: grows_def)

lemma link_update [simp]: "link (d\<lparr>next_id := n\<rparr>) = link d" "link (d\<lparr>users := us\<rparr>) = link d"
  by (simp_all add: link_def fun_eq_iff)

lemma db_ok_skip:
  assumes "db_ok d"
  shows "grows d (d\<lparr>next_id := next_id d + 1\<rparr>)"
proof -
  have "u_id u < next_id d + 1" if "u \<in> set (users d)" for u
    using assms that by (force simp: db_ok_def)
  then have "db_ok (d\<lparr>next_id := next_id d + 1\<rparr>)"
    using assms by (simp add: db_ok_def)
  then show ?thesis
    by (simp add: grows_def)
qed

lemma db_ok_append:
  assumes "db_ok d" "e \<notin> u_email ` set (users d)"
  shows "grows d (d\<lparr>next_id := next_id d + 1, users := users d @ [new_user e (next_id d)]\<rparr>)"
proof -
  have "u_id u < next_id d" if "u \<in> set (users d)" for u
    using assms(1) that by (simp add: db_ok_def)
  then have fresh: "next_id d \<notin> u_id ` set (users d)" and "\<And>u. u \<in> set (users d) \<Longrightarrow> u_id u < next_id d + 1"
    by force+
  then have "db_ok (d\<lparr>next_id := next_id d + 1, users := users d @ [new_user e (next_id d)]\<rparr>)"
    using assms by (auto simp: db_ok_def new_user_def)
  then show ?thesis
    using fresh by (auto simp: grows_def new_user_def)
qed

lemma find_email:
  assumes "find (\<lambda>u. u_email u = e) us = Some u"
  shows "u \<in> set us" "u_email u = e"
  using assms by (auto simp: find_Some_iff)

lemma find_None_email: "find (\<lambda>u. u_email u = e) us = None \<Longrightarrow> e \<notin> u_email ` set us"
  by (auto simp: find_None_iff)

lemma CreateUser_cases:
  assumes "db_ok d" "CreateUser email d = (r, d')"
  obtains (created) e where "varchar 320 email = Some e" "r = Inr (new_user e (next_id d))"
        "users d' = users d @ [new_user e (next_id d)]" "connections d' = connections d" "grows d d'"
        "next_id d \<notin> u_id ` set (users d)" "e \<notin> u_email ` set (users d)"
    | (duplicate) u where "r = Inl duplicate_key" "u \<in> set (users d)" "varchar 320 email = Some (u_email u)"
        "users d' = users d" "connections d' = connections d" "grows d d'"
    | (long) "r = Inl too_long" "varchar 320 email = None" "d' = d" "grows d d'"
proof (cases "varchar 320 email")
  case None
  then show thesis
    using assms long grows_refl by (simp add: CreateUser_def)
next
  case (Some e)
  show thesis
  proof (cases "e \<in> u_email ` set (users d)")
    case True
    then obtain u where u: "u \<in> set (users d)" "e = u_email u"
      by auto
    then have "\<exists>u\<in>set (users d). u_email u = e"
      by auto
    then have "r = Inl duplicate_key" "d' = d\<lparr>next_id := next_id d + 1\<rparr>"
      using assms(2) Some by (simp_all add: CreateUser_def Let_def)
    then show thesis
      using Some u db_ok_skip [OF assms(1)] by (intro duplicate [of u]) simp_all
  next
    case False
    then have "\<not> (\<exists>u\<in>set (users d). u_email u = e)"
      by auto
    then have d': "r = Inr (new_user e (next_id d))"
        "d' = d\<lparr>next_id := next_id d + 1, users := users d @ [new_user e (next_id d)]\<rparr>"
      using assms(2) Some by (simp_all add: CreateUser_def Let_def)
    have "next_id d \<notin> u_id ` set (users d)"
      using assms(1) by (auto simp: db_ok_def)
    then show thesis
      using d' Some False db_ok_append [OF assms(1) False] by (intro created [of e]) simp_all
  qed
qed

lemma existing_link:
  assumes "db_ok d"
  shows "existing p s d = (case link d (p, s) of None \<Rightarrow> None | Some i \<Rightarrow> find (\<lambda>u. u_id u = i) (users d))"
    and "link d (p, s) = Some i \<Longrightarrow> \<exists>u\<in>set (users d). u_id u = i \<and> existing p s d = Some u"
proof -
  have find: "find (\<lambda>c. c_provider c = p \<and> c_subject c = s) cs =
      None \<longleftrightarrow> map_of (map (\<lambda>c. ((c_provider c, c_subject c), c_user c)) cs) (p, s) = None" for cs
    by (induction cs) auto
  have map_of: "find (\<lambda>c. c_provider c = p \<and> c_subject c = s) cs = Some c \<Longrightarrow>
      map_of (map (\<lambda>c. ((c_provider c, c_subject c), c_user c)) cs) (p, s) = Some (c_user c)" for cs c
    by (induction cs) (auto split: if_splits)
  show eq: "existing p s d = (case link d (p, s) of None \<Rightarrow> None | Some i \<Rightarrow> find (\<lambda>u. u_id u = i) (users d))"
    using find [of "connections d"] map_of [of "connections d"]
    by (auto simp: existing_def link_def split: option.splits)
  assume link: "link d (p, s) = Some i"
  then have "i \<in> c_user ` set (connections d)"
    by (force simp: link_def dest: map_of_SomeD)
  then obtain u where "u \<in> set (users d)" "u_id u = i"
    using assms by (auto simp: db_ok_def)
  then have "find (\<lambda>u. u_id u = i) (users d) \<noteq> None"
    by (auto simp: find_None_iff)
  then show "\<exists>u\<in>set (users d). u_id u = i \<and> existing p s d = Some u"
    unfolding eq link by (auto simp: find_Some_iff)
qed

lemma insert_or_touch_cases:
  assumes "db_ok d" "insert_or_touch email d = (Inr u, d')"
  shows "grows d d'" "u \<in> set (users d')" "link d' = link d" "set (users d') \<subseteq> insert u (set (users d))"
    "varchar 320 email = Some (u_email u)"
proof -
  obtain e where e: "varchar 320 email = Some e"
    using assms(2) by (auto simp: insert_or_touch_def split: option.splits)
  have "grows d d' \<and> u \<in> set (users d') \<and> link d' = link d \<and> set (users d') \<subseteq> insert u (set (users d)) \<and> u_email u = e"
  proof (cases "find (\<lambda>u. u_email u = e) (users d)")
    case None
    then show ?thesis
      using assms(2) e db_ok_append [OF assms(1) find_None_email [OF None]]
      by (auto simp: insert_or_touch_def link_def fun_eq_iff new_user_def Let_def)
  next
    case (Some v)
    then show ?thesis
      using assms e db_ok_skip find_email [OF Some]
      by (auto simp: insert_or_touch_def link_def fun_eq_iff Let_def)
  qed
  then show "grows d d'" "u \<in> set (users d')" "link d' = link d" "set (users d') \<subseteq> insert u (set (users d))"
    "varchar 320 email = Some (u_email u)"
    using e by simp_all
qed

lemma grows_trans:
  assumes "grows d d'" "grows d' d''"
  shows "grows d d''"
proof -
  have "u_status u = StatusActive \<and> u_id u \<notin> u_id ` set (users d)" if "u \<in> set (users d'') - set (users d)" for u
  proof (cases "u \<in> set (users d')")
    case True
    then show ?thesis
      using that assms(1) by (simp add: grows_def)
  next
    case False
    then have "u_status u = StatusActive" "u_id u \<notin> u_id ` set (users d')"
      using that assms(2) by (simp_all add: grows_def)
    moreover have "u_id ` set (users d) \<subseteq> u_id ` set (users d')"
      using assms(1) by (intro image_mono) (simp add: grows_def)
    ultimately show ?thesis
      by blast
  qed
  then show ?thesis
    using assms unfolding grows_def by (auto intro: map_le_trans)
qed

lemma ensure_connection_grows:
  assumes "db_ok d" "ensure_connection p s u d = Inr d'" "u \<in> set (users d)"
  shows "grows d d'" "users d' = users d"
    "length p \<le> 32 \<Longrightarrow> length s \<le> 255 \<Longrightarrow> link d' = (case link d (p, s) of None \<Rightarrow> (link d)((p, s) \<mapsto> u_id u) | Some _ \<Rightarrow> link d)"
proof -
  obtain p' s' where fit: "varchar 32 p = Some p'" "varchar 255 s = Some s'"
    using assms(2) by (auto simp: ensure_connection_def split: option.splits)
  have mem: "(\<exists>c\<in>set (connections d). c_provider c = p' \<and> c_subject c = s') \<longleftrightarrow> link d (p', s') \<noteq> None"
    by (force simp: link_def map_of_eq_None_iff)
  let ?c = "\<lparr>c_user = u_id u, c_provider = p', c_subject = s'\<rparr>"
  have step: "grows d d' \<and> users d' = users d \<and>
      link d' = (case link d (p', s') of None \<Rightarrow> (link d)((p', s') \<mapsto> u_id u) | Some _ \<Rightarrow> link d)"
  proof (cases "link d (p', s')")
    case None
    then have d': "d' = d\<lparr>connections := connections d @ [?c]\<rparr>"
      using assms(2) fit mem by (simp add: ensure_connection_def)
    have "(p', s') \<notin> (\<lambda>c. (c_provider c, c_subject c)) ` set (connections d)"
      using None mem by auto
    then have "db_ok d'"
      using assms(1,3) unfolding d' db_ok_def by auto
    moreover have link: "link d' = (link d)((p', s') \<mapsto> u_id u)"
      using None unfolding d' by (auto simp: link_def fun_eq_iff map_add_def split: option.splits)
    ultimately show ?thesis
      using None unfolding grows_def by (auto simp: d' map_le_def)
  next
    case (Some i)
    then have "d' = d"
      using assms(2) fit mem by (simp add: ensure_connection_def)
    then show ?thesis
      using Some grows_refl [OF assms(1)] by simp
  qed
  then show "grows d d'" "users d' = users d"
    by simp_all
  assume "length p \<le> 32" "length s \<le> 255"
  then have eqs: "p' = p" "s' = s"
    using fit by (simp_all add: varchar_def)
  show "link d' = (case link d (p, s) of None \<Rightarrow> (link d)((p, s) \<mapsto> u_id u) | Some _ \<Rightarrow> link d)"
    using step unfolding eqs by blast
qed

lemma Upsert_cases:
  assumes "db_ok d" "UpsertOAuthConnection p s email d = (r, d')"
  obtains (ok) u where "r = Inr u" "grows d d'" "u \<in> set (users d')" "set (users d') \<subseteq> insert u (set (users d))"
        "\<And>i. link d (p, s) = Some i \<Longrightarrow> u_id u = i \<and> users d' = users d"
        "length p \<le> 32 \<Longrightarrow> length s \<le> 255 \<Longrightarrow> link d' (p, s) = Some (u_id u)"
        "link d (p, s) = None \<Longrightarrow> varchar 320 email = Some (u_email u)"
    | (failed) "r = Inl too_long" "d' = d" "grows d d'"
proof (cases "link d (p, s)")
  case (Some i)
  then obtain u where u: "u \<in> set (users d)" "u_id u = i" "existing p s d = Some u"
    using existing_link(2) [OF assms(1)] by blast
  show thesis
  proof (cases "ensure_connection p s u d")
    case (Inl e)
    then have "e = too_long"
      by (auto simp: ensure_connection_def split: option.splits if_splits)
    then show thesis
      using assms u Inl failed grows_refl by (simp add: UpsertOAuthConnection_def)
  next
    case (Inr d1)
    then have "r = Inr u" "d' = d1"
      using assms(2) u by (simp_all add: UpsertOAuthConnection_def)
    then show thesis
      using ensure_connection_grows [OF assms(1) Inr u(1)] u Some by (intro ok [of u]) auto
  qed
next
  case None
  then have none: "existing p s d = None"
    using existing_link(1) [OF assms(1), of p s] by simp
  obtain q d1 where touch: "insert_or_touch email d = (q, d1)"
    by (cases "insert_or_touch email d")
  show thesis
  proof (cases q)
    case (Inl e)
    then have "e = too_long"
      using touch by (auto simp: insert_or_touch_def Let_def split: option.splits)
    then show thesis
      using assms touch none Inl failed grows_refl by (simp add: UpsertOAuthConnection_def)
  next
    case (Inr u)
    note t = insert_or_touch_cases [OF assms(1) touch [unfolded Inr]]
    have ok1: "db_ok d1"
      using t(1) by (simp add: grows_def)
    show thesis
    proof (cases "ensure_connection p s u d1")
      case (Inl e)
      then have "e = too_long"
        by (auto simp: ensure_connection_def split: option.splits if_splits)
      then show thesis
        using assms touch none Inr Inl failed grows_refl by (simp add: UpsertOAuthConnection_def)
    next
      case (Inr d2)
      then have "r = Inr u" "d' = d2"
        using assms(2) touch none \<open>q = Inr u\<close> by (simp_all add: UpsertOAuthConnection_def)
      moreover note e = ensure_connection_grows [OF ok1 Inr t(2)]
      ultimately show thesis
        using t None grows_trans [OF t(1) e(1)] by (intro ok [of u]) auto
    qed
  qed
qed

section \<open>What the repository promises\<close>

definition accounts_of :: "database \<Rightarrow> user set" where
  "accounts_of d = user_of_row ` set (users d)"

text \<open>
  \<open>ok\<close> is the integrity of the data, \<open>accounts\<close> the users on record and \<open>links\<close> the map from a
  provider's subject to the user it logs in. A failed write may or may not have happened.
\<close>

locale user_repository =
  fixes repo :: "'w user_repo" and ok :: "'w \<Rightarrow> bool" and accounts :: "'w \<Rightarrow> user set"
    and links :: "'w \<Rightarrow> string \<times> string \<Rightarrow> int option"
  assumes unique: "ok w \<Longrightarrow> u \<in> accounts w \<Longrightarrow> v \<in> accounts w \<Longrightarrow> ID u = ID v \<or> Email u = Email v \<Longrightarrow> u = v"
    and GetByEmail_ok: "ok w \<Longrightarrow> ur_GetByEmail repo e w = (Inr u, w') \<Longrightarrow> u \<in> accounts w \<and> Email u = e"
    and GetByEmail_absent: "ok w \<Longrightarrow> ur_GetByEmail repo e w = (Inl x, w') \<Longrightarrow> errors_Is x ErrNotFound \<Longrightarrow> u \<in> accounts w \<Longrightarrow> Email u \<noteq> e"
    and GetByEmail_frame: "ok w \<Longrightarrow> ur_GetByEmail repo e w = (r, w') \<Longrightarrow> ok w' \<and> accounts w' = accounts w \<and> links w' = links w"
    and GetByID_ok: "ok w \<Longrightarrow> ur_GetByID repo i w = (Inr u, w') \<Longrightarrow> u \<in> accounts w \<and> ID u = i"
    and GetByID_frame: "ok w \<Longrightarrow> ur_GetByID repo i w = (r, w') \<Longrightarrow> ok w' \<and> accounts w' = accounts w \<and> links w' = links w"
    and Create_ok: "ok w \<Longrightarrow> ur_CreateByEmail repo e w = (Inr u, w') \<Longrightarrow> accounts w' = insert u (accounts w) \<and>
          CanAuthenticate u \<and> ID u \<notin> ID ` accounts w \<and> Email u \<notin> Email ` accounts w \<and> (length e \<le> 320 \<longrightarrow> Email u = e)"
    and Create_duplicate: "ok w \<Longrightarrow> ur_CreateByEmail repo e w = (Inl x, w') \<Longrightarrow> errors_Is x ErrDuplicateKey \<Longrightarrow>
          accounts w' = accounts w \<and> (length e \<le> 320 \<longrightarrow> e \<in> Email ` accounts w)"
    and Create_frame: "ok w \<Longrightarrow> ur_CreateByEmail repo e w = (r, w') \<Longrightarrow> ok w' \<and> links w' = links w \<and> accounts w \<subseteq> accounts w'"
    and Upsert_ok: "ok w \<Longrightarrow> ur_UpsertOAuthUser repo info w = (Inr u, w') \<Longrightarrow> u \<in> accounts w' \<and> accounts w' \<subseteq> insert u (accounts w)"
    and Upsert_known: "ok w \<Longrightarrow> ur_UpsertOAuthUser repo info w = (Inr u, w') \<Longrightarrow>
          links w (Provider info, ProviderUserID info) = Some i \<Longrightarrow> ID u = i \<and> accounts w' = accounts w"
    and Upsert_link: "ok w \<Longrightarrow> ur_UpsertOAuthUser repo info w = (Inr u, w') \<Longrightarrow> length (Provider info) \<le> 32 \<Longrightarrow>
          length (ProviderUserID info) \<le> 255 \<Longrightarrow> links w' (Provider info, ProviderUserID info) = Some (ID u)"
    and Upsert_frame: "ok w \<Longrightarrow> ur_UpsertOAuthUser repo info w = (r, w') \<Longrightarrow> ok w' \<and> accounts w \<subseteq> accounts w' \<and> links w \<subseteq>\<^sub>m links w'"
begin

text \<open>A provider's subject always logs in the same user, whatever address the provider reports.\<close>

lemma Upsert_stable:
  assumes "ok w" "ur_UpsertOAuthUser repo info w = (Inr u, w')" "length (Provider info) \<le> 32" "length (ProviderUserID info) \<le> 255"
    and later: "ok w2" "links w' \<subseteq>\<^sub>m links w2"
    and "ur_UpsertOAuthUser repo info2 w2 = (Inr v, w3)" "Provider info2 = Provider info" "ProviderUserID info2 = ProviderUserID info"
  shows "ID v = ID u"
proof -
  have "links w' (Provider info, ProviderUserID info) = Some (ID u)"
    using Upsert_link assms by blast
  then have "links w2 (Provider info2, ProviderUserID info2) = Some (ID u)"
    using assms(6,8,9) by (auto simp: map_le_def dom_def)
  then show ?thesis
    using Upsert_known [OF later(1) assms(7)] by simp
qed

end

section \<open>The store keeps the promises\<close>

lemma first_match_Pg [simp]:
  "first_match as_Pg (Sentinel x) = None" "first_match as_Pg (External t) = None" "first_match as_Pg (Pg c t) = Some c"
  by (simp_all add: first_match_leaf first_match_here as_Pg_def)

lemma first_match_Pg_transport [simp]: "first_match as_Pg (transport_error t) = None"
  by (cases t) simp_all

lemma wrapSelectErr_Is [simp]: "errors_Is (wrapSelectErr e m) ErrNotFound \<longleftrightarrow> IsNoRows e \<or> errors_Is e ErrNotFound"
  by (simp add: wrapSelectErr_def)

lemma wrapWriteErr_Is_duplicate [simp]:
  "errors_Is (wrapWriteErr e m) ErrDuplicateKey \<longleftrightarrow> IsUniqueViolation e \<or> errors_Is e ErrDuplicateKey"
  by (auto simp: wrapWriteErr_def IsUniqueViolation_def IsValueTooLong_def IsCheckViolation_def)

lemma store_call_cases:
  assumes "quiet tr"
    and "with_span tr sc nm f (\<lambda>_ w. w) (attempt (db_call q) (\<lambda>e. fail (wr e)) (\<lambda>row. return (user_of_row row))) w = (r, w')"
  obtains (ok) row where "r = Inr (user_of_row row)" "q (db w) = (Inr row, db w')" "kv w' = kv w"
    | (err) e where "r = Inl (wr e)" "q (db w) = (Inl e, db w')" "kv w' = kv w"
    | (lost) t where "r = Inl (wr (transport_error t))" "db w' = db w \<or> db w' = snd (q (db w))" "kv w' = kv w"
proof -
  note quiet = quiet_apply [OF assms(1)]
  obtain w0 w1 where w0: "w0 = tr (SpanStart SpanInternal sc nm f) w"
    and body: "attempt (db_call q) (\<lambda>e. fail (wr e)) (\<lambda>row. return (user_of_row row)) w0 = (r, w1)"
    and w': "w' = tr (SpanFinish (err_of r) None) w1"
    using assms(2) by (auto simp: with_span_eq)
  have eqs: "db w0 = db w" "kv w0 = kv w" "db w' = db w1" "kv w' = kv w1"
    by (simp_all add: w0 w' quiet)
  have kv: "kv w1 = kv w" if "db_call q w0 = (x, w1)" for x
    using that db_call_frame(1) [of q w0] eqs by simp
  from body show thesis
  proof (cases rule: attempt_cases)
    case (err e w2)
    then have call: "db_call q w0 = (Inl e, w1)" and r: "r = Inl (wr e)"
      by auto
    from call show thesis
    proof (cases rule: db_call_Inl)
      case query
      then show thesis
        using that(2) [of e] r kv [OF call] eqs by simp
    next
      case (lost t)
      then show thesis
        using that(3) [of t] r kv [OF call] eqs by auto
    qed
  next
    case (ok row w2)
    then have call: "db_call q w0 = (Inr row, w1)" and r: "r = Inr (user_of_row row)"
      by auto
    then show thesis
      using that(1) [of row] db_call_Inr [OF call] kv [OF call] eqs by simp
  qed
qed

lemmas user_store_ops = UserStore_def UserStore_GetByEmail_def UserStore_GetByID_def UserStore_CreateByEmail_def UserStore_UpsertOAuthUser_def

lemma user_of_row_simps [simp]: "ID (user_of_row u) = u_id u" "Email (user_of_row u) = u_email u" "Status (user_of_row u) = u_status u"
  by (simp_all add: user_of_row_def)

lemma user_of_row_inj: "user_of_row u = user_of_row v \<Longrightarrow> u = v"
  by (cases u; cases v) (simp add: user_of_row_def)

lemma accounts_grows: "grows d d' \<Longrightarrow> accounts_of d \<subseteq> accounts_of d'"
  by (auto simp: grows_def accounts_of_def)

lemma snd_GetUser [simp]: "snd (GetUserByEmail e d) = d" "snd (GetUserByID i d) = d"
  by (simp_all add: GetUserByEmail_def GetUserByID_def split: option.split)

lemma GetUser_Inr:
  "GetUserByEmail e d = (Inr u, d') \<Longrightarrow> u \<in> set (users d) \<and> u_email u = e"
  "GetUserByID i d = (Inr u, d') \<Longrightarrow> u \<in> set (users d) \<and> u_id u = i"
  by (auto simp: GetUserByEmail_def GetUserByID_def find_Some_iff split: option.splits)

lemma GetUserByEmail_Inl: "GetUserByEmail e d = (Inl x, d') \<Longrightarrow> e \<notin> u_email ` set (users d)"
  by (auto simp: GetUserByEmail_def find_None_iff split: option.splits)

lemma db_ok_unique:
  assumes "db_ok d" "u \<in> set (users d)" "v \<in> set (users d)" "u_id u = u_id v \<or> u_email u = u_email v"
  shows "u = v"
  using assms by (auto simp: db_ok_def distinct_map dest: inj_onD)

lemma varchar_id: "length s \<le> n \<Longrightarrow> varchar n s = Some t \<longleftrightarrow> t = s"
  by (auto simp: varchar_def)

locale user_store =
  fixes tr :: "'s world sink"
  assumes quiet: "quiet tr"
begin

lemma GetByEmail_cases:
  assumes "UserStore_GetByEmail tr e w = (r, w')"
  obtains (found) u where "r = Inr (user_of_row u)" "u \<in> set (users (db w))" "u_email u = e" "db w' = db w" "kv w' = kv w"
    | (absent) x where "r = Inl x" "errors_Is x ErrNotFound" "e \<notin> u_email ` set (users (db w))" "db w' = db w" "kv w' = kv w"
    | (failed) x where "r = Inl x" "\<not> errors_Is x ErrNotFound" "db w' = db w" "kv w' = kv w"
  using quiet assms [unfolded UserStore_GetByEmail_def]
proof (cases rule: store_call_cases)
  case (ok row)
  then show thesis
    using found GetUser_Inr(1) [OF ok(2)] snd_GetUser(1) [of e "db w"] by simp
next
  case (err x)
  moreover have "x = Sentinel PgxErrNoRows"
    using err(2) by (auto simp: GetUserByEmail_def split: option.splits)
  ultimately show thesis
    using absent GetUserByEmail_Inl [OF err(2)] snd_GetUser(1) [of e "db w"] by (simp add: IsNoRows_def)
next
  case (lost t)
  then show thesis
    using failed by (simp add: IsNoRows_def)
qed

lemma GetByID_cases:
  assumes "UserStore_GetByID tr i w = (r, w')"
  obtains (found) u where "r = Inr (user_of_row u)" "u \<in> set (users (db w))" "u_id u = i" "db w' = db w" "kv w' = kv w"
    | (failed) x where "r = Inl x" "db w' = db w" "kv w' = kv w"
  using quiet assms [unfolded UserStore_GetByID_def]
proof (cases rule: store_call_cases)
  case (ok row)
  then show thesis
    using found GetUser_Inr(2) [OF ok(2)] snd_GetUser(2) [of i "db w"] by simp
next
  case (err x)
  then show thesis
    using failed snd_GetUser(2) [of i "db w"] by simp
next
  case (lost t)
  then show thesis
    using failed by simp
qed

lemma CreateByEmail_cases:
  assumes "db_ok (db w)" "UserStore_CreateByEmail tr e w = (r, w')"
  obtains (created) u where "r = Inr (user_of_row u)" "set (users (db w')) = insert u (set (users (db w)))"
        "varchar 320 e = Some (u_email u)" "u_status u = StatusActive" "u_id u \<notin> u_id ` set (users (db w))"
        "u_email u \<notin> u_email ` set (users (db w))" "grows (db w) (db w')" "link (db w') = link (db w)" "kv w' = kv w"
    | (duplicate) x u where "r = Inl x" "errors_Is x ErrDuplicateKey" "u \<in> set (users (db w))" "varchar 320 e = Some (u_email u)"
        "users (db w') = users (db w)" "grows (db w) (db w')" "link (db w') = link (db w)" "kv w' = kv w"
    | (failed) x where "r = Inl x" "\<not> errors_Is x ErrDuplicateKey" "grows (db w) (db w')" "link (db w') = link (db w)" "kv w' = kv w"
proof -
  have grows: "grows (db w) d \<and> link d = link (db w)" if "CreateUser e (db w) = (q, d)" for q d
    using assms(1) that by (cases rule: CreateUser_cases) (simp_all add: link_def fun_eq_iff)
  note wr = IsUniqueViolation_def duplicate_key_def too_long_def
  from quiet assms(2) [unfolded UserStore_CreateByEmail_def] show thesis
  proof (cases rule: store_call_cases)
    case (ok row)
    from assms(1) ok(2) show thesis
      by (cases rule: CreateUser_cases) (use ok grows [OF ok(2)] created [of row] in \<open>simp_all add: new_user_def\<close>)
  next
    case (err x)
    from assms(1) err(2) show thesis
      by (cases rule: CreateUser_cases) (use err grows [OF err(2)] duplicate failed in \<open>simp_all add: wr\<close>)
  next
    case (lost t)
    obtain q d where "CreateUser e (db w) = (q, d)"
      by (cases "CreateUser e (db w)")
    then show thesis
      using lost grows grows_refl [OF assms(1)] failed by (auto simp: wr)
  qed
qed

lemma UpsertOAuthUser_cases:
  assumes "db_ok (db w)" "UserStore_UpsertOAuthUser tr info w = (r, w')"
  obtains (ok) u where "r = Inr (user_of_row u)" "grows (db w) (db w')" "u \<in> set (users (db w'))"
        "set (users (db w')) \<subseteq> insert u (set (users (db w)))"
        "\<And>i. link (db w) (Provider info, ProviderUserID info) = Some i \<Longrightarrow> u_id u = i \<and> users (db w') = users (db w)"
        "length (Provider info) \<le> 32 \<Longrightarrow> length (ProviderUserID info) \<le> 255 \<Longrightarrow>
           link (db w') (Provider info, ProviderUserID info) = Some (u_id u)" "kv w' = kv w"
    | (failed) x where "r = Inl x" "grows (db w) (db w')" "kv w' = kv w"
  using quiet assms(2) [unfolded UserStore_UpsertOAuthUser_def]
proof (cases rule: store_call_cases)
  case (ok row)
  note store = ok
  from assms(1) ok(2) show thesis
    by (cases rule: Upsert_cases) (use store that(1) [of row] in simp_all)
next
  case (err x)
  from assms(1) err(2) show thesis
    by (cases rule: Upsert_cases) (use err failed in simp_all)
next
  case (lost t)
  obtain q d where q: "UpsertOAuthConnection (Provider info) (ProviderUserID info) (Upsert_Email info) (db w) = (q, d)"
    by (cases "UpsertOAuthConnection (Provider info) (ProviderUserID info) (Upsert_Email info) (db w)")
  from assms(1) q have "grows (db w) d"
    by (cases rule: Upsert_cases) simp_all
  then show thesis
    using lost q failed grows_refl [OF assms(1)] by auto
qed

end

sublocale user_store \<subseteq> users: user_repository "UserStore tr" "\<lambda>w. db_ok (db w)" "\<lambda>w. accounts_of (db w)" "\<lambda>w. link (db w)"
proof
  fix w w' :: "'s world" and e x i r info and u v :: user
  assume ok: "db_ok (db w)"
  show "u = v" if "u \<in> accounts_of (db w)" "v \<in> accounts_of (db w)" "ID u = ID v \<or> Email u = Email v"
    using that ok by (auto simp: accounts_of_def dest: db_ok_unique)
  show "u \<in> accounts_of (db w) \<and> Email u = e" if "ur_GetByEmail (UserStore tr) e w = (Inr u, w')"
    using that unfolding UserStore_def user_repo.simps by (cases rule: GetByEmail_cases) (simp_all add: accounts_of_def)
  show "Email u \<noteq> e" if "ur_GetByEmail (UserStore tr) e w = (Inl x, w')" "errors_Is x ErrNotFound" "u \<in> accounts_of (db w)"
    using that unfolding UserStore_def user_repo.simps by (cases rule: GetByEmail_cases) (auto simp: accounts_of_def)
  show "db_ok (db w') \<and> accounts_of (db w') = accounts_of (db w) \<and> link (db w') = link (db w)"
    if "ur_GetByEmail (UserStore tr) e w = (r, w')"
    using that ok unfolding UserStore_def user_repo.simps by (cases rule: GetByEmail_cases) simp_all
  show "u \<in> accounts_of (db w) \<and> ID u = i" if "ur_GetByID (UserStore tr) i w = (Inr u, w')"
    using that unfolding UserStore_def user_repo.simps by (cases rule: GetByID_cases) (simp_all add: accounts_of_def)
  show "db_ok (db w') \<and> accounts_of (db w') = accounts_of (db w) \<and> link (db w') = link (db w)"
    if "ur_GetByID (UserStore tr) i w = (r, w')"
    using that ok unfolding UserStore_def user_repo.simps by (cases rule: GetByID_cases) simp_all
  show "accounts_of (db w') = insert u (accounts_of (db w)) \<and> CanAuthenticate u \<and> ID u \<notin> ID ` accounts_of (db w) \<and>
      Email u \<notin> Email ` accounts_of (db w) \<and> (length e \<le> 320 \<longrightarrow> Email u = e)"
    if "ur_CreateByEmail (UserStore tr) e w = (Inr u, w')"
    using ok that unfolding UserStore_def user_repo.simps
    by (cases rule: CreateByEmail_cases) (auto simp: accounts_of_def CanAuthenticate_def varchar_id)
  show "accounts_of (db w') = accounts_of (db w) \<and> (length e \<le> 320 \<longrightarrow> e \<in> Email ` accounts_of (db w))"
    if "ur_CreateByEmail (UserStore tr) e w = (Inl x, w')" "errors_Is x ErrDuplicateKey"
    using ok that unfolding UserStore_def user_repo.simps
    by (cases rule: CreateByEmail_cases) (auto simp: accounts_of_def varchar_id image_iff)
  show "db_ok (db w') \<and> link (db w') = link (db w) \<and> accounts_of (db w) \<subseteq> accounts_of (db w')"
    if "ur_CreateByEmail (UserStore tr) e w = (r, w')"
    using ok that unfolding UserStore_def user_repo.simps
    by (cases rule: CreateByEmail_cases) (simp_all add: accounts_grows, simp_all add: grows_def)
  show "u \<in> accounts_of (db w') \<and> accounts_of (db w') \<subseteq> insert u (accounts_of (db w))"
    if "ur_UpsertOAuthUser (UserStore tr) info w = (Inr u, w')"
    using ok that unfolding UserStore_def user_repo.simps
    by (cases rule: UpsertOAuthUser_cases) (auto simp: accounts_of_def)
  show "ID u = i \<and> accounts_of (db w') = accounts_of (db w)"
    if "ur_UpsertOAuthUser (UserStore tr) info w = (Inr u, w')" "link (db w) (Provider info, ProviderUserID info) = Some i"
    using ok that unfolding UserStore_def user_repo.simps
    by (cases rule: UpsertOAuthUser_cases) (auto simp: accounts_of_def)
  show "link (db w') (Provider info, ProviderUserID info) = Some (ID u)"
    if "ur_UpsertOAuthUser (UserStore tr) info w = (Inr u, w')" "length (Provider info) \<le> 32" "length (ProviderUserID info) \<le> 255"
    using ok that unfolding UserStore_def user_repo.simps by (cases rule: UpsertOAuthUser_cases) simp_all
  show "db_ok (db w') \<and> accounts_of (db w) \<subseteq> accounts_of (db w') \<and> link (db w) \<subseteq>\<^sub>m link (db w')"
    if "ur_UpsertOAuthUser (UserStore tr) info w = (r, w')"
    using ok that unfolding UserStore_def user_repo.simps
    by (cases rule: UpsertOAuthUser_cases) (simp_all add: accounts_grows, simp_all add: grows_def)
qed

interpretation traced: user_store trace_sink
  by unfold_locales simp

section \<open>The cache-aside store keeps them too\<close>

text \<open>
  The cached store over any repository and any cache that keep out of each other's data: it is a
  user repository again, whose integrity includes that every cached user is the user on record.
\<close>

locale cached_users = base: user_repository base ok accounts links + cache: user_cache cache cached cacheable kept
  for base :: "'w user_repo" and ok accounts links and cache :: "'w user_cache_repo" and cached cacheable kept +
  fixes store :: "'w cached_user_store" and errv :: "error \<Rightarrow> any"
  assumes parts: "cus_base store = base" "cus_cache store = cache"
    and kept_same: "kept u = Some v \<Longrightarrow> v = u"
    and cached_GetByEmail: "ur_GetByEmail base e w = (r, w') \<Longrightarrow> cached w' = cached w"
    and cached_GetByID: "ur_GetByID base i w = (r, w') \<Longrightarrow> cached w' = cached w"
    and cached_Create: "ur_CreateByEmail base e w = (r, w') \<Longrightarrow> cached w' = cached w"
    and cached_Upsert: "ur_UpsertOAuthUser base info w = (r, w') \<Longrightarrow> cached w' = cached w"
    and cache_Get: "uc_GetByID cache i w = (r1, w') \<Longrightarrow> (ok w', accounts w', links w') = (ok w, accounts w, links w)"
    and cache_Set: "uc_SetByID cache i u w = (r2, w') \<Longrightarrow> (ok w', accounts w', links w') = (ok w, accounts w, links w)"
    and cache_Delete: "uc_DeleteByID cache i w = (r2, w') \<Longrightarrow> (ok w', accounts w', links w') = (ok w, accounts w, links w)"
    and sinks: "sk = cus_log store \<or> sk = cus_tracer store \<Longrightarrow>
          (ok (sk ev w), accounts (sk ev w), links (sk ev w), cached (sk ev w)) = (ok w, accounts w, links w, cached w)"
begin

definition coherent :: "'w \<Rightarrow> bool" where
  "coherent w \<longleftrightarrow> (\<forall>i u. cached w i = Some u \<longrightarrow> u \<in> accounts w \<and> ID u = i)"

lemma sink_simps [simp]:
  "ok (cus_log store ev w) = ok w" "accounts (cus_log store ev w) = accounts w" "links (cus_log store ev w) = links w"
  "cached (cus_log store ev w) = cached w" "ok (cus_tracer store ev w) = ok w" "accounts (cus_tracer store ev w) = accounts w"
  "links (cus_tracer store ev w) = links w" "cached (cus_tracer store ev w) = cached w"
  using sinks by blast+

lemma warning_simps [simp]:
  "ok (cache_warning store errv m i e w) = ok w" "accounts (cache_warning store errv m i e w) = accounts w"
  "links (cache_warning store errv m i e w) = links w" "cached (cache_warning store errv m i e w) = cached w"
  by (simp_all add: cache_warning_def Warn_def)

lemma coherent_sinks [simp]:
  "coherent (cus_log store ev w) = coherent w" "coherent (cus_tracer store ev w) = coherent w"
  "coherent (cache_warning store errv m i e w) = coherent w"
  by (simp_all add: coherent_def)

lemma coherent_mono: "coherent w \<Longrightarrow> cached w' = cached w \<Longrightarrow> accounts w \<subseteq> accounts w' \<Longrightarrow> coherent w'"
  by (auto simp: coherent_def)

lemma Set_coherent:
  assumes "uc_SetByID cache i u w = (r, w')" "ok w" "coherent w" "u \<in> accounts w" "ID u = i"
  shows "ok w' \<and> coherent w' \<and> accounts w' = accounts w \<and> links w' = links w"
proof -
  have "cached w' = cached w \<or> cached w' = (cached w)(i := kept u)"
    using assms(1) cache.Set_ok cache.Set_err by (cases r) blast+
  then show ?thesis
    using assms cache_Set [OF assms(1)] kept_same [of u] by (auto simp: coherent_def split: if_splits)
qed

lemma Delete_coherent:
  assumes "uc_DeleteByID cache i w = (r, w')" "ok w" "coherent w"
  shows "ok w' \<and> coherent w' \<and> accounts w' = accounts w \<and> links w' = links w"
proof -
  have "cached w' = cached w \<or> cached w' = (cached w)(i := None)"
    using assms(1) cache.Delete_ok cache.Delete_err by (cases r) blast+
  then show ?thesis
    using assms cache_Delete [OF assms(1)] by (auto simp: coherent_def split: if_splits)
qed

lemma load_through_ok:
  assumes "load_through store errv i w = (r, w')" "ok w" "coherent w"
  shows "ok w' \<and> coherent w' \<and> accounts w' = accounts w \<and> links w' = links w \<and> (\<forall>u. r = Inr u \<longrightarrow> u \<in> accounts w \<and> ID u = i)"
proof -
  define w0 where "w0 = cus_tracer store (SpanAttributes (FromPairs [AString ''cache'', AString ''miss''])) w"
  have w0: "ok w0" "coherent w0" "accounts w0 = accounts w" "links w0 = links w"
    using assms by (simp_all add: w0_def)
  have body: "attempt (ur_GetByID base i) fail (\<lambda>u. attempt (uc_SetByID cache i u)
        (\<lambda>e. perform (cache_warning store errv ''user cache write failed'' i e) (return u)) (\<lambda>_. return u)) w0 = (r, w')"
    using assms(1) by (simp add: load_through_def parts w0_def)
  from body show ?thesis
  proof (cases rule: attempt_cases)
    case (err e w1)
    then have "coherent w1"
      using coherent_mono [OF w0(2) cached_GetByID [OF err(1)]] base.GetByID_frame [OF w0(1) err(1)] by simp
    then show ?thesis
      using err(2) base.GetByID_frame [OF w0(1) err(1)] w0 by auto
  next
    case (ok u w1)
    note frame = base.GetByID_frame [OF w0(1) ok(1)]
    have co: "coherent w1"
      using coherent_mono [OF w0(2) cached_GetByID [OF ok(1)]] frame by simp
    have u: "u \<in> accounts w1" "ID u = i"
      using base.GetByID_ok [OF w0(1) ok(1)] frame by auto
    from ok(2) show ?thesis
    proof (cases rule: attempt_cases)
      case (err e w2)
      then show ?thesis
        using Set_coherent [OF err(1) _ co u] frame w0 u by (auto simp: coherent_def)
    next
      case (ok v w2)
      then show ?thesis
        using Set_coherent [OF ok(1) _ co u] frame w0 u by auto
    qed
  qed
qed

lemma GetByID_ok:
  assumes "CachedUserStore_GetByID store errv i w = (r, w')" "ok w" "coherent w"
  shows "ok w' \<and> coherent w' \<and> accounts w' = accounts w \<and> links w' = links w \<and> (\<forall>u. r = Inr u \<longrightarrow> u \<in> accounts w \<and> ID u = i)"
proof -
  define w0 where "w0 = cus_tracer store (SpanStart SpanInternal ''repository'' ''cached_user_store.get_by_id''
      (FromPairs [AString ''user.id'', AInt64 i])) w"
  have w0: "ok w0" "coherent w0" "accounts w0 = accounts w" "links w0 = links w"
    using assms by (simp_all add: w0_def)
  obtain w1 where body: "attempt (uc_GetByID cache i)
        (\<lambda>e. perform (cache_warning store errv ''user cache read failed'' i e) (load_through store errv i))
        (\<lambda>found. case found of
             Some u \<Rightarrow> perform (cus_tracer store (SpanAttributes (FromPairs [AString ''cache'', AString ''hit'']))) (return u)
           | None \<Rightarrow> load_through store errv i) w0 = (r, w1)"
    and w1: "ok w' = ok w1" "coherent w' = coherent w1" "accounts w' = accounts w1" "links w' = links w1"
    using assms(1) unfolding CachedUserStore_GetByID_def with_span_eq parts w0_def [symmetric] by auto
  from body have "ok w1 \<and> coherent w1 \<and> accounts w1 = accounts w0 \<and> links w1 = links w0 \<and> (\<forall>u. r = Inr u \<longrightarrow> u \<in> accounts w0 \<and> ID u = i)"
  proof (cases rule: attempt_cases)
    case (err e w2)
    have w2: "ok w2" "coherent w2" "accounts w2 = accounts w0" "links w2 = links w0"
      using cache_Get [OF err(1)] w0 coherent_mono [OF w0(2) cache.Get_frame [OF err(1)]] by simp_all
    then show ?thesis
      using load_through_ok [OF err(2) [unfolded perform_apply]] by simp
  next
    case (ok found w2)
    have w2: "ok w2" "coherent w2" "accounts w2 = accounts w0" "links w2 = links w0"
      using cache_Get [OF ok(1)] w0 coherent_mono [OF w0(2) cache.Get_frame [OF ok(1)]] by simp_all
    show ?thesis
    proof (cases found)
      case None
      then show ?thesis
        using load_through_ok [of i w2 r w1] ok(2) w2 by simp
    next
      case (Some u)
      then have "u \<in> accounts w0" "ID u = i"
        using cache.Get_hit [of i w0 u w2] ok(1) w0(2) by (simp_all add: coherent_def)
      moreover have "Inr u = r \<and> cus_tracer store (SpanAttributes (FromPairs [AString ''cache'', AString ''hit''])) w2 = w1"
        using Some ok(2) by simp
      then have "r = Inr u" "w1 = cus_tracer store (SpanAttributes (FromPairs [AString ''cache'', AString ''hit''])) w2"
        by simp_all
      ultimately show ?thesis
        using w2 by simp
    qed
  qed
  then show ?thesis
    using w0 w1 by simp
qed

lemma Upsert_coherent:
  assumes "CachedUserStore_UpsertOAuthUser store errv info w = (r, w')" "ok w" "coherent w"
  obtains w1 where "ur_UpsertOAuthUser base info w = (r, w1)" "ok w'" "coherent w'" "accounts w' = accounts w1" "links w' = links w1"
proof -
  have co: "ok w1" "coherent w1" if "ur_UpsertOAuthUser base info w = (q, w1)" for q w1
    using base.Upsert_frame [OF assms(2) that] coherent_mono [OF assms(3) cached_Upsert [OF that]] by simp_all
  from assms(1) show thesis
    unfolding CachedUserStore_UpsertOAuthUser_def parts
  proof (cases rule: attempt_cases)
    case (err e w1)
    then show thesis
      using that [of w1] co [OF err(1)] by auto
  next
    case (ok u w1)
    note upsert = ok(1)
    from ok(2) show thesis
    proof (cases rule: attempt_cases)
      case (err e w2)
      have "r = Inr u" "w' = cache_warning store errv ''user cache invalidation failed'' (ID u) e w2"
        using err(2) by auto
      then show thesis
        using that [of w1] upsert Delete_coherent [OF err(1) co [OF upsert]] by simp
    next
      case (ok v w2)
      have "r = Inr u" "w' = w2"
        using ok(2) by auto
      then show thesis
        using that [of w1] upsert Delete_coherent [OF ok(1) co [OF upsert]] by simp
    qed
  qed
qed

end

sublocale cached_users \<subseteq> users: user_repository "CachedUserStore store errv" "\<lambda>w. ok w \<and> coherent w" accounts links
proof
  fix w w' e x i r info and u v :: user
  assume inv: "ok w \<and> coherent w"
  then have ok: "ok w" and co: "coherent w"
    by simp_all
  note defs = CachedUserStore_def user_repo.simps parts
  show "u = v" if "u \<in> accounts w" "v \<in> accounts w" "ID u = ID v \<or> Email u = Email v"
    using that ok by (rule base.unique [rotated])
  show "u \<in> accounts w \<and> Email u = e" if "ur_GetByEmail (CachedUserStore store errv) e w = (Inr u, w')"
    using that ok unfolding defs by (intro base.GetByEmail_ok)
  show "Email u \<noteq> e" if "ur_GetByEmail (CachedUserStore store errv) e w = (Inl x, w')" "errors_Is x ErrNotFound" "u \<in> accounts w"
    using that ok unfolding defs by (intro base.GetByEmail_absent)
  show "(ok w' \<and> coherent w') \<and> accounts w' = accounts w \<and> links w' = links w"
    if "ur_GetByEmail (CachedUserStore store errv) e w = (r, w')"
    using base.GetByEmail_frame [OF ok] cached_GetByEmail coherent_mono [OF co] that unfolding defs by (metis order_refl)
  show "u \<in> accounts w \<and> ID u = i" if "ur_GetByID (CachedUserStore store errv) i w = (Inr u, w')"
    using GetByID_ok [OF _ ok co] that unfolding defs by blast
  show "(ok w' \<and> coherent w') \<and> accounts w' = accounts w \<and> links w' = links w"
    if "ur_GetByID (CachedUserStore store errv) i w = (r, w')"
    using GetByID_ok [OF _ ok co] that unfolding defs by blast
  show "accounts w' = insert u (accounts w) \<and> CanAuthenticate u \<and> ID u \<notin> ID ` accounts w \<and>
      Email u \<notin> Email ` accounts w \<and> (length e \<le> 320 \<longrightarrow> Email u = e)"
    if "ur_CreateByEmail (CachedUserStore store errv) e w = (Inr u, w')"
    using that ok unfolding defs by (intro base.Create_ok)
  show "accounts w' = accounts w \<and> (length e \<le> 320 \<longrightarrow> e \<in> Email ` accounts w)"
    if "ur_CreateByEmail (CachedUserStore store errv) e w = (Inl x, w')" "errors_Is x ErrDuplicateKey"
    using that ok unfolding defs by (intro base.Create_duplicate)
  show "(ok w' \<and> coherent w') \<and> links w' = links w \<and> accounts w \<subseteq> accounts w'"
    if "ur_CreateByEmail (CachedUserStore store errv) e w = (r, w')"
    using base.Create_frame [OF ok] cached_Create coherent_mono [OF co] that unfolding defs by metis
  show "u \<in> accounts w' \<and> accounts w' \<subseteq> insert u (accounts w)"
    if "ur_UpsertOAuthUser (CachedUserStore store errv) info w = (Inr u, w')"
    using Upsert_coherent [OF _ ok co] base.Upsert_ok [OF ok] that unfolding defs by metis
  show "ID u = i \<and> accounts w' = accounts w"
    if "ur_UpsertOAuthUser (CachedUserStore store errv) info w = (Inr u, w')" "links w (Provider info, ProviderUserID info) = Some i"
    using Upsert_coherent [OF _ ok co] base.Upsert_known [OF ok] that unfolding defs by metis
  show "links w' (Provider info, ProviderUserID info) = Some (ID u)"
    if "ur_UpsertOAuthUser (CachedUserStore store errv) info w = (Inr u, w')" "length (Provider info) \<le> 32" "length (ProviderUserID info) \<le> 255"
    using Upsert_coherent [OF _ ok co] base.Upsert_link [OF ok] that unfolding defs by metis
  show "(ok w' \<and> coherent w') \<and> accounts w \<subseteq> accounts w' \<and> links w \<subseteq>\<^sub>m links w'"
    if "ur_UpsertOAuthUser (CachedUserStore store errv) info w = (r, w')"
    using Upsert_coherent [OF _ ok co] base.Upsert_frame [OF ok] that unfolding defs by metis
qed

section \<open>The wired repository\<close>

text \<open>The repository of \<^verbatim>\<open>buildRepositories\<close>: the PostgreSQL store behind the Redis cache.\<close>

definition wired_users :: "'s redis \<Rightarrow> duration \<Rightarrow> 's world sink \<Rightarrow> 's world sink \<Rightarrow> 's world cached_user_store" where
  "wired_users R cacheTTL lg tr = NewCachedUserStore (Some lg) (Some tr) (UserStore tr) (UserCacheStore R cacheTTL)"

lemma redis_op_db:
  "redis_Get R k w = (x, w') \<Longrightarrow> db w' = db w"
  "redis_Set R k v ttl w = (y, w') \<Longrightarrow> db w' = db w"
  "redis_Del R k w = (y, w') \<Longrightarrow> db w' = db w"
  by (auto simp: redis_Get_def redis_Set_def redis_Del_def dest: redis_call_others)

lemma user_cache_db:
  "UserCacheStore_GetByID R i w = (x, w') \<Longrightarrow> db w' = db w"
  "UserCacheStore_SetByID R cacheTTL i u w = (y, w') \<Longrightarrow> db w' = db w"
  "UserCacheStore_DeleteByID R i w = (y, w') \<Longrightarrow> db w' = db w"
  by (auto simp: UserCacheStore_GetByID_def UserCacheStore_SetByID_def UserCacheStore_DeleteByID_def Let_def marshal_user_def
      dest: redis_op_db elim!: attempt_cases split: if_splits sum.splits)

lemma kept_user_same: "kept_user u = Some v \<Longrightarrow> v = u"
  by (auto simp: kept_user_def marshal_user_def unmarshal_user_def parse_print_object json_field_simps split: if_splits)

locale wired_user_store = redis_spec R view clock tick + user_store tr
  for R :: "'s redis" and view clock tick and tr :: "'s world sink" +
  fixes lg :: "'s world sink" and cacheTTL :: duration and errv :: "error \<Rightarrow> any"
  assumes quiet_log: "quiet lg"
begin

lemma user_view_sink: "quiet sk \<Longrightarrow> user_view view (sk ev w) = user_view view w \<and> db (sk ev w) = db w"
  using user_view_kv [of "sk ev w" w] quiet_apply [of sk ev w] by simp

lemma store_kv:
  "UserStore_GetByEmail tr e w = (r, w') \<Longrightarrow> kv w' = kv w"
  "UserStore_GetByID tr i w = (r, w') \<Longrightarrow> kv w' = kv w"
  "UserStore_CreateByEmail tr e w = (r, w') \<Longrightarrow> kv w' = kv w"
  "UserStore_UpsertOAuthUser tr info w = (r, w') \<Longrightarrow> kv w' = kv w"
  unfolding UserStore_GetByEmail_def UserStore_GetByID_def UserStore_CreateByEmail_def UserStore_UpsertOAuthUser_def
  using quiet by (auto elim: store_call_cases)

end

sublocale wired_user_store \<subseteq> wired: cached_users "UserStore tr" "\<lambda>w. db_ok (db w)" "\<lambda>w. accounts_of (db w)" "\<lambda>w. link (db w)"
    "UserCacheStore R cacheTTL" "user_view view" cacheable_user kept_user "wired_users R cacheTTL lg tr" errv
proof unfold_locales
  fix w w' :: "'s world" and e i info ev sk and r :: "error + user" and r1 :: "error + user option" and r2 :: "error + unit" and u v
  show "cus_base (wired_users R cacheTTL lg tr) = UserStore tr" "cus_cache (wired_users R cacheTTL lg tr) = UserCacheStore R cacheTTL"
    by (simp_all add: wired_users_def NewCachedUserStore_def)
  show "v = u" if "kept_user u = Some v"
    using that by (rule kept_user_same)
  show "user_view view w' = user_view view w" if "ur_GetByEmail (UserStore tr) e w = (r, w')"
    using that unfolding UserStore_def user_repo.simps by (intro user_view_kv store_kv(1))
  show "user_view view w' = user_view view w" if "ur_GetByID (UserStore tr) i w = (r, w')"
    using that unfolding UserStore_def user_repo.simps by (intro user_view_kv store_kv(2))
  show "user_view view w' = user_view view w" if "ur_CreateByEmail (UserStore tr) e w = (r, w')"
    using that unfolding UserStore_def user_repo.simps by (intro user_view_kv store_kv(3))
  show "user_view view w' = user_view view w" if "ur_UpsertOAuthUser (UserStore tr) info w = (r, w')"
    using that unfolding UserStore_def user_repo.simps by (intro user_view_kv store_kv(4))
  show "(db_ok (db w'), accounts_of (db w'), link (db w')) = (db_ok (db w), accounts_of (db w), link (db w))"
    if "uc_GetByID (UserCacheStore R cacheTTL) i w = (r1, w')"
    using user_cache_db(1) [of R] that unfolding UserCacheStore_def user_cache_repo.simps by metis
  show "(db_ok (db w'), accounts_of (db w'), link (db w')) = (db_ok (db w), accounts_of (db w), link (db w))"
    if "uc_SetByID (UserCacheStore R cacheTTL) i u w = (r2, w')"
    using user_cache_db(2) [of R] that unfolding UserCacheStore_def user_cache_repo.simps by metis
  show "(db_ok (db w'), accounts_of (db w'), link (db w')) = (db_ok (db w), accounts_of (db w), link (db w))"
    if "uc_DeleteByID (UserCacheStore R cacheTTL) i w = (r2, w')"
    using user_cache_db(3) [of R] that unfolding UserCacheStore_def user_cache_repo.simps by metis
  show "(db_ok (db (sk ev w)), accounts_of (db (sk ev w)), link (db (sk ev w)), user_view view (sk ev w))
      = (db_ok (db w), accounts_of (db w), link (db w), user_view view w)"
    if "sk = cus_log (wired_users R cacheTTL lg tr) \<or> sk = cus_tracer (wired_users R cacheTTL lg tr)"
    using that user_view_sink [of sk ev w] quiet quiet_log by (auto simp: wired_users_def NewCachedUserStore_def or_noop_def)
qed

interpretation ks_users: wired_user_store keyspace_redis ks_view ks_clock ks_tick trace_sink trace_sink cacheTTL errv for cacheTTL errv
  by unfold_locales simp_all

section \<open>Histories\<close>

text \<open>Any sequence of calls on a user repository, the results ignored.\<close>

datatype repo_op = OpGetByEmail string | OpGetByID int | OpCreate string | OpUpsert oauth_user_upsert

fun repo_step :: "'w user_repo \<Rightarrow> repo_op \<Rightarrow> 'w \<Rightarrow> 'w" where
  "repo_step repo (OpGetByEmail e) w = snd (ur_GetByEmail repo e w)"
| "repo_step repo (OpGetByID i) w = snd (ur_GetByID repo i w)"
| "repo_step repo (OpCreate e) w = snd (ur_CreateByEmail repo e w)"
| "repo_step repo (OpUpsert info) w = snd (ur_UpsertOAuthUser repo info w)"

context user_repository
begin

lemma repo_step_grows:
  assumes "ok w"
  shows "ok (repo_step repo op w) \<and> accounts w \<subseteq> accounts (repo_step repo op w) \<and> links w \<subseteq>\<^sub>m links (repo_step repo op w)"
proof (cases op)
  case (OpGetByEmail e)
  then show ?thesis
    using GetByEmail_frame [OF assms, of e "fst (ur_GetByEmail repo e w)" "snd (ur_GetByEmail repo e w)"] by simp
next
  case (OpGetByID i)
  then show ?thesis
    using GetByID_frame [OF assms, of i "fst (ur_GetByID repo i w)" "snd (ur_GetByID repo i w)"] by simp
next
  case (OpCreate e)
  then show ?thesis
    using Create_frame [OF assms, of e "fst (ur_CreateByEmail repo e w)" "snd (ur_CreateByEmail repo e w)"] by simp
next
  case (OpUpsert info)
  then show ?thesis
    using Upsert_frame [OF assms, of info "fst (ur_UpsertOAuthUser repo info w)" "snd (ur_UpsertOAuthUser repo info w)"] by simp
qed

lemma repo_run_grows:
  "ok w \<Longrightarrow> ok (fold (repo_step repo) ops w) \<and> accounts w \<subseteq> accounts (fold (repo_step repo) ops w) \<and>
     links w \<subseteq>\<^sub>m links (fold (repo_step repo) ops w)"
proof (induction ops arbitrary: w)
  case (Cons op ops)
  then show ?case
    using Cons.IH [of "repo_step repo op w"] repo_step_grows [OF Cons.prems, of op] by (auto intro: map_le_trans)
qed simp

end

text \<open>The tables keep the constraints of the schema and every cached user is the user on record.\<close>

definition consistent_users :: "('s \<Rightarrow> string \<Rightarrow> (rvalue \<times> int option) option) \<Rightarrow> 's world \<Rightarrow> bool" where
  "consistent_users view w \<longleftrightarrow> db_ok (db w) \<and> (\<forall>i u. user_view view w i = Some u \<longrightarrow> u \<in> accounts_of (db w) \<and> ID u = i)"

context wired_user_store
begin

lemma consistent_coherent: "consistent_users view w \<longleftrightarrow> db_ok (db w) \<and> wired.coherent w"
  by (simp add: consistent_users_def wired.coherent_def)

lemma subject_stable:
  assumes "consistent_users view w" "ur_UpsertOAuthUser (CachedUserStore (wired_users R cacheTTL lg tr) errv) info w = (Inr u, w1)"
    and "length (Provider info) \<le> 32" "length (ProviderUserID info) \<le> 255"
    and "ur_UpsertOAuthUser (CachedUserStore (wired_users R cacheTTL lg tr) errv) (info\<lparr>Upsert_Email := email\<rparr>)
           (fold (repo_step (CachedUserStore (wired_users R cacheTTL lg tr) errv)) ops w1) = (Inr v, w2)"
  shows "ID v = ID u"
proof -
  have ok: "db_ok (db w) \<and> wired.coherent w"
    using assms(1) by (simp add: consistent_coherent)
  have w1: "db_ok (db w1) \<and> wired.coherent w1"
    using wired.users.Upsert_frame [OF ok assms(2)] by simp
  show ?thesis
    using wired.users.Upsert_stable [OF ok assms(2-4) _ _ assms(5)] wired.users.repo_run_grows [OF w1, of ops] by simp
qed

lemma run_consistent:
  assumes "consistent_users view w"
  shows "consistent_users view (fold (repo_step (CachedUserStore (wired_users R cacheTTL lg tr) errv)) ops w)"
  using wired.users.repo_run_grows [of w ops] assms by (simp add: consistent_coherent)

lemma read_through:
  assumes "consistent_users view w" "ur_GetByID (CachedUserStore (wired_users R cacheTTL lg tr) errv) i w = (Inr u, w')"
  shows "u \<in> accounts_of (db w) \<and> ID u = i"
  using wired.users.GetByID_ok [OF _ assms(2)] assms(1) by (simp add: consistent_coherent)

end

lemma wired_user_storeI:
  assumes "redis_spec R view clock tick" "quiet tr" "quiet lg"
  shows "wired_user_store R view clock tick tr lg"
  using assms by (intro wired_user_store.intro user_store.intro wired_user_store_axioms.intro)

section \<open>Properties\<close>

text \<open>
  (C7) A provider's subject keeps logging in the user it was first linked to: between two logins any
  calls may be made on the repository, any of them may fail or lose its reply, and the provider may
  report another address.
\<close>

theorem oauth_subject_stable:
  assumes "redis_spec R view clock tick" "quiet tr" "quiet lg" "consistent_users view w"
    and "CachedUserStore_UpsertOAuthUser (wired_users R cacheTTL lg tr) errv info w = (Inr u, w1)"
    and "length (Provider info) \<le> 32" "length (ProviderUserID info) \<le> 255"
    and "CachedUserStore_UpsertOAuthUser (wired_users R cacheTTL lg tr) errv (info\<lparr>Upsert_Email := email\<rparr>)
           (fold (repo_step (CachedUserStore (wired_users R cacheTTL lg tr) errv)) ops w1) = (Inr v, w2)"
  shows "ID v = ID u"
  using wired_user_store.subject_stable [OF wired_user_storeI [OF assms(1-3)], of w cacheTTL errv info u w1 email ops v w2] assms(4-)
  by (simp add: CachedUserStore_def)

lemma consistent_start [simp]: "consistent_users ks_view (start_world \<lparr>ks_clock = 0, ks_data = (\<lambda>_. None)\<rparr> bs)"
  by (simp add: consistent_users_def start_world_def db_ok_def user_view_def string_at_def ks_view_def)

definition google_login :: "string \<Rightarrow> oauth_user_upsert" where
  "google_login email = \<lparr>Provider = ''google'', ProviderUserID = ''1001'', Upsert_Email = email\<rparr>"

lemmas run_user_repo = wired_users_def NewCachedUserStore_def or_noop_def CachedUserStore_def CachedUserStore_UpsertOAuthUser_def
  UserStore_def UserStore_UpsertOAuthUser_def UserCacheStore_def UserCacheStore_DeleteByID_def with_span_def finally_do_def
  attempt_def db_call_def next_delivery_def UpsertOAuthConnection_def existing_def insert_or_touch_def varchar_def new_user_def
  ensure_connection_def trace_sink_def user_of_row_def redis_Del_def redis_call_def start_world_def keyspace_redis_def

theorem oauth_subject_stable_witness:
  "\<exists>u v w1 w2. CachedUserStore_UpsertOAuthUser (wired_users keyspace_redis Second trace_sink trace_sink) (\<lambda>_. AOther [])
        (google_login ''a@b.c'') (start_world \<lparr>ks_clock = 0, ks_data = (\<lambda>_. None)\<rparr> []) = (Inr u, w1) \<and>
     CachedUserStore_UpsertOAuthUser (wired_users keyspace_redis Second trace_sink trace_sink) (\<lambda>_. AOther [])
        (google_login ''x@y.z'') w1 = (Inr v, w2) \<and> ID v = ID u"
proof -
  let ?f = "CachedUserStore_UpsertOAuthUser (wired_users keyspace_redis Second trace_sink trace_sink) (\<lambda>_. AOther [])"
  let ?w = "start_world \<lparr>ks_clock = 0, ks_data = (\<lambda>_. None)\<rparr> []"
  obtain u w1 v w2 where runs: "?f (google_login ''a@b.c'') ?w = (Inr u, w1)" "?f (google_login ''x@y.z'') w1 = (Inr v, w2)"
    by (simp add: run_user_repo google_login_def Let_def)
  have "ID v = ID u"
    using oauth_subject_stable [OF ks.redis_spec_axioms quiet_trace_sink quiet_trace_sink consistent_start runs(1), of "''x@y.z''" "[]" v w2] runs(2)
    by (simp add: google_login_def)
  with runs show ?thesis
    by blast
qed

text \<open>
  (C8) Whatever calls are made on the wired user repository, and whichever of them fail or lose
  their replies, the tables keep their constraints (no two users share an identifier or an address, no
  two links a subject, every link leads to a user) and every cached user is the user on record.
\<close>

theorem user_data_consistent:
  assumes "redis_spec R view clock tick" "quiet tr" "quiet lg" "consistent_users view w"
  shows "consistent_users view (fold (repo_step (CachedUserStore (wired_users R cacheTTL lg tr) errv)) ops w)"
  using wired_user_store.run_consistent [OF wired_user_storeI [OF assms(1-3)] assms(4)] .

theorem user_data_consistent_witness:
  "consistent_users ks_view (fold (repo_step (CachedUserStore (wired_users keyspace_redis Second trace_sink trace_sink) (\<lambda>_. AOther [])))
     [OpCreate ''a@b.c'', OpUpsert (google_login ''a@b.c''), OpGetByID 1] (start_world \<lparr>ks_clock = 0, ks_data = (\<lambda>_. None)\<rparr> []))"
  by (rule user_data_consistent [OF ks.redis_spec_axioms quiet_trace_sink quiet_trace_sink consistent_start])

text \<open>
  (C9) A read by identifier through the cache returns the user that the tables hold under that
  identifier at that moment.
\<close>

theorem cached_read_current:
  assumes "redis_spec R view clock tick" "quiet tr" "quiet lg" "consistent_users view w"
    and "CachedUserStore_GetByID (wired_users R cacheTTL lg tr) errv i w = (Inr u, w')"
  shows "\<exists>row\<in>set (users (db w)). u = user_of_row row \<and> u_id row = i"
proof -
  have "u \<in> accounts_of (db w) \<and> ID u = i"
    using wired_user_store.read_through [OF wired_user_storeI [OF assms(1-3)], of w cacheTTL errv i u w'] assms(4,5)
    by (simp add: CachedUserStore_def)
  then show ?thesis
    by (auto simp: accounts_of_def)
qed

definition one_user :: "keyspace world" where
  "one_user = start_world \<lparr>ks_clock = 0, ks_data = (\<lambda>_. None)\<rparr> []
     \<lparr>db := \<lparr>users = [\<lparr>u_id = 1, u_email = ''a@b.c'', u_status = StatusActive\<rparr>], connections = [], next_id = 2\<rparr>\<rparr>"

lemma consistent_one_user: "consistent_users ks_view one_user"
  by (simp add: one_user_def consistent_users_def start_world_def db_ok_def user_view_def string_at_def ks_view_def)

theorem cached_read_current_witness:
  "\<exists>u w'. CachedUserStore_GetByID (wired_users keyspace_redis Second trace_sink trace_sink) (\<lambda>_. AOther []) 1 one_user = (Inr u, w') \<and>
     (\<exists>row\<in>set (users (db one_user)). u = user_of_row row \<and> u_id row = 1)"
proof -
  let ?f = "CachedUserStore_GetByID (wired_users keyspace_redis Second trace_sink trace_sink) (\<lambda>_. AOther [])"
  obtain u w' where run: "?f 1 one_user = (Inr u, w')"
    by (simp add: run_user_repo one_user_def Let_def CachedUserStore_GetByID_def UserCacheStore_GetByID_def load_through_def
        UserStore_GetByID_def UserCacheStore_SetByID_def GetUserByID_def redis_Get_def redis_Set_def ks_view_def marshal_user_def)
  show ?thesis
    using cached_read_current [OF ks.redis_spec_axioms quiet_trace_sink quiet_trace_sink consistent_one_user run] run by blast
qed

end
