(* ===== verification/Auth_OTP.thy ===== *)
theory Auth_OTP
  imports Auth_Session User_Repo
begin

text \<open>
  \<^verbatim>\<open>internal/usecase/auth/otp\<close>: sending and verifying one-time passwords, with the senders of
  \<^verbatim>\<open>internal/infra/external/otp\<close>. The results: a code is a decimal string of the configured
  length; every code sent to an address can be used at most once, whatever calls are lost; a
  verification that succeeds returns an active user of that address.
\<close>

section \<open>Codes\<close>

definition pad_zeros :: "nat \<Rightarrow> string \<Rightarrow> string" where
  "pad_zeros n s = replicate (n - length s) (CHR ''0'') @ s"

text \<open>\<^verbatim>\<open>big.Int.Exp\<close> with a non-positive exponent is 1.\<close>

definition generateNumericCode :: "'w host \<Rightarrow> int \<Rightarrow> ('w, string) eff" where
  "generateNumericCode h len =
     attempt (Rand_Int h (10 ^ nat len)) (\<lambda>e. fail (Errorf ''crypto/rand'' e))
       (\<lambda>n. return (pad_zeros (nat len) (nat_digits n)))"

definition hashCode :: "'w host \<Rightarrow> string \<Rightarrow> string" where
  "hashCode h code = EncodeToString (Sum256 h code)"

section \<open>Senders\<close>

record 'w email_sender =
  SendOTP :: "string \<Rightarrow> string \<Rightarrow> ('w, unit) eff"

definition StubSender_SendOTP :: "'w sink \<Rightarrow> string \<Rightarrow> string \<Rightarrow> ('w, unit) eff" where
  "StubSender_SendOTP lg email code =
     perform (Info lg ''stub email: OTP code generated'' (FromPairs [AString ''email'', AString email, AString ''otp_code'', AString code]))
       (return ())"

text \<open>\<^verbatim>\<open>html.EscapeString\<close>\<close>

definition EscapeString :: "string \<Rightarrow> string" where
  "EscapeString s = concat (map (\<lambda>c.
     if c = CHR ''&'' then ''&amp;'' else if c = CHR ''<'' then ''&lt;'' else if c = CHR ''>'' then ''&gt;''
     else if c = CHR 0x22 then ''&#34;'' else if c = CHR 0x27 then ''&#39;'' else [c]) s)"

text \<open>\<open>send\<close> is the call of the Resend client with sender, recipient, subject and body.\<close>

definition ResendSender_SendOTP :: "(string \<Rightarrow> string \<Rightarrow> string \<Rightarrow> string \<Rightarrow> ('w, unit) eff) \<Rightarrow> string \<Rightarrow> string \<Rightarrow> string \<Rightarrow> ('w, unit) eff" where
  "ResendSender_SendOTP send from email code =
     attempt (send from email ''Your verification code''
                (''<p>Your verification code is: <strong>'' @ EscapeString code @ ''</strong></p>''))
       (\<lambda>e. fail (Errorf ''send otp'' e)) return"

section \<open>The authenticator\<close>

record 'w otp_authenticator =
  oa_log :: "'w sink"
  oa_tracer :: "'w sink"
  oa_meter :: "'w sink"
  oa_otpRepo :: "'w otp_repo"
  oa_emailSender :: "'w email_sender"
  oa_userRepo :: "'w user_repo"
  oa_codeLength :: int
  oa_ttl :: duration

record otp_config =
  CodeLength :: int
  OTP_TTL :: duration

definition NewOTPAuthenticator :: "'w sink option \<Rightarrow> 'w sink option \<Rightarrow> 'w sink option \<Rightarrow> 'w otp_repo \<Rightarrow> 'w email_sender \<Rightarrow> 'w user_repo \<Rightarrow>
    otp_config \<Rightarrow> 'w otp_authenticator" where
  "NewOTPAuthenticator lg tr mt otpRepo sender userRepo cfg =
     \<lparr>oa_log = or_noop lg, oa_tracer = or_noop tr, oa_meter = or_noop mt, oa_otpRepo = otpRepo, oa_emailSender = sender,
      oa_userRepo = userRepo,
      oa_codeLength = (if CodeLength cfg \<le> 0 then 6 else CodeLength cfg),
      oa_ttl = (if OTP_TTL cfg \<le> 0 then 5 * Minute else OTP_TTL cfg)\<rparr>"

text \<open>The deferred function of both methods: count the outcome, then close the span.\<close>

definition otp_outcome :: "'w otp_authenticator \<Rightarrow> string \<Rightarrow> error option \<Rightarrow> 'w \<Rightarrow> 'w" where
  "otp_outcome a counter e = oa_meter a (CounterAdd counter 1 (FromPairs [AString ''outcome'', AString (outcome_of e)]))"

definition SendCode :: "'w host \<Rightarrow> 'w otp_authenticator \<Rightarrow> (error \<Rightarrow> any) \<Rightarrow> string \<Rightarrow> ('w, unit) eff" where
  "SendCode h a errv email =
     with_span (oa_tracer a) ''usecase'' ''otp_authenticator.send_code'' None (otp_outcome a ''auth_otp_send_total'')
       (if email = [] then fail (New CodeInvalidArgument ''email is required'' [])
        else attempt (generateNumericCode h (oa_codeLength a)) (\<lambda>e. fail (Wrap e CodeInternal ''generate otp code'' []))
          (\<lambda>code. attempt (otp_Store (oa_otpRepo a) email (hashCode h code) (oa_ttl a))
             (\<lambda>e. fail (Wrap e CodeInternal ''store otp code'' []))
             (\<lambda>_. attempt (SendOTP (oa_emailSender a) email code)
                (\<lambda>e. attempt (otp_Delete (oa_otpRepo a) email)
                   (\<lambda>de. perform (Warn (oa_log a) ''otp cleanup after email failure failed''
                                    (FromPairs [AString ''email'', AString email, AString ''error'', errv de]))
                            (fail (Wrap e CodeInternal ''send otp email'' [])))
                   (\<lambda>_. fail (Wrap e CodeInternal ''send otp email'' [])))
                return)))"

definition find_or_create :: "'w otp_authenticator \<Rightarrow> string \<Rightarrow> ('w, user) eff" where
  "find_or_create a email =
     attempt (ur_GetByEmail (oa_userRepo a) email)
       (\<lambda>e. if \<not> errors_Is e ErrNotFound then fail (Wrap e CodeInternal ''find user'' [])
             else attempt (ur_CreateByEmail (oa_userRepo a) email)
               (\<lambda>ce. if errors_Is ce ErrDuplicateKey then fail (New CodeConflict ''email already registered'' [])
                      else if errors_Is ce ContextDeadlineExceeded then fail (Wrap ce CodeTimeout ''create user timed out'' [])
                      else fail (Wrap ce CodeInternal ''find or create user'' []))
               return)
       return"

definition VerifyCode :: "'w host \<Rightarrow> 'w otp_authenticator \<Rightarrow> string \<Rightarrow> string \<Rightarrow> ('w, auth_identity) eff" where
  "VerifyCode h a email code =
     with_span (oa_tracer a) ''usecase'' ''otp_authenticator.verify_code'' None (otp_outcome a ''auth_otp_verify_total'')
       (if email = [] \<or> code = [] then fail (New CodeInvalidArgument ''email and code are required'' [])
        else attempt (otp_Consume (oa_otpRepo a) email (hashCode h code))
          (\<lambda>e. if \<not> errors_Is e ErrOTPNotFound then fail (Wrap e CodeInternal ''consume otp code'' [])
                else fail (New CodeUnauthorized ''invalid or expired otp code'' []))
          (\<lambda>matched. if \<not> matched then fail (New CodeUnauthorized ''invalid otp code'' [])
             else attempt (find_or_create a email) fail
               (\<lambda>u. if \<not> CanAuthenticate u then fail (New CodeForbidden ''user account cannot authenticate'' [])
                     else return \<lparr>ai_UserID = ID u, ai_Email = Email u, ai_Method = MethodOTP\<rparr>)))"

section \<open>Histories\<close>

text \<open>Calls of the two methods for any addresses, and time passing; the number of verifications that succeed for one address.\<close>

datatype otp_op = Op_Send string | Op_Verify string string | Op_Pass nat

fun otp_run :: "'w host \<Rightarrow> 'w otp_authenticator \<Rightarrow> (error \<Rightarrow> any) \<Rightarrow> (nat \<Rightarrow> 'w \<Rightarrow> 'w) \<Rightarrow> string \<Rightarrow> otp_op list \<Rightarrow> 'w \<Rightarrow> nat" where
  "otp_run h a errv wait email [] w = 0"
| "otp_run h a errv wait email (Op_Send e # ops) w = otp_run h a errv wait email ops (snd (SendCode h a errv e w))"
| "otp_run h a errv wait email (Op_Verify e c # ops) w =
     (case VerifyCode h a e c w of (r, w') \<Rightarrow>
        (if e = email \<and> is_ok r then 1 else 0) + otp_run h a errv wait email ops w')"
| "otp_run h a errv wait email (Op_Pass d # ops) w = otp_run h a errv wait email ops (wait d w)"

section \<open>What the authenticator guarantees\<close>

locale otp_authentication = otp: otp_repository "oa_otpRepo a" otps + users: user_repository "oa_userRepo a" ok accounts links
  for a :: "'w otp_authenticator" and otps :: "'w \<Rightarrow> string \<Rightarrow> string option" and ok accounts links +
  fixes h :: "'w host" and errv :: "error \<Rightarrow> any"
  assumes sinks: "sk \<in> {oa_log a, oa_tracer a, oa_meter a} \<Longrightarrow> otps (sk ev w) = otps w \<and> ok (sk ev w) = ok w \<and> accounts (sk ev w) = accounts w"
    and otp_data: "otp_Consume (oa_otpRepo a) e c w = (rb, w') \<Longrightarrow> ok w' = ok w \<and> accounts w' = accounts w"
    and email_otps: "ur_GetByEmail (oa_userRepo a) e w = (ru, w') \<Longrightarrow> otps w' = otps w"
    and create_otps: "ur_CreateByEmail (oa_userRepo a) e w = (ru, w') \<Longrightarrow> otps w' = otps w"
    and random_otps: "Rand_Int h n w = (rn, w') \<Longrightarrow> otps w' = otps w"
    and mail_otps: "SendOTP (oa_emailSender a) e c w = (rv, w') \<Longrightarrow> otps w' = otps w"
begin

lemma sink_simps [simp]:
  "otps (oa_log a ev w) = otps w" "otps (oa_tracer a ev w) = otps w" "otps (oa_meter a ev w) = otps w"
  "ok (oa_log a ev w) = ok w" "ok (oa_tracer a ev w) = ok w" "ok (oa_meter a ev w) = ok w"
  "accounts (oa_log a ev w) = accounts w" "accounts (oa_tracer a ev w) = accounts w" "accounts (oa_meter a ev w) = accounts w"
  using sinks by blast+

lemma outcome_simps [simp]:
  "otps (otp_outcome a c e w) = otps w" "ok (otp_outcome a c e w) = ok w" "accounts (otp_outcome a c e w) = accounts w"
  by (simp_all add: otp_outcome_def)

lemma find_or_create_otps: "find_or_create a e w = (r, w') \<Longrightarrow> otps w' = otps w"
  unfolding find_or_create_def by (auto dest!: email_otps create_otps split: if_splits elim!: attempt_cases)

lemma find_or_create_ok:
  assumes "find_or_create a e w = (Inr u, w')" "ok w" "length e \<le> 320"
  shows "ok w' \<and> u \<in> accounts w' \<and> Email u = e"
  using assms(1) unfolding find_or_create_def
proof (cases rule: attempt_cases)
  case (err x w1)
  then have "ur_CreateByEmail (oa_userRepo a) e w1 = (Inr u, w')"
    by (auto split: if_splits elim!: attempt_cases)
  then show ?thesis
    using users.GetByEmail_frame [OF assms(2) err(1)] users.Create_ok [of w1 e u w'] users.Create_frame [of w1 e "Inr u" w'] assms(3)
    by auto
next
  case (ok v w1)
  then show ?thesis
    using users.GetByEmail_frame [OF assms(2) ok(1)] users.GetByEmail_ok [OF assms(2) ok(1)] by auto
qed

text \<open>A verification either matched, and then the code is gone, or left the codes as they were, or lost its reply.\<close>

lemma VerifyCode_cases:
  assumes "VerifyCode h a e c w = (r, w')"
  obtains (matched) "otps w e = Some (hashCode h c)" "otps w' = (otps w)(e := None)"
        "\<And>i. ok w \<Longrightarrow> length e \<le> 320 \<Longrightarrow> r = Inr i \<Longrightarrow> \<exists>u\<in>accounts w'. CanAuthenticate u \<and> i = \<lparr>ai_UserID = ID u, ai_Email = e, ai_Method = MethodOTP\<rparr> \<and> Email u = e"
    | (refused) x where "r = Inl x" "otps w' = otps w \<or> otps w' = (otps w)(e := None)"
proof -
  define w0 where "w0 = oa_tracer a (SpanStart SpanInternal ''usecase'' ''otp_authenticator.verify_code'' None) w"
  have w0: "otps w0 = otps w" "ok w0 = ok w" "accounts w0 = accounts w"
    by (simp_all add: w0_def)
  let ?body = "if e = [] \<or> c = [] then fail (New CodeInvalidArgument ''email and code are required'' [])
        else attempt (otp_Consume (oa_otpRepo a) e (hashCode h c))
          (\<lambda>x. if \<not> errors_Is x ErrOTPNotFound then fail (Wrap x CodeInternal ''consume otp code'' [])
                else fail (New CodeUnauthorized ''invalid or expired otp code'' []))
          (\<lambda>matched. if \<not> matched then fail (New CodeUnauthorized ''invalid otp code'' [])
             else attempt (find_or_create a e) fail
               (\<lambda>u. if \<not> CanAuthenticate u then fail (New CodeForbidden ''user account cannot authenticate'' [])
                     else return \<lparr>ai_UserID = ID u, ai_Email = Email u, ai_Method = MethodOTP\<rparr>))"
  obtain w1 where body: "?body w0 = (r, w1)" and w': "otps w' = otps w1" "ok w' = ok w1" "accounts w' = accounts w1"
    using assms unfolding VerifyCode_def with_span_eq w0_def [symmetric] by auto
  show thesis
  proof (cases "e = [] \<or> c = []")
    case True
    then show thesis
      using body refused w' w0 by auto
  next
    case False
    then have "attempt (otp_Consume (oa_otpRepo a) e (hashCode h c))
          (\<lambda>x. if \<not> errors_Is x ErrOTPNotFound then fail (Wrap x CodeInternal ''consume otp code'' [])
                else fail (New CodeUnauthorized ''invalid or expired otp code'' []))
          (\<lambda>matched. if \<not> matched then fail (New CodeUnauthorized ''invalid otp code'' [])
             else attempt (find_or_create a e) fail
               (\<lambda>u. if \<not> CanAuthenticate u then fail (New CodeForbidden ''user account cannot authenticate'' [])
                     else return \<lparr>ai_UserID = ID u, ai_Email = Email u, ai_Method = MethodOTP\<rparr>)) w0 = (r, w1)"
      using body by (simp only: if_False)
    then show thesis
    proof (cases rule: attempt_cases)
      case (err x w2)
      then have "\<exists>y. r = Inl y" "w1 = w2"
        by (auto split: if_splits)
      then show thesis
        using refused otp.Consume_err [OF err(1)] w' w0 by auto
    next
      case (ok b w2)
      note data = otp_data [OF ok(1)]
      show thesis
      proof (cases b)
        case False
        then show thesis
          using ok otp.Consume_mismatch [of e "hashCode h c" w0 w2] refused w' w0 by auto
      next
        case True
        then have con: "otps w e = Some (hashCode h c)" "otps w2 = (otps w)(e := None)"
          using otp.Consume_match [of e "hashCode h c" w0 w2] ok(1) w0 by simp_all
        from ok(2) True have rest: "attempt (find_or_create a e) fail
               (\<lambda>u. if \<not> CanAuthenticate u then fail (New CodeForbidden ''user account cannot authenticate'' [])
                     else return \<lparr>ai_UserID = ID u, ai_Email = Email u, ai_Method = MethodOTP\<rparr>) w2 = (r, w1)"
          by simp
        then have "otps w1 = otps w2"
          by (auto dest: find_or_create_otps split: if_splits elim!: attempt_cases)
        moreover have "\<exists>u\<in>accounts w1. CanAuthenticate u \<and> i = \<lparr>ai_UserID = ID u, ai_Email = e, ai_Method = MethodOTP\<rparr> \<and> Email u = e"
          if "ok w" "length e \<le> 320" "r = Inr i" for i
          using rest
        proof (cases rule: attempt_cases)
          case (ok u w3)
          then show ?thesis
            using find_or_create_ok [OF ok(1)] that data w0 by (auto split: if_splits)
        qed (use that in simp)
        ultimately show thesis
          using matched con w' by simp
      qed
    qed
  qed
qed

lemma SendCode_others:
  assumes "SendCode h a errv e w = (r, w')" "e' \<noteq> e"
  shows "otps w' e' = otps w e'"
proof -
  define w0 where "w0 = oa_tracer a (SpanStart SpanInternal ''usecase'' ''otp_authenticator.send_code'' None) w"
  have w0: "otps w0 = otps w"
    by (simp add: w0_def)
  define send where "send code = attempt (SendOTP (oa_emailSender a) e code)
      (\<lambda>x. attempt (otp_Delete (oa_otpRepo a) e)
         (\<lambda>de. perform (Warn (oa_log a) ''otp cleanup after email failure failed''
                          (FromPairs [AString ''email'', AString e, AString ''error'', errv de]))
                  (fail (Wrap x CodeInternal ''send otp email'' [])))
         (\<lambda>_. fail (Wrap x CodeInternal ''send otp email'' []))) return" for code
  have delete: "otps w2 e' = otps w1 e'" if "otp_Delete (oa_otpRepo a) e w1 = (q, w2)" for q w1 w2
    using that otp.Delete_ok [of e w1 _ w2] otp.Delete_err [of e w1 _ w2] assms(2) by (cases q) fastforce+
  have send: "otps w2 e' = otps w1 e'" if "send code w1 = (q, w2)" for code q w1 w2
    using that unfolding send_def Warn_def by (auto dest!: delete mail_otps elim!: attempt_cases)
  have store: "otps w2 e' = otps w1 e'" if "otp_Store (oa_otpRepo a) e x t w1 = (q, w2)" for x t q w1 w2
    using that otp.Store_ok [of e x t w1 _ w2] otp.Store_err [of e x t w1 _ w2] assms(2) by (cases q) fastforce+
  have code: "otps w2 = otps w1" if "generateNumericCode h n w1 = (q, w2)" for n q w1 w2
    using that unfolding generateNumericCode_def by (auto dest!: random_otps elim!: attempt_cases)
  obtain w1 where body: "(if e = [] then fail (New CodeInvalidArgument ''email is required'' [])
        else attempt (generateNumericCode h (oa_codeLength a)) (\<lambda>e. fail (Wrap e CodeInternal ''generate otp code'' []))
          (\<lambda>code. attempt (otp_Store (oa_otpRepo a) e (hashCode h code) (oa_ttl a))
             (\<lambda>e. fail (Wrap e CodeInternal ''store otp code'' [])) (\<lambda>_. send code))) w0 = (r, w1)"
    and w': "otps w' = otps w1"
    using assms(1) unfolding SendCode_def with_span_eq w0_def [symmetric] send_def [symmetric] by auto
  have "otps w1 e' = otps w0 e'"
    using body by (auto dest!: code store send split: if_splits elim!: attempt_cases)
  with w' w0 show ?thesis
    by simp
qed

text \<open>Each success uses up a code, and only sending to the address brings one in.\<close>

lemma otp_run_bound:
  assumes "\<And>d w. otps (wait d w) \<subseteq>\<^sub>m otps w"
  shows "otp_run h a errv wait e ops w \<le> length [op \<leftarrow> ops. op = Op_Send e] + (if otps w e = None then 0 else 1)"
proof (induction ops arbitrary: w)
  case (Cons op ops)
  let ?pot = "\<lambda>w. if otps w e = None then 0 else 1 :: nat"
  note IH = Cons.IH
  show ?case
  proof (cases op)
    case (Op_Send e')
    obtain r w' where send: "SendCode h a errv e' w = (r, w')"
      by (cases "SendCode h a errv e' w")
    show ?thesis
    proof (cases "e' = e")
      case True
      then show ?thesis
        using IH [of w'] send Op_Send by (simp split: if_splits)
    next
      case False
      then show ?thesis
        using IH [of w'] send Op_Send SendCode_others [OF send, of e] by simp
    qed
  next
    case (Op_Verify e' c)
    obtain r w' where verify: "VerifyCode h a e' c w = (r, w')"
      by (cases "VerifyCode h a e' c w")
    then have "(if e' = e \<and> is_ok r then 1 else 0) + ?pot w' \<le> ?pot w"
      by (cases rule: VerifyCode_cases) (auto split: if_splits)
    then show ?thesis
      using IH [of w'] verify Op_Verify by simp
  next
    case (Op_Pass d)
    have "?pot (wait d w) \<le> ?pot w"
      using assms [of d w] by (auto simp: map_le_def dom_def)
    then show ?thesis
      using IH [of "wait d w"] Op_Pass by simp
  qed
qed simp

end

section \<open>Code length\<close>

lemma length_nat_digits: "n < 10 ^ k \<Longrightarrow> 0 < k \<Longrightarrow> length (nat_digits n) \<le> k"
proof (induction n arbitrary: k rule: nat_digits.induct)
  case (1 n)
  show ?case
  proof (cases "n < 10")
    case True
    then show ?thesis
      using "1.prems" by (simp add: nat_digits.simps)
  next
    case False
    obtain j where k: "k = Suc j"
      using "1.prems"(2) by (cases k) auto
    have "n div 10 < 10 ^ j"
      using "1.prems"(1) k by (simp add: less_mult_imp_div_less mult.commute)
    moreover from this have "0 < j"
      using False by (cases j) auto
    ultimately show ?thesis
      using "1.IH" [OF False] k False by (simp add: nat_digits.simps [of n])
  qed
qed

text \<open>
  A generated code has exactly the configured number of characters, all of them decimal digits,
  and its value is the random number that was drawn.
\<close>

lemma generated_code_shape:
  assumes "generateNumericCode h len w = (Inr code, w')" "0 < len" "\<And>m w n w'. 0 < m \<Longrightarrow> Rand_Int h m w = (Inr n, w') \<Longrightarrow> n < m"
  shows "length code = nat len \<and> list_all is_digit code \<and>
    (\<exists>n w''. Rand_Int h (10 ^ nat len) w = (Inr n, w'') \<and> digits_value code = n)"
proof -
  obtain n w1 where n: "Rand_Int h (10 ^ nat len) w = (Inr n, w1)" "code = pad_zeros (nat len) (nat_digits n)"
    using assms(1) by (auto simp: generateNumericCode_def elim!: attempt_cases)
  have "length (nat_digits n) \<le> nat len"
    using assms(2,3) n(1) by (intro length_nat_digits) auto
  moreover have "is_digit (CHR ''0'')" "digit_value (CHR ''0'') = 0"
    by (simp_all add: is_digit_def digit_value_def less_eq_char_def)
  moreover from this have "digits_value (replicate k (CHR ''0'') @ s) = digits_value s" for k s
    by (induction k) (simp_all add: digits_value_def)
  ultimately show ?thesis
    using n nat_digits_props [of n] by (auto simp: pad_zeros_def list_all_iff)
qed

section \<open>The wired authenticator\<close>

definition wired_otp :: "'s redis \<Rightarrow> duration \<Rightarrow> (error \<Rightarrow> any) \<Rightarrow> 's world sink \<Rightarrow> 's world sink \<Rightarrow> 's world sink \<Rightarrow> 's world email_sender \<Rightarrow> otp_config \<Rightarrow>
    's world otp_authenticator" where
  "wired_otp R cacheTTL errv lg tr mt sender cfg =
     NewOTPAuthenticator (Some lg) (Some tr) (Some mt) (OTPStore R) sender (CachedUserStore (wired_users R cacheTTL lg tr) errv) cfg"

lemma wired_otp_simps [simp]:
  "oa_log (wired_otp R c v lg tr mt s cfg) = lg" "oa_tracer (wired_otp R c v lg tr mt s cfg) = tr" "oa_meter (wired_otp R c v lg tr mt s cfg) = mt"
  "oa_otpRepo (wired_otp R c v lg tr mt s cfg) = OTPStore R" "oa_emailSender (wired_otp R c v lg tr mt s cfg) = s"
  "oa_userRepo (wired_otp R c v lg tr mt s cfg) = CachedUserStore (wired_users R c lg tr) v"
  by (simp_all add: wired_otp_def NewOTPAuthenticator_def or_noop_def)

text \<open>The environment of the wired authenticator: quiet telemetry and a mail service that keeps out of Redis.\<close>

locale wired_otp_auth = wired_user_store R view clock tick tr lg cacheTTL errv
  for R :: "'s redis" and view clock tick tr lg cacheTTL errv +
  fixes mt :: "'s world sink" and sender :: "'s world email_sender" and cfg :: otp_config and sha :: "string \<Rightarrow> nat list"
  assumes quiet_meter: "quiet mt"
    and mail_kv: "SendOTP sender e c w = (rv, w') \<Longrightarrow> kv w' = kv w"
begin

lemma consume_frame:
  assumes "otp_Consume (OTPStore R) e c w = (r, w')"
  shows "user_view view w' = user_view view w" "db w' = db w"
proof -
  show "user_view view w' = user_view view w"
    using assms unfolding OTPStore_def otp_repo.simps
    by (cases rule: consumeOTP_cases) (auto intro: user_view_kv views_other(4))
  have "db w2 = db w1" if "script_call f w1 = (q, w2)" for f :: "'s \<Rightarrow> _" and q w1 w2
    using script_call_frame [OF that] by simp
  then show "db w' = db w"
    using assms unfolding OTPStore_def otp_repo.simps OTPStore_Consume_def
    by (auto elim!: attempt_cases split: sum.splits if_splits)
qed

lemma wait_otps: "otp_view view (advance tick (int d) w) \<subseteq>\<^sub>m otp_view view w"
proof -
  note string_at_advance [of d w]
  then show ?thesis
    unfolding otp_view_def map_le_def dom_def by (metis (mono_tags, lifting) mem_Collect_eq)
qed

end

sublocale wired_otp_auth \<subseteq> auth: otp_authentication "wired_otp R cacheTTL errv lg tr mt sender cfg" "otp_view view"
    "\<lambda>w. db_ok (db w) \<and> wired.coherent w" "\<lambda>w. accounts_of (db w)" "\<lambda>w. link (db w)" "world_host sha" errv
proof (intro otp_authentication.intro otp_authentication_axioms.intro)
  show "otp_repository (oa_otpRepo (wired_otp R cacheTTL errv lg tr mt sender cfg)) (otp_view view)"
    using otp.otp_repository_axioms by simp
  show "user_repository (oa_userRepo (wired_otp R cacheTTL errv lg tr mt sender cfg)) (\<lambda>w. db_ok (db w) \<and> wired.coherent w)
      (\<lambda>w. accounts_of (db w)) (\<lambda>w. link (db w))"
    using wired.users.user_repository_axioms by simp
next
  fix sk ev w
  assume "sk \<in> {oa_log (wired_otp R cacheTTL errv lg tr mt sender cfg), oa_tracer (wired_otp R cacheTTL errv lg tr mt sender cfg),
      oa_meter (wired_otp R cacheTTL errv lg tr mt sender cfg)}"
  then have sk: "quiet sk"
    using quiet quiet_log quiet_meter by auto
  show "otp_view view (sk ev w) = otp_view view w \<and> (db_ok (db (sk ev w)) \<and> wired.coherent (sk ev w)) = (db_ok (db w) \<and> wired.coherent w) \<and>
      accounts_of (db (sk ev w)) = accounts_of (db w)"
    using quiet_apply [OF sk, of ev w] otp_view_kv [of "sk ev w" w] user_view_kv [of "sk ev w" w] by (simp add: wired.coherent_def)
next
  fix e c w w' and rb :: "error + bool"
  assume "otp_Consume (oa_otpRepo (wired_otp R cacheTTL errv lg tr mt sender cfg)) e c w = (rb, w')"
  then show "(db_ok (db w') \<and> wired.coherent w') = (db_ok (db w) \<and> wired.coherent w) \<and> accounts_of (db w') = accounts_of (db w)"
    using consume_frame [of e c w rb w'] by (simp add: wired.coherent_def)
next
  fix e w w' and ru :: "error + user"
  show "ur_GetByEmail (oa_userRepo (wired_otp R cacheTTL errv lg tr mt sender cfg)) e w = (ru, w') \<Longrightarrow> otp_view view w' = otp_view view w"
    using store_kv(1) [of e w ru w'] by (intro otp_view_kv) (simp add: CachedUserStore_def wired_users_def NewCachedUserStore_def UserStore_def)
  show "ur_CreateByEmail (oa_userRepo (wired_otp R cacheTTL errv lg tr mt sender cfg)) e w = (ru, w') \<Longrightarrow> otp_view view w' = otp_view view w"
    using store_kv(3) [of e w ru w'] by (intro otp_view_kv) (simp add: CachedUserStore_def wired_users_def NewCachedUserStore_def UserStore_def)
next
  fix n w w' and rn :: "error + nat"
  show "Rand_Int (world_host sha) n w = (rn, w') \<Longrightarrow> otp_view view w' = otp_view view w"
    by (intro otp_view_kv) (auto simp: rand_Int_def split: list.splits)
next
  fix e c w w' and rv :: "error + unit"
  show "SendOTP (oa_emailSender (wired_otp R cacheTTL errv lg tr mt sender cfg)) e c w = (rv, w') \<Longrightarrow> otp_view view w' = otp_view view w"
    using mail_kv [of e c w rv w'] by (intro otp_view_kv) simp
qed

interpretation ks_otp: wired_otp_auth keyspace_redis ks_view ks_clock ks_tick trace_sink trace_sink cacheTTL errv trace_sink
    "\<lparr>SendOTP = StubSender_SendOTP trace_sink\<rparr>" cfg sha for cacheTTL errv cfg sha
  by unfold_locales (auto simp: StubSender_SendOTP_def Info_def)

lemma wired_otp_authI:
  assumes "redis_spec R view clock tick" "quiet tr" "quiet lg" "quiet mt"
    and "\<And>e c w rv w'. SendOTP sender e c w = (rv, w') \<Longrightarrow> kv w' = kv w"
  shows "wired_otp_auth R view clock tick tr lg mt sender"
  using assms by (intro wired_otp_auth.intro wired_otp_auth_axioms.intro wired_user_storeI)

context wired_otp_auth
begin

lemma single_use:
  "otp_run (world_host sha) (wired_otp R cacheTTL errv lg tr mt sender cfg) errv (\<lambda>d. advance tick (int d)) e ops w
     \<le> length [op \<leftarrow> ops. op = Op_Send e] + (if otp_view view w e = None then 0 else 1)"
  using wait_otps by (rule auth.otp_run_bound)

lemma verified:
  assumes "consistent_users view w" "length e \<le> 320"
    and "VerifyCode (world_host sha) (wired_otp R cacheTTL errv lg tr mt sender cfg) e c w = (Inr i, w')"
  shows "otp_view view w e = Some (EncodeToString (sha c)) \<and> otp_view view w' e = None \<and>
    (\<exists>u\<in>accounts_of (db w'). CanAuthenticate u \<and> ai_UserID i = ID u \<and> ai_Email i = e \<and> Email u = e \<and> ai_Method i = MethodOTP)"
  using assms(3)
proof (cases rule: auth.VerifyCode_cases)
  case matched
  have "db_ok (db w) \<and> wired.coherent w"
    using assms(1) by (simp add: consistent_coherent)
  from matched(3) [OF this assms(2) refl] matched(1,2) show ?thesis
    by (auto simp: hashCode_def)
qed simp

end

section \<open>Properties\<close>

text \<open>
  (C3) One-time passwords are one-time: over any history of calls, delays and lost replies, an address
  is verified successfully at most as often as a code was sent to it.
\<close>

theorem otp_single_use:
  assumes "redis_spec R view clock tick" "quiet tr" "quiet lg" "quiet mt"
    and "\<And>e c w rv w'. SendOTP sender e c w = (rv, w') \<Longrightarrow> kv w' = kv w"
    and "otp_view view w email = None"
  shows "otp_run (world_host sha) (wired_otp R cacheTTL errv lg tr mt sender cfg) errv (\<lambda>d. advance tick (int d)) email ops w
     \<le> length [op \<leftarrow> ops. op = Op_Send email]"
  using wired_otp_auth.single_use [OF wired_otp_authI [OF assms(1-5)],
      where sha = sha and cacheTTL = cacheTTL and errv = errv and cfg = cfg and e = email and ops = ops and w = w] assms(6)
  by simp

theorem otp_single_use_witness:
  "otp_run (world_host (\<lambda>s. map of_char s)) (wired_otp keyspace_redis Hour (\<lambda>_. AOther []) trace_sink trace_sink trace_sink
       \<lparr>SendOTP = StubSender_SendOTP trace_sink\<rparr> \<lparr>CodeLength = 6, OTP_TTL = Minute\<rparr>) (\<lambda>_. AOther []) (\<lambda>d. advance ks_tick (int d)) ''a@b.c''
     [Op_Send ''a@b.c'', Op_Verify ''a@b.c'' ''000775'', Op_Verify ''a@b.c'' ''000775'']
     (start_world \<lparr>ks_clock = 0, ks_data = (\<lambda>_. None)\<rparr> [[3, 7]]) \<le> 1"
  using otp_single_use [OF ks.redis_spec_axioms quiet_trace_sink quiet_trace_sink quiet_trace_sink,
      of "\<lparr>SendOTP = StubSender_SendOTP trace_sink\<rparr>" "start_world \<lparr>ks_clock = 0, ks_data = (\<lambda>_. None)\<rparr> [[3, 7]]" "''a@b.c''"
      "\<lambda>s. map of_char s" Hour "\<lambda>_. AOther []" "\<lparr>CodeLength = 6, OTP_TTL = Minute\<rparr>"
      "[Op_Send ''a@b.c'', Op_Verify ''a@b.c'' ''000775'', Op_Verify ''a@b.c'' ''000775'']"]
  by (simp add: StubSender_SendOTP_def Info_def otp_view_def string_at_def start_world_def ks_view_def)

text \<open>
  (C4) A verification succeeds only with a code whose hash is the one stored for the address, removes
  it, and returns an active user on record with exactly that address.
\<close>

theorem otp_verify_sound:
  assumes "redis_spec R view clock tick" "quiet tr" "quiet lg" "quiet mt"
    and "\<And>e c w rv w'. SendOTP sender e c w = (rv, w') \<Longrightarrow> kv w' = kv w"
    and "consistent_users view w" "length email \<le> 320"
    and "VerifyCode (world_host sha) (wired_otp R cacheTTL errv lg tr mt sender cfg) email code w = (Inr i, w')"
  shows "otp_view view w email = Some (EncodeToString (sha code)) \<and> otp_view view w' email = None \<and>
    (\<exists>u\<in>accounts_of (db w'). CanAuthenticate u \<and> ai_UserID i = ID u \<and> ai_Email i = email \<and> Email u = email \<and> ai_Method i = MethodOTP)"
  by (rule wired_otp_auth.verified [OF wired_otp_authI [OF assms(1-5)] assms(6-8)])

lemmas run_otp = VerifyCode_def SendCode_def find_or_create_def otp_outcome_def OTPStore_Consume_def OTPStore_def consumeOTPScript_def script_call_def
  redisInt_def hashCode_def otpKeyPrefix_def UserStore_GetByEmail_def UserStore_CreateByEmail_def GetUserByEmail_def CreateUser_def CanAuthenticate_def
  IsNoRows_def

definition pending_otp :: "keyspace world" where
  "pending_otp = start_world \<lparr>ks_clock = 0, ks_data = [''otp:a@b.c'' \<mapsto> (RString ''31'', Some 60000)]\<rparr> []"

theorem otp_verify_sound_witness:
  "\<exists>i w'. VerifyCode (world_host (\<lambda>s. map of_char s)) (wired_otp keyspace_redis Hour (\<lambda>_. AOther []) trace_sink trace_sink trace_sink
       \<lparr>SendOTP = StubSender_SendOTP trace_sink\<rparr> \<lparr>CodeLength = 6, OTP_TTL = Minute\<rparr>) ''a@b.c'' ''1'' pending_otp = (Inr i, w') \<and>
     otp_view ks_view w' ''a@b.c'' = None \<and> ai_Email i = ''a@b.c''"
proof -
  let ?a = "wired_otp keyspace_redis Hour (\<lambda>_. AOther []) trace_sink trace_sink trace_sink
       \<lparr>SendOTP = StubSender_SendOTP trace_sink\<rparr> \<lparr>CodeLength = 6, OTP_TTL = Minute\<rparr>"
  obtain i w' where run: "VerifyCode (world_host (\<lambda>s. map of_char s)) ?a ''a@b.c'' ''1'' pending_otp = (Inr i, w')"
    by (simp add: run_otp run_user_repo pending_otp_def EncodeToString_def hex_digit_def ks_view_def ks_put_def Let_def)
  have "consistent_users ks_view pending_otp"
    by (auto simp: consistent_users_def pending_otp_def start_world_def db_ok_def user_view_def string_at_def ks_view_def userKeyPrefix_def)
  then show ?thesis
    using otp_verify_sound [OF ks.redis_spec_axioms quiet_trace_sink quiet_trace_sink quiet_trace_sink _ _ _ run] run
    by (auto simp: StubSender_SendOTP_def Info_def)
qed

end
