(* ===== verification/Auth_OAuth.thy ===== *)
theory Auth_OAuth
  imports Auth_Session User_Repo
begin

text \<open>
  \<^verbatim>\<open>internal/usecase/auth/oauth\<close>: the authorization-code flow with its one-time state and
  browser binding, and the Google provider of \<^verbatim>\<open>internal/infra/external/oauth/login/google\<close>. The
  results: an authorization is good for at most one login; a login presents the binding whose hash
  was stored with the state, and ends in the account that the provider's subject is linked to; a
  Google login needs a verified address.
\<close>

section \<open>Providers\<close>

record oauth_user_info =
  oi_ProviderUserID :: string
  oi_Email :: string

record 'w oauth_provider =
  op_Name :: string
  op_AuthCodeURL :: "string \<Rightarrow> string \<Rightarrow> string"
  op_Exchange :: "string \<Rightarrow> string \<Rightarrow> ('w, oauth_user_info) eff"

section \<open>The Google provider\<close>

text \<open>
  The OAuth2 package is a parameter: building the redirect (offline access, S256 challenge of the
  verifier), exchanging a code with a verifier for a token, and a GET with that token, which yields
  a status and a body. \<open>'t\<close> is its token type.
\<close>

record oauth2_config =
  ClientID :: string
  ClientSecret :: string
  RedirectURL :: string
  Scopes :: "string list"
  Endpoint :: string

record ('w, 't) oauth2 =
  o2_GoogleEndpoint :: string
  o2_AuthCodeURL :: "oauth2_config \<Rightarrow> string \<Rightarrow> string \<Rightarrow> string"
  o2_Exchange :: "oauth2_config \<Rightarrow> string \<Rightarrow> string \<Rightarrow> ('w, 't) eff"
  o2_Get :: "oauth2_config \<Rightarrow> 't \<Rightarrow> string \<Rightarrow> ('w, int \<times> string) eff"

definition userInfoURL :: string where
  "userInfoURL = ''https://www.googleapis.com/oauth2/v2/userinfo''"

definition parseUserInfo :: "string \<Rightarrow> error + oauth_user_info" where
  "parseUserInfo body =
     (case decode_object body of
        None \<Rightarrow> Inl (Errorf ''decode google user info'' (External ''invalid JSON''))
      | Some (ms, _) \<Rightarrow>
          (case (string_member ''id'' ms, string_member ''email'' ms, bool_member ''verified_email'' ms) of
             (Some i, Some e, Some v) \<Rightarrow>
               if i = [] then Inl (Msg ''google user info missing id'')
               else if e = [] \<or> \<not> v then Inl (Msg ''google user info missing verified email'')
               else Inr \<lparr>oi_ProviderUserID = i, oi_Email = e\<rparr>
           | _ \<Rightarrow> Inl (Errorf ''decode google user info'' (External ''JSON value of the wrong type''))))"

definition google_Exchange :: "('w, 't) oauth2 \<Rightarrow> oauth2_config \<Rightarrow> string \<Rightarrow> string \<Rightarrow> ('w, oauth_user_info) eff" where
  "google_Exchange lib cfg code verifier =
     attempt (o2_Exchange lib cfg code verifier) (\<lambda>e. fail (Errorf ''exchange oauth code'' e))
       (\<lambda>token. attempt (o2_Get lib cfg token userInfoURL) (\<lambda>e. fail (Errorf ''fetch google user info'' e))
          (\<lambda>(status, body).
             if status \<noteq> 200 then fail (Msg (''google user info returned '' @ Itoa status @ '': '' @ body))
             else (case parseUserInfo body of Inl e \<Rightarrow> fail e | Inr info \<Rightarrow> return info)))"

definition google_config :: "('w, 't) oauth2 \<Rightarrow> string \<Rightarrow> string \<Rightarrow> string \<Rightarrow> oauth2_config" where
  "google_config lib clientID clientSecret redirectURL =
     \<lparr>ClientID = clientID, ClientSecret = clientSecret, RedirectURL = redirectURL, Scopes = [''openid'', ''email''],
      Endpoint = o2_GoogleEndpoint lib\<rparr>"

definition google_NewProvider :: "('w, 't) oauth2 \<Rightarrow> string \<Rightarrow> string \<Rightarrow> string \<Rightarrow> 'w oauth_provider" where
  "google_NewProvider lib clientID clientSecret redirectURL =
     (let cfg = google_config lib clientID clientSecret redirectURL in
      \<lparr>op_Name = ''google'', op_AuthCodeURL = o2_AuthCodeURL lib cfg, op_Exchange = google_Exchange lib cfg\<rparr>)"

text \<open>\<^verbatim>\<open>buildOAuthProviders\<close>: Google is registered when a client ID is configured.\<close>

definition buildOAuthProviders :: "('w, 't) oauth2 \<Rightarrow> string \<Rightarrow> string \<Rightarrow> string \<Rightarrow> 'w oauth_provider list" where
  "buildOAuthProviders lib clientID clientSecret redirectURL =
     (if clientID \<noteq> [] then [google_NewProvider lib clientID clientSecret redirectURL] else [])"

section \<open>The authenticator\<close>

definition BrowserBindingTTL :: duration where
  "BrowserBindingTTL = 10 * Minute"

record authorization =
  az_RedirectURL :: string
  az_BrowserBinding :: string

record 'w oauth_authenticator =
  au_tracer :: "'w sink"
  au_meter :: "'w sink"
  au_providers :: "string \<rightharpoonup> 'w oauth_provider"
  au_stateRepo :: "'w oauth_state_repo"
  au_userRepo :: "'w user_repo"

definition NewOAuthAuthenticator :: "'w sink option \<Rightarrow> 'w sink option \<Rightarrow> 'w oauth_state_repo \<Rightarrow> 'w user_repo \<Rightarrow> 'w oauth_provider list \<Rightarrow>
    'w oauth_authenticator" where
  "NewOAuthAuthenticator tr mt stateRepo userRepo providers =
     \<lparr>au_tracer = or_noop tr, au_meter = or_noop mt,
      au_providers = fold (\<lambda>p pm. pm(op_Name p \<mapsto> p)) providers Map.empty,
      au_stateRepo = stateRepo, au_userRepo = userRepo\<rparr>"

definition hashBrowserBinding :: "'w host \<Rightarrow> string \<Rightarrow> string" where
  "hashBrowserBinding h binding = EncodeToString (Sum256 h binding)"

definition provider_field :: "string \<Rightarrow> fields" where
  "provider_field provider = FromPairs [AString ''oauth.provider'', AString provider]"

definition Authorize :: "'w host \<Rightarrow> 'w oauth_authenticator \<Rightarrow> string \<Rightarrow> ('w, authorization) eff" where
  "Authorize h a provider =
     with_span (au_tracer a) ''usecase'' ''oauth_authenticator.authorize_url'' (provider_field provider) (\<lambda>_ w. w)
       (case au_providers a provider of
          None \<Rightarrow> fail (New CodeInvalidArgument (''unsupported oauth provider: '' @ provider) [])
        | Some p \<Rightarrow>
            attempt (GenerateToken h 16) (\<lambda>e. fail (Wrap e CodeInternal ''generate oauth state'' []))
              (\<lambda>state. attempt (GenerateToken h 32) (\<lambda>e. fail (Wrap e CodeInternal ''generate oauth browser binding'' []))
                 (\<lambda>binding. attempt (st_Store (au_stateRepo a) state \<lparr>BrowserBindingHash = hashBrowserBinding h binding\<rparr> BrowserBindingTTL)
                    (\<lambda>e. fail (Wrap e CodeInternal ''store oauth state'' []))
                    (\<lambda>_. return \<lparr>az_RedirectURL = op_AuthCodeURL p state binding, az_BrowserBinding = binding\<rparr>))))"

text \<open>The part of the callback after the state was accepted: exchange the code and find the account.\<close>

definition login_with :: "'w oauth_authenticator \<Rightarrow> 'w oauth_provider \<Rightarrow> string \<Rightarrow> string \<Rightarrow> string \<Rightarrow> ('w, auth_identity) eff" where
  "login_with a p provider code binding =
     attempt (op_Exchange p code binding)
       (\<lambda>e. if errors_Is e ContextDeadlineExceeded then fail (Wrap e CodeTimeout ''oauth code exchange timed out'' [])
             else fail (Wrap e CodeUnauthorized ''oauth code exchange failed'' []))
       (\<lambda>info. attempt (ur_UpsertOAuthUser (au_userRepo a)
                  \<lparr>Provider = provider, ProviderUserID = oi_ProviderUserID info, Upsert_Email = oi_Email info\<rparr>)
          (\<lambda>e. fail (Wrap e CodeInternal ''find or create oauth user'' []))
          (\<lambda>u. if \<not> CanAuthenticate u then fail (New CodeForbidden ''user account cannot authenticate'' [])
                else return \<lparr>ai_UserID = ID u, ai_Email = Email u, ai_Method = MethodOAuth\<rparr>))"

definition redeem_state :: "'w host \<Rightarrow> 'w oauth_authenticator \<Rightarrow> string \<Rightarrow> string \<Rightarrow> ('w, unit) eff" where
  "redeem_state h a state binding =
     attempt (st_Consume (au_stateRepo a) state) (\<lambda>e. fail (Wrap e CodeInternal ''validate oauth state'' []))
       (\<lambda>found. case found of
          None \<Rightarrow> fail (New CodeUnauthorized ''invalid or expired oauth state'' [])
        | Some d \<Rightarrow> if BrowserBindingHash d \<noteq> hashBrowserBinding h binding
                    then fail (New CodeUnauthorized ''oauth browser binding is invalid or expired'' [])
                    else return ())"

definition HandleCallback :: "'w host \<Rightarrow> 'w oauth_authenticator \<Rightarrow> string \<Rightarrow> string \<Rightarrow> string \<Rightarrow> string \<Rightarrow> ('w, auth_identity) eff" where
  "HandleCallback h a provider code state binding =
     with_span (au_tracer a) ''usecase'' ''oauth_authenticator.handle_callback'' (provider_field provider)
       (\<lambda>e. au_meter a (CounterAdd ''auth_oauth_total'' 1
               (FromPairs [AString ''oauth.provider'', AString provider, AString ''outcome'', AString (outcome_of e)])))
       (case au_providers a provider of
          None \<Rightarrow> fail (New CodeInvalidArgument (''unsupported oauth provider: '' @ provider) [])
        | Some p \<Rightarrow>
            if binding = [] then fail (New CodeUnauthorized ''oauth browser binding is missing or expired'' [])
            else attempt (redeem_state h a state binding) fail (\<lambda>_. login_with a p provider code binding))"

section \<open>Histories\<close>

text \<open>Calls of the two methods and time passing; the world they lead to and the number of logins that succeed.\<close>

datatype oauth_op = Op_Authorize string | Op_Callback string string string string | Op_Elapse nat

fun oauth_step :: "'w host \<Rightarrow> 'w oauth_authenticator \<Rightarrow> (nat \<Rightarrow> 'w \<Rightarrow> 'w) \<Rightarrow> oauth_op \<Rightarrow> 'w \<Rightarrow> bool \<times> 'w" where
  "oauth_step h a wait (Op_Authorize p) w = (False, snd (Authorize h a p w))"
| "oauth_step h a wait (Op_Callback p c t b) w = apfst is_ok (HandleCallback h a p c t b w)"
| "oauth_step h a wait (Op_Elapse d) w = (False, wait d w)"

fun logins :: "'w host \<Rightarrow> 'w oauth_authenticator \<Rightarrow> (nat \<Rightarrow> 'w \<Rightarrow> 'w) \<Rightarrow> oauth_op list \<Rightarrow> 'w \<Rightarrow> nat" where
  "logins h a wait [] w = 0"
| "logins h a wait (op # ops) w =
     (case oauth_step h a wait op w of (ok, w') \<Rightarrow> (if ok then 1 else 0) + logins h a wait ops w')"

definition after :: "'w host \<Rightarrow> 'w oauth_authenticator \<Rightarrow> (nat \<Rightarrow> 'w \<Rightarrow> 'w) \<Rightarrow> oauth_op list \<Rightarrow> 'w \<Rightarrow> 'w" where
  "after h a wait ops w = fold (\<lambda>op. snd \<circ> oauth_step h a wait op) ops w"

section \<open>What the authenticator guarantees\<close>

text \<open>
  Over any state repository and user repository that keep their promises: \<open>states\<close> are the pending
  states, and the provider's services touch neither them nor the accounts.
\<close>

locale oauth_authentication = states: oauth_state_repository "au_stateRepo a" states + users: user_repository "au_userRepo a" ok accounts links
  for a :: "'w oauth_authenticator" and states :: "'w \<Rightarrow> string \<Rightarrow> oauth_state_data option" and ok accounts links +
  fixes h :: "'w host"
  assumes sinks: "sk \<in> {au_tracer a, au_meter a} \<Longrightarrow>
        states (sk ev w) = states w \<and> ok (sk ev w) = ok w \<and> accounts (sk ev w) = accounts w \<and> links (sk ev w) = links w"
    and consume_data: "st_Consume (au_stateRepo a) t w = (rs, w') \<Longrightarrow> ok w' = ok w \<and> accounts w' = accounts w \<and> links w' = links w"
    and upsert_states: "ur_UpsertOAuthUser (au_userRepo a) info w = (ru, w') \<Longrightarrow> states w' = states w"
    and random_states: "Read_random h n w = (rb, w') \<Longrightarrow> states w' = states w"
    and exchange_frame: "au_providers a nm = Some p \<Longrightarrow> op_Exchange p c b w = (ri, w') \<Longrightarrow>
        states w' = states w \<and> ok w' = ok w \<and> accounts w' = accounts w \<and> links w' = links w"
begin

lemma sink_simps [simp]:
  "states (au_tracer a ev w) = states w" "ok (au_tracer a ev w) = ok w" "accounts (au_tracer a ev w) = accounts w" "links (au_tracer a ev w) = links w"
  "states (au_meter a ev w) = states w" "ok (au_meter a ev w) = ok w" "accounts (au_meter a ev w) = accounts w" "links (au_meter a ev w) = links w"
  using sinks by blast+

lemma redeem_cases:
  assumes "redeem_state h a t b w = (r, w')"
  obtains (redeemed) "r = Inr ()" "states w t = Some \<lparr>BrowserBindingHash = hashBrowserBinding h b\<rparr>" "states w' = (states w)(t := None)"
        "ok w' = ok w" "accounts w' = accounts w" "links w' = links w"
    | (refused) x where "r = Inl x" "states w' = states w \<or> states w' = (states w)(t := None)"
  using assms unfolding redeem_state_def
proof (cases rule: attempt_cases)
  case (err e w1)
  then show thesis
    using refused states.Consume_err [OF err(1)] by auto
next
  case (ok found w1)
  show thesis
  proof (cases found)
    case None
    then show thesis
      using ok refused states.Consume_none [of t w w1] by auto
  next
    case (Some d)
    then have con: "states w t = Some d" "states w1 = (states w)(t := None)"
      using ok(1) states.Consume_some by blast+
    show thesis
    proof (cases "BrowserBindingHash d = hashBrowserBinding h b")
      case True
      then have "d = \<lparr>BrowserBindingHash = hashBrowserBinding h b\<rparr>"
        by (cases d) simp
      then show thesis
        using ok Some True con consume_data [OF ok(1)] by (intro redeemed) auto
    next
      case False
      then show thesis
        using ok Some con by (intro refused) auto
    qed
  qed
qed

lemma login_states:
  assumes "au_providers a nm = Some p" "login_with a p nm c b w = (r, w')"
  shows "states w' = states w"
  using assms(2) exchange_frame [OF assms(1)] upsert_states unfolding login_with_def
  by (auto split: if_splits elim!: attempt_cases)

lemma login_ok:
  assumes "au_providers a nm = Some p" "login_with a p nm c b w = (Inr i, w')" "ok w"
  obtains info u w1 where "op_Exchange p c b w = (Inr info, w1)" "u \<in> accounts w'" "CanAuthenticate u"
    "i = \<lparr>ai_UserID = ID u, ai_Email = Email u, ai_Method = MethodOAuth\<rparr>"
    "length nm \<le> 32 \<Longrightarrow> length (oi_ProviderUserID info) \<le> 255 \<Longrightarrow> links w' (nm, oi_ProviderUserID info) = Some (ID u)"
  using assms(2) unfolding login_with_def
proof (cases rule: attempt_cases)
  case (ok info w1)
  let ?info = "\<lparr>Provider = nm, ProviderUserID = oi_ProviderUserID info, Upsert_Email = oi_Email info\<rparr>"
  from ok(2) obtain u where up: "ur_UpsertOAuthUser (au_userRepo a) ?info w1 = (Inr u, w')"
    and u: "CanAuthenticate u" "i = \<lparr>ai_UserID = ID u, ai_Email = Email u, ai_Method = MethodOAuth\<rparr>"
    by (auto split: if_splits elim!: attempt_cases)
  have "ok w1"
    using exchange_frame [OF assms(1) ok(1)] assms(3) by simp
  then show thesis
    using that ok(1) u users.Upsert_ok [OF _ up] users.Upsert_link [OF _ up] by auto
qed (simp split: if_splits)

lemma HandleCallback_cases:
  assumes "HandleCallback h a nm c t b w = (r, w')"
  obtains (refused) x where "r = Inl x" "states w' = states w \<or> states w' = (states w)(t := None)"
    | (login) p i where "r = Inr i" "au_providers a nm = Some p" "b \<noteq> []"
        "states w t = Some \<lparr>BrowserBindingHash = hashBrowserBinding h b\<rparr>" "states w' = (states w)(t := None)"
        "ok w \<Longrightarrow> \<exists>info u w1 w2. op_Exchange p c b w1 = (Inr info, w2) \<and> u \<in> accounts w' \<and> CanAuthenticate u \<and>
           i = \<lparr>ai_UserID = ID u, ai_Email = Email u, ai_Method = MethodOAuth\<rparr> \<and>
           (length nm \<le> 32 \<and> length (oi_ProviderUserID info) \<le> 255 \<longrightarrow> links w' (nm, oi_ProviderUserID info) = Some (ID u))"
proof -
  define w0 where "w0 = au_tracer a (SpanStart SpanInternal ''usecase'' ''oauth_authenticator.handle_callback'' (provider_field nm)) w"
  have w0: "states w0 = states w" "ok w0 = ok w"
    by (simp_all add: w0_def)
  obtain w1 where body: "(case au_providers a nm of
          None \<Rightarrow> fail (New CodeInvalidArgument (''unsupported oauth provider: '' @ nm) [])
        | Some p \<Rightarrow> if b = [] then fail (New CodeUnauthorized ''oauth browser binding is missing or expired'' [])
            else attempt (redeem_state h a t b) fail (\<lambda>_. login_with a p nm c b)) w0 = (r, w1)"
    and w': "states w' = states w1" "accounts w' = accounts w1" "links w' = links w1"
    using assms unfolding HandleCallback_def with_span_eq w0_def [symmetric] by auto
  show thesis
  proof (cases "au_providers a nm = None \<or> b = []")
    case True
    then show thesis
      using body refused w' w0 by (auto split: option.splits if_splits)
  next
    case False
    then obtain p where p: "au_providers a nm = Some p" and b: "b \<noteq> []"
      by auto
    from body p b have "attempt (redeem_state h a t b) fail (\<lambda>_. login_with a p nm c b) w0 = (r, w1)"
      by simp
    then show thesis
    proof (cases rule: attempt_cases)
      case (err x w2)
      from err(1) show thesis
        by (cases rule: redeem_cases) (use err(2) refused w' w0 in auto)
    next
      case (ok v w2)
      from ok(1) show thesis
      proof (cases rule: redeem_cases)
        case redeemed
        have st: "states w1 = (states w)(t := None)"
          using login_states [OF p ok(2)] redeemed(3) w0 by simp
        show thesis
        proof (cases r)
          case (Inl x)
          then show thesis
            using refused st w' by simp
        next
          case (Inr i)
          note ok2 = ok(2) [unfolded Inr]
          show thesis
          proof (rule login [OF Inr p b])
            show "states w t = Some \<lparr>BrowserBindingHash = hashBrowserBinding h b\<rparr>" "states w' = (states w)(t := None)"
              using redeemed(2) st w' w0 by simp_all
            assume "ok w"
            then have "ok w2"
              using redeemed(4) w0 by simp
            from login_ok [OF p ok2 this] obtain info u w3 where "op_Exchange p c b w2 = (Inr info, w3)" "u \<in> accounts w1" "CanAuthenticate u"
              "i = \<lparr>ai_UserID = ID u, ai_Email = Email u, ai_Method = MethodOAuth\<rparr>"
              "length nm \<le> 32 \<Longrightarrow> length (oi_ProviderUserID info) \<le> 255 \<Longrightarrow> links w1 (nm, oi_ProviderUserID info) = Some (ID u)"
              by blast
            then show "\<exists>info u w1 w2. op_Exchange p c b w1 = (Inr info, w2) \<and> u \<in> accounts w' \<and> CanAuthenticate u \<and>
                i = \<lparr>ai_UserID = ID u, ai_Email = Email u, ai_Method = MethodOAuth\<rparr> \<and>
                (length nm \<le> 32 \<and> length (oi_ProviderUserID info) \<le> 255 \<longrightarrow> links w' (nm, oi_ProviderUserID info) = Some (ID u))"
              using w' by auto
          qed
        qed
      qed simp
    qed
  qed
qed

lemma Authorize_cases:
  assumes "Authorize h a nm w = (r, w')"
  obtains (kept) x where "r = Inl x" "states w' = states w"
    | (stored) t b where "states w' = (states w)(t \<mapsto> \<lparr>BrowserBindingHash = hashBrowserBinding h b\<rparr>)"
        "\<And>z. r = Inr z \<Longrightarrow> az_BrowserBinding z = b"
proof -
  define w0 where "w0 = au_tracer a (SpanStart SpanInternal ''usecase'' ''oauth_authenticator.authorize_url'' (provider_field nm)) w"
  have w0: "states w0 = states w"
    by (simp add: w0_def)
  have token: "states w2 = states w1" if "GenerateToken h n w1 = (q, w2)" for n q w1 w2
    using that random_states unfolding GenerateToken_def by (auto elim!: attempt_cases)
  define save where "save p t b = attempt (st_Store (au_stateRepo a) t \<lparr>BrowserBindingHash = hashBrowserBinding h b\<rparr> BrowserBindingTTL)
      (\<lambda>e. fail (Wrap e CodeInternal ''store oauth state'' []))
      (\<lambda>_. return \<lparr>az_RedirectURL = op_AuthCodeURL p t b, az_BrowserBinding = b\<rparr>)" for p :: "'w oauth_provider" and t b
  obtain w1 where body: "(case au_providers a nm of
          None \<Rightarrow> fail (New CodeInvalidArgument (''unsupported oauth provider: '' @ nm) [])
        | Some p \<Rightarrow> attempt (GenerateToken h 16) (\<lambda>e. fail (Wrap e CodeInternal ''generate oauth state'' []))
              (\<lambda>t. attempt (GenerateToken h 32) (\<lambda>e. fail (Wrap e CodeInternal ''generate oauth browser binding'' [])) (save p t))) w0 = (r, w1)"
    and w': "states w' = states w1"
    using assms unfolding Authorize_def with_span_eq w0_def [symmetric] save_def by auto
  have saved: "(\<exists>x. r = Inl x) \<and> states w1 = states w2 \<or>
      states w1 = (states w2)(t \<mapsto> \<lparr>BrowserBindingHash = hashBrowserBinding h b\<rparr>) \<and> (\<forall>z. r = Inr z \<longrightarrow> az_BrowserBinding z = b)"
    if "save p t b w2 = (r, w1)" for p t b w2
    using that unfolding save_def
  proof (cases rule: attempt_cases)
    case (err e w3)
    then show ?thesis
      using states.Store_err [OF err(1)] by auto
  next
    case (ok u w3)
    then show ?thesis
      using states.Store_ok [OF ok(1)] by auto
  qed
  have "(\<exists>x. r = Inl x) \<and> states w1 = states w \<or>
      (\<exists>t b. states w1 = (states w)(t \<mapsto> \<lparr>BrowserBindingHash = hashBrowserBinding h b\<rparr>) \<and> (\<forall>z. r = Inr z \<longrightarrow> az_BrowserBinding z = b))"
  proof (cases "au_providers a nm")
    case (Some p)
    with body have "attempt (GenerateToken h 16) (\<lambda>e. fail (Wrap e CodeInternal ''generate oauth state'' []))
        (\<lambda>t. attempt (GenerateToken h 32) (\<lambda>e. fail (Wrap e CodeInternal ''generate oauth browser binding'' [])) (save p t)) w0 = (r, w1)"
      by simp
    then show ?thesis
    proof (cases rule: attempt_cases)
      case (err e w2)
      then show ?thesis
        using token [OF err(1)] w0 by auto
    next
      case (ok t w2)
      note first = token [OF ok(1)]
      from ok(2) show ?thesis
      proof (cases rule: attempt_cases)
        case (err e w3)
        then show ?thesis
          using token [OF err(1)] first w0 by auto
      next
        case (ok b w3)
        show ?thesis
          using token [OF ok(1)] first w0 saved [OF ok(2)] by auto
      qed
    qed
  qed (use body w0 in auto)
  then show thesis
  proof (elim disjE exE conjE)
    fix x
    assume "r = Inl x" "states w1 = states w"
    then show thesis
      using w' kept [of x] by simp
  next
    fix t b
    assume "states w1 = (states w)(t \<mapsto> \<lparr>BrowserBindingHash = hashBrowserBinding h b\<rparr>)" "\<forall>z. r = Inr z \<longrightarrow> az_BrowserBinding z = b"
    then show thesis
      using w' stored [of t b] by simp
  qed
qed

text \<open>Every login uses up a pending state, and only an authorization adds one.\<close>

lemma logins_bound:
  assumes "\<And>d w. states (wait d w) \<subseteq>\<^sub>m states w" "finite (dom (states w))"
  shows "logins h a wait ops w \<le> length [op \<leftarrow> ops. \<exists>p. op = Op_Authorize p] + card (dom (states w))"
  using assms(2)
proof (induction ops arbitrary: w)
  case (Cons op ops)
  note IH = Cons.IH and fin = Cons.prems
  show ?case
  proof (cases op)
    case (Op_Authorize p)
    obtain r w' where run: "Authorize h a p w = (r, w')"
      by (cases "Authorize h a p w")
    then have "finite (dom (states w')) \<and> card (dom (states w')) \<le> Suc (card (dom (states w)))"
      by (cases rule: Authorize_cases) (use fin in \<open>auto intro: card_insert_le_m1 simp: card_insert_if\<close>)
    then show ?thesis
      using IH [of w'] run Op_Authorize by simp
  next
    case (Op_Callback p c t b)
    obtain r w' where run: "HandleCallback h a p c t b w = (r, w')"
      by (cases "HandleCallback h a p c t b w")
    then have "finite (dom (states w')) \<and> (if is_ok r then 1 else 0) + card (dom (states w')) \<le> card (dom (states w))"
    proof (cases rule: HandleCallback_cases)
      case (refused x)
      then show ?thesis
        using fin by (auto intro: card_mono)
    next
      case (login q i)
      then have "t \<in> dom (states w)" "dom (states w') = dom (states w) - {t}"
        by auto
      then show ?thesis
        using fin login(1) card_Suc_Diff1 [OF fin] by simp
    qed
    then show ?thesis
      using IH [of w'] run Op_Callback by simp
  next
    case (Op_Elapse d)
    have "dom (states (wait d w)) \<subseteq> dom (states w)"
      using assms(1) by (rule map_le_implies_dom_le)
    then have "finite (dom (states (wait d w)))" "card (dom (states (wait d w))) \<le> card (dom (states w))"
      using fin by (auto intro: finite_subset card_mono)
    then show ?thesis
      using IH [of "wait d w"] Op_Elapse by simp
  qed
qed simp

text \<open>Where a pending state comes from: an authorization of the history with a binding of that hash, unless that call failed.\<close>

definition issued :: "(nat \<Rightarrow> 'w \<Rightarrow> 'w) \<Rightarrow> oauth_op list \<Rightarrow> 'w \<Rightarrow> string \<Rightarrow> bool" where
  "issued wait ops w x \<longleftrightarrow> (\<exists>pre p post r w'. ops = pre @ Op_Authorize p # post \<and>
     Authorize h a p (after h a wait pre w) = (r, w') \<and> (\<forall>z. r = Inr z \<longrightarrow> hashBrowserBinding h (az_BrowserBinding z) = x))"

lemma states_issued:
  assumes "\<And>d w. states (wait d w) \<subseteq>\<^sub>m states w" "states w = Map.empty"
    and "states (after h a wait ops w) t = Some d"
  shows "issued wait ops w (BrowserBindingHash d)"
  using assms(3)
proof (induction ops arbitrary: t d rule: rev_induct)
  case Nil
  then show ?case
    using assms(2) by (simp add: after_def)
next
  case (snoc op ops)
  let ?w = "after h a wait ops w"
  have last: "after h a wait (ops @ [op]) w = snd (oauth_step h a wait op ?w)"
    by (simp add: after_def)
  have old: "issued wait (ops @ [op]) w (BrowserBindingHash d)" if st: "states ?w t = Some d" for t d
  proof -
    obtain pre p post r w' where hist: "ops = pre @ Op_Authorize p # post" "Authorize h a p (after h a wait pre w) = (r, w')"
      "\<forall>z. r = Inr z \<longrightarrow> hashBrowserBinding h (az_BrowserBinding z) = BrowserBindingHash d"
      using snoc.IH [OF st] unfolding issued_def by blast
    then have "ops @ [op] = pre @ Op_Authorize p # (post @ [op])"
      by simp
    with hist(2,3) show ?thesis
      unfolding issued_def by blast
  qed
  show ?case
  proof (cases op)
    case (Op_Authorize p)
    obtain r w' where run: "Authorize h a p ?w = (r, w')"
      by (cases "Authorize h a p ?w")
    then have st: "states w' t = Some d"
      using snoc.prems last Op_Authorize by simp
    from run show ?thesis
    proof (cases rule: Authorize_cases)
      case (kept x)
      then show ?thesis
        using st old by simp
    next
      case (stored t' b)
      show ?thesis
      proof (cases "t = t'")
        case True
        then have "BrowserBindingHash d = hashBrowserBinding h b"
          using stored(1) st by (auto dest: sym)
        then have "\<forall>z. r = Inr z \<longrightarrow> hashBrowserBinding h (az_BrowserBinding z) = BrowserBindingHash d"
          using stored(2) by auto
        moreover have "ops @ [op] = ops @ Op_Authorize p # []"
          using Op_Authorize by simp
        ultimately show ?thesis
          using run unfolding issued_def by blast
      next
        case False
        then show ?thesis
          using stored(1) st old by simp
      qed
    qed
  next
    case (Op_Callback p c t' b)
    obtain r w' where run: "HandleCallback h a p c t' b ?w = (r, w')"
      by (cases "HandleCallback h a p c t' b ?w")
    then have st: "states w' t = Some d"
      using snoc.prems last Op_Callback by simp
    from run show ?thesis
      by (cases rule: HandleCallback_cases) (use st old in \<open>auto split: if_splits\<close>)
  next
    case (Op_Elapse n)
    then have "states (wait n ?w) t = Some d"
      using snoc.prems last by simp
    then have "states ?w t = Some d"
      using assms(1) [of n ?w] by (metis domI map_le_def)
    then show ?thesis
      by (rule old)
  qed
qed

end

section \<open>The wired authenticator\<close>

definition wired_oauth :: "'s redis \<Rightarrow> duration \<Rightarrow> (error \<Rightarrow> any) \<Rightarrow> 's world sink \<Rightarrow> 's world sink \<Rightarrow> 's world sink \<Rightarrow> 's world oauth_provider list \<Rightarrow>
    's world oauth_authenticator" where
  "wired_oauth R cacheTTL errv lg tr mt providers =
     NewOAuthAuthenticator (Some tr) (Some mt) (OAuthStateStore R) (CachedUserStore (wired_users R cacheTTL lg tr) errv) providers"

lemma registry: "fold (\<lambda>p pm. pm(op_Name p \<mapsto> p)) ps m nm = Some p \<Longrightarrow> m nm = Some p \<or> p \<in> set ps \<and> op_Name p = nm"
  by (induction ps arbitrary: m) (fastforce split: if_splits)+

lemma wired_oauth_simps [simp]:
  "au_tracer (wired_oauth R c v lg tr mt ps) = tr" "au_meter (wired_oauth R c v lg tr mt ps) = mt"
  "au_stateRepo (wired_oauth R c v lg tr mt ps) = OAuthStateStore R"
  "au_userRepo (wired_oauth R c v lg tr mt ps) = CachedUserStore (wired_users R c lg tr) v"
  by (simp_all add: wired_oauth_def NewOAuthAuthenticator_def or_noop_def)

lemma wired_oauth_provider:
  "au_providers (wired_oauth R c v lg tr mt ps) nm = Some p \<Longrightarrow> p \<in> set ps \<and> op_Name p = nm"
  using registry [of ps Map.empty nm p] by (simp add: wired_oauth_def NewOAuthAuthenticator_def)

text \<open>The environment: quiet telemetry and providers that reach neither Redis nor the tables.\<close>

locale wired_oauth_auth = wired_user_store R view clock tick tr lg cacheTTL errv
  for R :: "'s redis" and view clock tick tr lg cacheTTL errv +
  fixes mt :: "'s world sink" and providers :: "'s world oauth_provider list" and sha :: "string \<Rightarrow> nat list"
  assumes quiet_meter: "quiet mt"
    and exchange_outside: "p \<in> set providers \<Longrightarrow> op_Exchange p c b w = (ri, w') \<Longrightarrow> kv w' = kv w \<and> db w' = db w"
begin

lemma consume_frame:
  assumes "st_Consume (OAuthStateStore R) t w = (r, w')"
  shows "user_view view w' = user_view view w" "db w' = db w"
proof -
  show "user_view view w' = user_view view w"
    using assms unfolding OAuthStateStore_def oauth_state_repo.simps
    by (cases rule: consumeState_cases) (auto intro: user_view_kv views_other(4))
  have "db w2 = db w1" if "script_call f w1 = (q, w2)" for f :: "'s \<Rightarrow> _" and q w1 w2
    using script_call_frame [OF that] by simp
  then show "db w' = db w"
    using assms unfolding OAuthStateStore_def oauth_state_repo.simps OAuthStateStore_Consume_def
    by (auto elim!: attempt_cases split: sum.splits if_splits)
qed

lemma upsert_states:
  assumes "CachedUserStore_UpsertOAuthUser (wired_users R cacheTTL lg tr) errv info w = (r, w')"
  shows "state_view view w' = state_view view w"
proof -
  have delete: "state_view view w2 = state_view view w1" if "UserCacheStore_DeleteByID R i w1 = (q, w2)" for i q w1 w2
  proof -
    from that obtain q' where "redis_Del R (userKeyPrefix @ Itoa i) w1 = (q', w2)"
      unfolding UserCacheStore_DeleteByID_def Let_def by (auto elim!: attempt_cases)
    then show ?thesis
      by (cases rule: redis_Del_cases) (auto intro: views_other(2) simp: state_view_def fun_eq_iff)
  qed
  have base: "state_view view w2 = state_view view w1" if "UserStore_UpsertOAuthUser tr info w1 = (q, w2)" for q w1 w2
    using store_kv(4) [OF that] by (rule state_view_kv)
  have warn: "state_view view (cache_warning (wired_users R cacheTTL lg tr) errv m i e w1) = state_view view w1" for m i e w1
    using quiet_apply(1) [OF quiet_log] by (intro state_view_kv) (simp add: cache_warning_def Warn_def wired_users_def NewCachedUserStore_def or_noop_def)
  have wired_parts: "ur_UpsertOAuthUser (cus_base (wired_users R cacheTTL lg tr)) = UserStore_UpsertOAuthUser tr"
    "uc_DeleteByID (cus_cache (wired_users R cacheTTL lg tr)) = UserCacheStore_DeleteByID R"
    by (simp_all add: wired_users_def NewCachedUserStore_def UserStore_def UserCacheStore_def)
  from assms show ?thesis
    unfolding CachedUserStore_UpsertOAuthUser_def
    by (auto simp: wired_parts warn dest!: base delete elim!: attempt_cases)
qed

lemma wait_states: "state_view view (advance tick (int d) w) \<subseteq>\<^sub>m state_view view w"
proof -
  have "state_view view (advance tick (int d) w) t = None \<or> state_view view (advance tick (int d) w) t = state_view view w t" for t
    using string_at_advance [of d w] unfolding state_view_def by (metis option.map_disc_iff)
  then show ?thesis
    unfolding map_le_def dom_def by (metis (mono_tags, lifting) mem_Collect_eq)
qed

end

sublocale wired_oauth_auth \<subseteq> auth: oauth_authentication "wired_oauth R cacheTTL errv lg tr mt providers" "state_view view"
    "\<lambda>w. db_ok (db w) \<and> wired.coherent w" "\<lambda>w. accounts_of (db w)" "\<lambda>w. link (db w)" "world_host sha"
proof (intro oauth_authentication.intro oauth_authentication_axioms.intro)
  let ?a = "wired_oauth R cacheTTL errv lg tr mt providers"
  show "oauth_state_repository (au_stateRepo ?a) (state_view view)"
    using oauth_state.oauth_state_repository_axioms by simp
  show "user_repository (au_userRepo ?a) (\<lambda>w. db_ok (db w) \<and> wired.coherent w) (\<lambda>w. accounts_of (db w)) (\<lambda>w. link (db w))"
    using wired.users.user_repository_axioms by simp
next
  fix sk ev w
  assume "sk \<in> {au_tracer (wired_oauth R cacheTTL errv lg tr mt providers), au_meter (wired_oauth R cacheTTL errv lg tr mt providers)}"
  then have sk: "quiet sk"
    using quiet quiet_meter by auto
  show "state_view view (sk ev w) = state_view view w \<and> (db_ok (db (sk ev w)) \<and> wired.coherent (sk ev w)) = (db_ok (db w) \<and> wired.coherent w) \<and>
      accounts_of (db (sk ev w)) = accounts_of (db w) \<and> link (db (sk ev w)) = link (db w)"
    using quiet_apply [OF sk, of ev w] state_view_kv [of "sk ev w" w] user_view_kv [of "sk ev w" w] by (simp add: wired.coherent_def)
next
  fix t w w' and rs :: "error + oauth_state_data option"
  assume "st_Consume (au_stateRepo (wired_oauth R cacheTTL errv lg tr mt providers)) t w = (rs, w')"
  then show "(db_ok (db w') \<and> wired.coherent w') = (db_ok (db w) \<and> wired.coherent w) \<and> accounts_of (db w') = accounts_of (db w) \<and> link (db w') = link (db w)"
    using consume_frame [of t w rs w'] by (simp add: wired.coherent_def)
next
  fix info w w' and ru :: "error + user"
  show "ur_UpsertOAuthUser (au_userRepo (wired_oauth R cacheTTL errv lg tr mt providers)) info w = (ru, w') \<Longrightarrow> state_view view w' = state_view view w"
    using upsert_states [of info w ru w'] by (simp add: CachedUserStore_def)
next
  fix n w w' and rb :: "error + nat list"
  show "Read_random (world_host sha) n w = (rb, w') \<Longrightarrow> state_view view w' = state_view view w"
    using rand_Read_frame [of n w rb w'] by (intro state_view_kv) simp
next
  fix nm p c b w w' and ri :: "error + oauth_user_info"
  assume "au_providers (wired_oauth R cacheTTL errv lg tr mt providers) nm = Some p" "op_Exchange p c b w = (ri, w')"
  then have "kv w' = kv w" "db w' = db w"
    using wired_oauth_provider exchange_outside by blast+
  then show "state_view view w' = state_view view w \<and> (db_ok (db w') \<and> wired.coherent w') = (db_ok (db w) \<and> wired.coherent w) \<and>
      accounts_of (db w') = accounts_of (db w) \<and> link (db w') = link (db w)"
    using state_view_kv [of w' w] user_view_kv [of w' w] by (simp add: wired.coherent_def)
qed

text \<open>A provider that always reports the same user, to run the flow on.\<close>

definition fixed_provider :: "oauth_user_info \<Rightarrow> 'w oauth_provider" where
  "fixed_provider info = \<lparr>op_Name = ''google'', op_AuthCodeURL = (\<lambda>t v. ''https://idp/?state='' @ t), op_Exchange = (\<lambda>c v. return info)\<rparr>"

interpretation ks_oauth: wired_oauth_auth keyspace_redis ks_view ks_clock ks_tick trace_sink trace_sink cacheTTL errv trace_sink
    "[fixed_provider info]" sha for cacheTTL errv info sha
  by unfold_locales (auto simp: fixed_provider_def)

lemma wired_oauth_authI:
  assumes "redis_spec R view clock tick" "quiet tr" "quiet lg" "quiet mt"
    and "\<And>p c b w ri w'. p \<in> set providers \<Longrightarrow> op_Exchange p c b w = (ri, w') \<Longrightarrow> kv w' = kv w \<and> db w' = db w"
  shows "wired_oauth_auth R view clock tick tr lg mt providers"
  using assms by (intro wired_oauth_auth.intro wired_oauth_auth_axioms.intro wired_user_storeI)

context wired_oauth_auth
begin

lemma one_login_each:
  assumes "state_view view w = Map.empty"
  shows "logins (world_host sha) (wired_oauth R cacheTTL errv lg tr mt providers) (\<lambda>d. advance tick (int d)) ops w
     \<le> length [op \<leftarrow> ops. \<exists>p. op = Op_Authorize p]"
  using auth.logins_bound [OF wait_states, where w = w and ops = ops] assms by simp

lemma callback_login:
  assumes "consistent_users view w"
    and "HandleCallback (world_host sha) (wired_oauth R cacheTTL errv lg tr mt providers) nm c t b w = (Inr i, w')"
  obtains p info u w1 w2 where "p \<in> set providers" "op_Name p = nm" "b \<noteq> []"
    "state_view view w t = Some \<lparr>BrowserBindingHash = EncodeToString (sha b)\<rparr>" "state_view view w' = (state_view view w)(t := None)"
    "op_Exchange p c b w1 = (Inr info, w2)" "u \<in> accounts_of (db w')" "CanAuthenticate u"
    "i = \<lparr>ai_UserID = ID u, ai_Email = Email u, ai_Method = MethodOAuth\<rparr>"
    "length nm \<le> 32 \<and> length (oi_ProviderUserID info) \<le> 255 \<longrightarrow> link (db w') (nm, oi_ProviderUserID info) = Some (ID u)"
  using assms(2)
proof (cases rule: auth.HandleCallback_cases)
  case (login p j)
  have "db_ok (db w) \<and> wired.coherent w"
    using assms(1) by (simp add: consistent_coherent)
  then obtain info u w1 w2 where "op_Exchange p c b w1 = (Inr info, w2)" "u \<in> accounts_of (db w')" "CanAuthenticate u"
    "j = \<lparr>ai_UserID = ID u, ai_Email = Email u, ai_Method = MethodOAuth\<rparr>"
    "length nm \<le> 32 \<and> length (oi_ProviderUserID info) \<le> 255 \<longrightarrow> link (db w') (nm, oi_ProviderUserID info) = Some (ID u)"
    using login(6) by blast
  then show thesis
    using that [of p w1 info w2 u] login(1-5) wired_oauth_provider [OF login(2)] by (simp add: hashBrowserBinding_def)
qed simp

lemma callback_issued:
  assumes "state_view view w = Map.empty"
    and "HandleCallback (world_host sha) (wired_oauth R cacheTTL errv lg tr mt providers) nm c t b
           (after (world_host sha) (wired_oauth R cacheTTL errv lg tr mt providers) (\<lambda>d. advance tick (int d)) ops w) = (Inr i, w')"
  shows "\<exists>pre p post r w1. ops = pre @ Op_Authorize p # post \<and>
     Authorize (world_host sha) (wired_oauth R cacheTTL errv lg tr mt providers) p
       (after (world_host sha) (wired_oauth R cacheTTL errv lg tr mt providers) (\<lambda>d. advance tick (int d)) pre w) = (r, w1) \<and>
     (\<forall>z. r = Inr z \<longrightarrow> EncodeToString (sha (az_BrowserBinding z)) = EncodeToString (sha b))"
  using assms(2)
proof (cases rule: auth.HandleCallback_cases)
  case (login p j)
  from auth.states_issued [OF wait_states assms(1) login(4)] show ?thesis
    by (simp add: auth.issued_def hashBrowserBinding_def)
qed simp

end

section \<open>Properties\<close>

text \<open>
  (C11) An authorization is good for at most one login: over any history of authorizations,
  callbacks, delays and lost replies, no more callbacks succeed than authorizations were requested.
\<close>

theorem oauth_single_login:
  assumes "redis_spec R view clock tick" "quiet tr" "quiet lg" "quiet mt"
    and "\<And>p c b w ri w'. p \<in> set providers \<Longrightarrow> op_Exchange p c b w = (ri, w') \<Longrightarrow> kv w' = kv w \<and> db w' = db w"
    and "state_view view w = Map.empty"
  shows "logins (world_host sha) (wired_oauth R cacheTTL errv lg tr mt providers) (\<lambda>d. advance tick (int d)) ops w
     \<le> length [op \<leftarrow> ops. \<exists>p. op = Op_Authorize p]"
  by (rule wired_oauth_auth.one_login_each [OF wired_oauth_authI [OF assms(1-5)] assms(6)])

lemma no_states [simp]: "state_view ks_view (start_world \<lparr>ks_clock = 0, ks_data = (\<lambda>_. None)\<rparr> bs) = Map.empty"
  by (simp add: state_view_def string_at_def start_world_def ks_view_def fun_eq_iff)

definition bob :: oauth_user_info where
  "bob = \<lparr>oi_ProviderUserID = ''1001'', oi_Email = ''b@c.d''\<rparr>"

theorem oauth_single_login_witness:
  "logins (world_host (\<lambda>s. map of_char s)) (wired_oauth keyspace_redis Hour (\<lambda>_. AOther []) trace_sink trace_sink trace_sink [fixed_provider bob])
       (\<lambda>d. advance ks_tick (int d))
       [Op_Authorize ''google'', Op_Callback ''google'' ''c'' ''0a'' ''0b'', Op_Callback ''google'' ''c'' ''0a'' ''0b'']
       (start_world \<lparr>ks_clock = 0, ks_data = (\<lambda>_. None)\<rparr> [[10], [11]]) \<le> 1"
  using oauth_single_login [OF ks.redis_spec_axioms quiet_trace_sink quiet_trace_sink quiet_trace_sink _ no_states,
      of "[fixed_provider bob]" "\<lambda>s. map of_char s" Hour "\<lambda>_. AOther []"
      "[Op_Authorize ''google'', Op_Callback ''google'' ''c'' ''0a'' ''0b'', Op_Callback ''google'' ''c'' ''0a'' ''0b'']" "[[10], [11]]"]
  by (simp add: fixed_provider_def)

text \<open>
  (C12) A callback succeeds only when the state is pending with the hash of the presented browser
  binding, and uses the state up; the registered provider accepted the code with that binding as
  verifier, and the identity is that of an active user on record, the one the provider's subject is
  linked to (when the subject fits its column).
\<close>

theorem oauth_callback_sound:
  assumes "redis_spec R view clock tick" "quiet tr" "quiet lg" "quiet mt"
    and "\<And>p c b w ri w'. p \<in> set providers \<Longrightarrow> op_Exchange p c b w = (ri, w') \<Longrightarrow> kv w' = kv w \<and> db w' = db w"
    and "consistent_users view w"
    and "HandleCallback (world_host sha) (wired_oauth R cacheTTL errv lg tr mt providers) provider code state binding w = (Inr i, w')"
  shows "state_view view w state = Some \<lparr>BrowserBindingHash = EncodeToString (sha binding)\<rparr> \<and>
    state_view view w' = (state_view view w)(state := None) \<and>
    (\<exists>p info u w1 w2. p \<in> set providers \<and> op_Name p = provider \<and> op_Exchange p code binding w1 = (Inr info, w2) \<and>
       u \<in> accounts_of (db w') \<and> CanAuthenticate u \<and> i = \<lparr>ai_UserID = ID u, ai_Email = Email u, ai_Method = MethodOAuth\<rparr> \<and>
       (length provider \<le> 32 \<and> length (oi_ProviderUserID info) \<le> 255 \<longrightarrow>
          link (db w') (provider, oi_ProviderUserID info) = Some (ID u)))"
  by (rule wired_oauth_auth.callback_login [OF wired_oauth_authI [OF assms(1-5)] assms(6,7)]) auto

lemmas run_oauth = HandleCallback_def redeem_state_def login_with_def wired_oauth_def NewOAuthAuthenticator_def fixed_provider_def
  OAuthStateStore_def OAuthStateStore_Consume_def consumeOAuthStateScript_def script_call_def reply_Text_def hashBrowserBinding_def
  oauthStateKeyPrefix_def CanAuthenticate_def EncodeToString_def hex_digit_def

definition pending_state :: "keyspace world" where
  "pending_state = start_world \<lparr>ks_clock = 0, ks_data = [''oauth_state:0a'' \<mapsto> (RString ''31'', Some 60000)]\<rparr> []"

theorem oauth_callback_sound_witness:
  "\<exists>i w'. HandleCallback (world_host (\<lambda>s. map of_char s))
        (wired_oauth keyspace_redis Hour (\<lambda>_. AOther []) trace_sink trace_sink trace_sink [fixed_provider bob]) ''google'' ''c'' ''0a'' ''1'' pending_state
      = (Inr i, w') \<and> state_view ks_view w' = (state_view ks_view pending_state)(''0a'' := None)"
proof -
  let ?a = "wired_oauth keyspace_redis Hour (\<lambda>_. AOther []) trace_sink trace_sink trace_sink [fixed_provider bob]"
  obtain i w' where run: "HandleCallback (world_host (\<lambda>s. map of_char s)) ?a ''google'' ''c'' ''0a'' ''1'' pending_state = (Inr i, w')"
    by (simp add: run_oauth run_user_repo pending_state_def bob_def ks_view_def ks_put_def Let_def)
  have "consistent_users ks_view pending_state"
    by (auto simp: consistent_users_def pending_state_def start_world_def db_ok_def user_view_def string_at_def ks_view_def userKeyPrefix_def)
  then show ?thesis
    using oauth_callback_sound [OF ks.redis_spec_axioms quiet_trace_sink quiet_trace_sink quiet_trace_sink _ _ run] run
    by (auto simp: fixed_provider_def)
qed


lemmas run_authorize = Authorize_def GenerateToken_def rand_Read_def OAuthStateStore_Store_def redis_Set_def redis_ttl_def BrowserBindingTTL_def
  Milliseconds_def quot_trunc_def


text \<open>
  A login with Google needs a verified address: the exchange of the Google provider succeeds
  only when the token endpoint accepted code and verifier, the user-info endpoint answered 200, and
  the answer names a subject, an address and the address as verified; these are what the login uses.
\<close>

theorem google_identity_verified:
  "google_Exchange lib cfg code verifier w = (Inr info, w') \<longleftrightarrow>
     (\<exists>token w1 body ms rest. o2_Exchange lib cfg code verifier w = (Inr token, w1) \<and>
        o2_Get lib cfg token userInfoURL w1 = (Inr (200, body), w') \<and> decode_object body = Some (ms, rest) \<and>
        string_member ''id'' ms = Some (oi_ProviderUserID info) \<and> oi_ProviderUserID info \<noteq> [] \<and>
        string_member ''email'' ms = Some (oi_Email info) \<and> oi_Email info \<noteq> [] \<and> bool_member ''verified_email'' ms = Some True)"
proof -
  have parse: "parseUserInfo body = Inr info \<longleftrightarrow> (\<exists>ms rest. decode_object body = Some (ms, rest) \<and>
      string_member ''id'' ms = Some (oi_ProviderUserID info) \<and> oi_ProviderUserID info \<noteq> [] \<and>
      string_member ''email'' ms = Some (oi_Email info) \<and> oi_Email info \<noteq> [] \<and> bool_member ''verified_email'' ms = Some True)" for body
    by (cases info) (auto simp: parseUserInfo_def split: option.splits if_splits)
  have get: "(case x of (status, body) \<Rightarrow> if status \<noteq> 200 then fail (Msg (''google user info returned '' @ Itoa status @ '': '' @ body))
      else (case parseUserInfo body of Inl e \<Rightarrow> fail e | Inr info \<Rightarrow> return info)) w2 = (Inr info, w') \<longleftrightarrow>
      (\<exists>body. x = (200, body) \<and> parseUserInfo body = Inr info \<and> w2 = w')" for x w2
    by (cases x) (auto split: sum.splits)
  show ?thesis
    unfolding google_Exchange_def
  proof
    assume "attempt (o2_Exchange lib cfg code verifier) (\<lambda>e. fail (Errorf ''exchange oauth code'' e))
       (\<lambda>token. attempt (o2_Get lib cfg token userInfoURL) (\<lambda>e. fail (Errorf ''fetch google user info'' e))
          (\<lambda>(status, body). if status \<noteq> 200 then fail (Msg (''google user info returned '' @ Itoa status @ '': '' @ body))
             else (case parseUserInfo body of Inl e \<Rightarrow> fail e | Inr info \<Rightarrow> return info))) w = (Inr info, w')"
    then show "\<exists>token w1 body ms rest. o2_Exchange lib cfg code verifier w = (Inr token, w1) \<and>
        o2_Get lib cfg token userInfoURL w1 = (Inr (200, body), w') \<and> decode_object body = Some (ms, rest) \<and>
        string_member ''id'' ms = Some (oi_ProviderUserID info) \<and> oi_ProviderUserID info \<noteq> [] \<and>
        string_member ''email'' ms = Some (oi_Email info) \<and> oi_Email info \<noteq> [] \<and> bool_member ''verified_email'' ms = Some True"
      by (elim attempt_fail_Inr) (simp only: get parse, blast)
  qed (cases info, auto simp: attempt_def parseUserInfo_def)
qed

end
