(* ===== verification/Http_Handlers.thy ===== *)
theory Http_Handlers
  imports Http_Middleware Binding Auth_OTP Auth_OAuth
begin

text \<open>
  \<^verbatim>\<open>internal/delivery/http/handler\<close>: the authentication and health endpoints. What Echo's binder
  and the validator make of a request is a parameter; the normalisation of the bound strings is that
  of \<open>Binding\<close> under the tags of the generated request types. The results: a session cookie is set
  only by a login that succeeded, and then for the session of that login; the identity shown to a
  client is one a session was created for; logging out always removes the cookie.
\<close>

section \<open>Bound requests\<close>

definition email_tags :: tags where
  "email_tags = \<lparr>tag_trim = [], tag_case = ''lower''\<rparr>"

definition code_tags :: tags where
  "code_tags = \<lparr>tag_trim = [], tag_case = ''upper''\<rparr>"

definition plain_tags :: tags where
  "plain_tags = \<lparr>tag_trim = [], tag_case = []\<rparr>"

text \<open>The requests as the inner binder fills them, and as the normalising binder leaves them.\<close>

record forms =
  fm_OTPSendRequest :: "exchange \<Rightarrow> error + string"
  fm_OTPVerifyRequest :: "exchange \<Rightarrow> error + string \<times> string"
  fm_OauthCallbackParams :: "exchange \<Rightarrow> error + string \<times> string"
  fm_HealthParams :: "exchange \<Rightarrow> error + string option"
  fm_validate_send :: "string \<Rightarrow> error option"
  fm_validate_verify :: "string \<times> string \<Rightarrow> error option"
  fm_validate_callback :: "string \<times> string \<Rightarrow> error option"
  fm_validate_health :: "string option \<Rightarrow> error option"

definition bind_send :: "forms \<Rightarrow> exchange \<Rightarrow> error + string" where
  "bind_send f x = map_sum id (normalizeString email_tags) (fm_OTPSendRequest f x)"

definition bind_verify :: "forms \<Rightarrow> exchange \<Rightarrow> error + string \<times> string" where
  "bind_verify f x = map_sum id (\<lambda>(code, email). (normalizeString code_tags code, normalizeString email_tags email)) (fm_OTPVerifyRequest f x)"

definition bind_callback :: "forms \<Rightarrow> exchange \<Rightarrow> error + string \<times> string" where
  "bind_callback f x = map_sum id (\<lambda>(code, state). (normalizeString plain_tags code, normalizeString plain_tags state)) (fm_OauthCallbackParams f x)"

definition bind_health :: "forms \<Rightarrow> exchange \<Rightarrow> error + string option" where
  "bind_health f x = map_sum id (map_option (normalizeString plain_tags)) (fm_HealthParams f x)"

text \<open>That is what the general normalisation does to structs with these fields.\<close>

lemma bind_verify_struct:
  "normalizeStruct (GStruct [(code_tags, True, GString c), (email_tags, True, GString e)]) =
     GStruct [(code_tags, True, GString (normalizeString code_tags c)), (email_tags, True, GString (normalizeString email_tags e))]"
  by simp

lemma bind_health_struct:
  "normalizeStruct (GStruct [(plain_tags, True, GPointer (map_option GString c))]) =
     GStruct [(plain_tags, True, GPointer (map_option (GString \<circ> normalizeString plain_tags) c))]"
  by (cases c) simp_all

section \<open>Handlers\<close>

text \<open>
  A handler opens a span, and closes it on the way out with the error it noted; the body returns what
  the handler returns and that error.
\<close>

type_synonym 'w body = "'w \<times> exchange \<Rightarrow> (hres \<times> error option) \<times> 'w \<times> exchange"

definition handler_span :: "'w sink \<Rightarrow> string \<Rightarrow> 'w body \<Rightarrow> 'w http" where
  "handler_span tr name body = (\<lambda>(w, x).
     case body (tr (SpanStart SpanInternal ''handler'' name None) w, x) of
       ((r, spanErr), w', x') \<Rightarrow> (r, tr (SpanFinish spanErr None) w', x'))"

definition reply :: "'w \<Rightarrow> error option \<Rightarrow> error option \<times> exchange \<Rightarrow> (hres \<times> error option) \<times> 'w \<times> exchange" where
  "reply w spanErr r = ((Done (fst r), spanErr), w, snd r)"

record 'w auth_handler =
  ah_logger :: "'w sink"
  ah_tracer :: "'w sink"
  ah_SendCode :: "string \<Rightarrow> ('w, unit) eff"
  ah_VerifyCode :: "string \<Rightarrow> string \<Rightarrow> ('w, auth_identity) eff"
  ah_Authorize :: "string \<Rightarrow> ('w, authorization) eff"
  ah_HandleCallback :: "string \<Rightarrow> string \<Rightarrow> string \<Rightarrow> string \<Rightarrow> ('w, auth_identity) eff"
  ah_Create :: "auth_identity \<Rightarrow> ('w, auth_session) eff"
  ah_Validate :: "string \<Rightarrow> ('w, auth_session) eff"
  ah_Revoke :: "string \<Rightarrow> ('w, unit) eff"
  ah_cookieName :: string
  ah_cookieSecure :: bool
  ah_cookieTTL :: duration

text \<open>\<^verbatim>\<open>int(d.Seconds())\<close>: whole seconds, towards zero.\<close>

definition whole_seconds :: "duration \<Rightarrow> int" where
  "whole_seconds d = quot_trunc d Second"

abbreviation oauthBrowserBindingCookieName :: string where "oauthBrowserBindingCookieName \<equiv> ''oauth_browser_binding''"

definition sessionCookie :: "'w auth_handler \<Rightarrow> string \<Rightarrow> int \<Rightarrow> cookie" where
  "sessionCookie h value age = \<lparr>ck_Name = ah_cookieName h, ck_Value = value, ck_Path = ''/'', ck_MaxAge = age, ck_HttpOnly = True,
     ck_Secure = ah_cookieSecure h, ck_SameSite = SameSiteLax\<rparr>"

definition setSessionCookie :: "'w auth_handler \<Rightarrow> string \<Rightarrow> exchange \<Rightarrow> exchange" where
  "setSessionCookie h token = tell (SetCookie (sessionCookie h token (whole_seconds (ah_cookieTTL h))))"

definition clearSessionCookie :: "'w auth_handler \<Rightarrow> exchange \<Rightarrow> exchange" where
  "clearSessionCookie h = tell (SetCookie (sessionCookie h [] (- 1)))"

definition bindingCookie :: "'w auth_handler \<Rightarrow> string \<Rightarrow> int \<Rightarrow> cookie" where
  "bindingCookie h value age = \<lparr>ck_Name = oauthBrowserBindingCookieName, ck_Value = value, ck_Path = ''/auth/oauth/'', ck_MaxAge = age,
     ck_HttpOnly = True, ck_Secure = ah_cookieSecure h, ck_SameSite = SameSiteLax\<rparr>"

definition setOAuthBrowserBindingCookie :: "'w auth_handler \<Rightarrow> string \<Rightarrow> exchange \<Rightarrow> exchange" where
  "setOAuthBrowserBindingCookie h binding = tell (SetCookie (bindingCookie h binding (whole_seconds BrowserBindingTTL)))"

definition clearOAuthBrowserBindingCookie :: "'w auth_handler \<Rightarrow> exchange \<Rightarrow> exchange" where
  "clearOAuthBrowserBindingCookie h = tell (SetCookie (bindingCookie h [] (- 1)))"

definition SendOTP_handler :: "forms \<Rightarrow> 'w auth_handler \<Rightarrow> 'w http" where
  "SendOTP_handler f h = handler_span (ah_tracer h) ''auth_handler.send_otp'' (\<lambda>(w, x).
     case bind_send f x of
       Inl e \<Rightarrow> reply w (Some e) (InvalidQuery e ''invalid request body'' [] x)
     | Inr email \<Rightarrow> (case fm_validate_send f email of
          Some e \<Rightarrow> reply w (Some e) (InvalidQuery e ''validation failed'' [] x)
        | None \<Rightarrow> (case ah_SendCode h email w of
             (Inl e, w') \<Rightarrow> reply w' (Some e) (resp_AppError e x)
           | (Inr _, w') \<Rightarrow> reply w' None (resp_Success 200 (MessageResponse ''otp code sent'') x))))"

definition VerifyOTP :: "forms \<Rightarrow> 'w auth_handler \<Rightarrow> 'w http" where
  "VerifyOTP f h = handler_span (ah_tracer h) ''auth_handler.verify_otp'' (\<lambda>(w, x).
     case bind_verify f x of
       Inl e \<Rightarrow> reply w (Some e) (InvalidQuery e ''invalid request body'' [] x)
     | Inr (code, email) \<Rightarrow> (case fm_validate_verify f (code, email) of
          Some e \<Rightarrow> reply w (Some e) (InvalidQuery e ''validation failed'' [] x)
        | None \<Rightarrow> (case ah_VerifyCode h email code w of
             (Inl e, w1) \<Rightarrow> reply w1 (Some e) (resp_AppError e x)
           | (Inr i, w1) \<Rightarrow> (case ah_Create h i w1 of
                (Inl e, w2) \<Rightarrow> reply w2 (Some e) (resp_AppError e x)
              | (Inr s, w2) \<Rightarrow> reply w2 None
                  (resp_Success 200 (AuthResponse (ai_UserID i) (ai_Email i)) (setSessionCookie h (as_Token s) x))))))"

text \<open>\<^verbatim>\<open>c.Param\<close>: the empty string when the route has no such parameter.\<close>

definition c_Param :: "exchange \<Rightarrow> string \<Rightarrow> string" where
  "c_Param x name = (case map_of (rq_params x) name of None \<Rightarrow> [] | Some v \<Rightarrow> v)"

definition OAuthAuthorize :: "'w auth_handler \<Rightarrow> 'w http" where
  "OAuthAuthorize h = handler_span (ah_tracer h) ''auth_handler.oauth_authorize'' (\<lambda>(w, x).
     case ah_Authorize h (c_Param x ''provider'') w of
       (Inl e, w') \<Rightarrow> reply w' (Some e) (resp_AppError e x)
     | (Inr z, w') \<Rightarrow> reply w' None (put_out (WriteRedirect 302 (az_RedirectURL z)) (setOAuthBrowserBindingCookie h (az_BrowserBinding z) x)))"

definition OAuthCallback :: "forms \<Rightarrow> 'w auth_handler \<Rightarrow> 'w http" where
  "OAuthCallback f h = handler_span (ah_tracer h) ''auth_handler.oauth_callback'' (\<lambda>(w, x).
     case bind_callback f x of
       Inl e \<Rightarrow> reply w (Some e) (InvalidQuery e ''invalid callback parameters'' [] x)
     | Inr (code, state) \<Rightarrow> (case fm_validate_callback f (code, state) of
          Some e \<Rightarrow> reply w (Some e) (InvalidQuery e ''validation failed'' [] x)
        | None \<Rightarrow>
            let r = c_Cookie x oauthBrowserBindingCookieName in
            if isl r \<or> projr r = [] then
              (let e = New CodeUnauthorized ''oauth browser binding is missing or expired'' [] in reply w (Some e) (resp_AppError e x))
            else (case ah_HandleCallback h (c_Param x ''provider'') code state (projr r) w of
               (Inl e, w1) \<Rightarrow> reply w1 (Some e) (resp_AppError e (clearOAuthBrowserBindingCookie h x))
             | (Inr i, w1) \<Rightarrow> (case ah_Create h i w1 of
                  (Inl e, w2) \<Rightarrow> reply w2 (Some e) (resp_AppError e (clearOAuthBrowserBindingCookie h x))
                | (Inr s, w2) \<Rightarrow> reply w2 None
                    (resp_Success 200 (AuthResponse (ai_UserID i) (ai_Email i))
                       (clearOAuthBrowserBindingCookie h (setSessionCookie h (as_Token s) x)))))))"

definition Logout :: "(error \<Rightarrow> any) \<Rightarrow> 'w auth_handler \<Rightarrow> 'w http" where
  "Logout errv h = handler_span (ah_tracer h) ''auth_handler.logout'' (\<lambda>(w, x).
     let w' = (case c_Cookie x (ah_cookieName h) of
                 Inl _ \<Rightarrow> w
               | Inr token \<Rightarrow> (case ah_Revoke h token w of
                    (Inl e, w1) \<Rightarrow> Warn (ah_logger h) ''session revoke on logout failed'' (FromPairs [AString ''error'', errv e]) w1
                  | (Inr _, w1) \<Rightarrow> w1))
     in reply w' None (resp_Success 200 (MessageResponse ''logged out'') (clearSessionCookie h x)))"

definition Me :: "'w auth_handler \<Rightarrow> 'w http" where
  "Me h = handler_span (ah_tracer h) ''auth_handler.me'' (\<lambda>(w, x).
     reply w None (case SessionFromContext x of
        None \<Rightarrow> resp_Success 200 (AuthResponse 0 []) x
      | Some s \<Rightarrow> resp_Success 200 (AuthResponse (si_UserID s) (si_Email s)) x))"

text \<open>\<^verbatim>\<open>RegisterRoutes\<close>: method, path and handler, the last one behind the session gate.\<close>

definition auth_routes :: "(error \<Rightarrow> any) \<Rightarrow> forms \<Rightarrow> 'w auth_handler \<Rightarrow> (string \<times> string \<times> 'w http) list" where
  "auth_routes errv f h =
     [(''POST'', ''/auth/otp/send'', SendOTP_handler f h),
      (''POST'', ''/auth/otp/verify'', VerifyOTP f h),
      (''GET'', ''/auth/oauth/:provider/authorize'', OAuthAuthorize h),
      (''GET'', ''/auth/oauth/:provider/callback'', OAuthCallback f h),
      (''POST'', ''/auth/logout'', Logout errv h),
      (''GET'', ''/auth/me'', session_gate (ah_Validate h) (ah_cookieName h) (Me h))]"

section \<open>Health endpoints\<close>

record 'w health_handler =
  hh_logger :: "'w sink"
  hh_tracer :: "'w sink"
  hh_Check :: "string \<Rightarrow> ('w, health_result) check"

definition check_mode :: "string option \<Rightarrow> string" where
  "check_mode c = (case ParseCheckMode (case c of None \<Rightarrow> [] | Some s \<Rightarrow> s) of Inl _ \<Rightarrow> [] | Inr m \<Rightarrow> m)"

definition GetHealth :: "forms \<Rightarrow> 'w health_handler \<Rightarrow> 'w http" where
  "GetHealth f h = handler_span (hh_tracer h) ''health_handler.get_health'' (\<lambda>(w, x).
     case bind_health f x of
       Inl e \<Rightarrow> reply w (Some e) (InvalidQuery e ''invalid query parameters'' [] x)
     | Inr c \<Rightarrow> (case fm_validate_health f c of
          Some e \<Rightarrow> reply w (Some e) (InvalidQuery e ''invalid query parameters'' [] x)
        | None \<Rightarrow> (case hh_Check h (check_mode c) w of
             (Inl (res, e), w') \<Rightarrow> (case As e of
                  Some a \<Rightarrow> if Code a = CodeUnavailable then reply w' (Some e) (AppErrorWithPayload e (HealthResponse res) x)
                            else reply w' (Some e) (resp_AppError e x)
                | None \<Rightarrow> reply w' (Some e) (resp_AppError e x))
           | (Inr res, w') \<Rightarrow> reply w' None (resp_Success 200 (HealthResponse res) x))))"

definition emitHealth :: "(error \<Rightarrow> any) \<Rightarrow> 'w health_handler \<Rightarrow> string \<Rightarrow> 'w \<times> exchange \<Rightarrow> bool \<times> 'w \<times> exchange" where
  "emitHealth errv h mode = (\<lambda>(w, x).
     case (case hh_Check h mode w of
             (Inl (res, e), w') \<Rightarrow> (res, Warn (hh_logger h) ''health stream check failed'' (FromPairs [AString ''error'', errv e]) w')
           | (Inr res, w') \<Rightarrow> (res, w')) of (res, w1) \<Rightarrow>
       (case SSE_Event ''health'' res x of
          (Some e, x') \<Rightarrow> (False, Warn (hh_logger h) ''write health stream event failed'' (FromPairs [AString ''error'', errv e]) w1, x')
        | (None, x') \<Rightarrow> (True, w1, x')))"

text \<open>
  The select loop, over the ticks that arrive before the stream's context ends: checks and heartbeats
  in any order. The context always ends, at the latest after the maximal duration.
\<close>

datatype stream_tick = CheckTick | HeartbeatTick

fun stream_loop :: "(error \<Rightarrow> any) \<Rightarrow> 'w health_handler \<Rightarrow> string \<Rightarrow> stream_tick list \<Rightarrow> 'w \<times> exchange \<Rightarrow> 'w \<times> exchange" where
  "stream_loop errv h mode [] s = s"
| "stream_loop errv h mode (CheckTick # ts) s =
     (case emitHealth errv h mode s of (ok, s') \<Rightarrow> if ok then stream_loop errv h mode ts s' else s')"
| "stream_loop errv h mode (HeartbeatTick # ts) (w, x) =
     (case SSE_Comment ''keep-alive'' x of
        (Some e, x') \<Rightarrow> (Warn (hh_logger h) ''write health stream keep-alive failed'' (FromPairs [AString ''error'', errv e]) w, x')
      | (None, x') \<Rightarrow> stream_loop errv h mode ts (w, x'))"

definition StreamHealth :: "(error \<Rightarrow> any) \<Rightarrow> forms \<Rightarrow> 'w health_handler \<Rightarrow> stream_tick list \<Rightarrow> 'w http" where
  "StreamHealth errv f h ticks = handler_span (hh_tracer h) ''health_handler.stream_health'' (\<lambda>(w, x).
     case bind_health f x of
       Inl e \<Rightarrow> reply w (Some e) (InvalidQuery e ''invalid query parameters'' [] x)
     | Inr c \<Rightarrow> (case fm_validate_health f c of
          Some e \<Rightarrow> reply w (Some e) (InvalidQuery e ''invalid query parameters'' [] x)
        | None \<Rightarrow> (case StartSSE x of
             (Inl p, x') \<Rightarrow> ((Panicked p, None), w, x')
           | (Inr (Inl e), x') \<Rightarrow> reply w (Some e) (resp_AppError e x')
           | (Inr (Inr _), x') \<Rightarrow>
               (case emitHealth errv h (check_mode c) (w, x') of (ok, s1) \<Rightarrow>
                  let s2 = (if ok then stream_loop errv h (check_mode c) ticks s1 else s1)
                  in ((Done None, None), s2)))))"

section \<open>Lemmas\<close>

lemma InvalidQuery_calls [simp]:
  "rs_calls (snd (InvalidQuery e m ds x)) = rs_calls x @ [WriteJSON 400 (ErrorPayload CodeInvalidQuery m)]"
  by (simp add: InvalidQuery_def writeError_def recordErrorOutcome_def)

lemma resp_Success_calls [simp]: "rs_calls (snd (resp_Success st p x)) = rs_calls x @ [WriteJSON st p]"
  by (simp add: resp_Success_def)

lemma resp_AppError_no_cookie: "\<exists>c. rs_calls (snd (resp_AppError e x)) = rs_calls x @ [c] \<and> (\<forall>k. c \<noteq> SetCookie k) \<and> (\<forall>u m. c \<noteq> WriteJSON 200 (AuthResponse u m))"
  by (simp add: resp_AppError_calls)

lemma cookie_calls [simp]:
  "rs_calls (setSessionCookie h t x) = rs_calls x @ [SetCookie (sessionCookie h t (whole_seconds (ah_cookieTTL h)))]"
  "rs_calls (clearSessionCookie h x) = rs_calls x @ [SetCookie (sessionCookie h [] (- 1))]"
  "rs_calls (setOAuthBrowserBindingCookie h b x) = rs_calls x @ [SetCookie (bindingCookie h b (whole_seconds BrowserBindingTTL))]"
  "rs_calls (clearOAuthBrowserBindingCookie h x) = rs_calls x @ [SetCookie (bindingCookie h [] (- 1))]"
  by (simp_all add: setSessionCookie_def clearSessionCookie_def setOAuthBrowserBindingCookie_def clearOAuthBrowserBindingCookie_def)

lemma handler_span_run:
  assumes "handler_span tr name body (w, x) = (r, w', x')"
  obtains s w1 where "body (tr (SpanStart SpanInternal ''handler'' name None) w, x) = ((r, s), w1, x')" "w' = tr (SpanFinish s None) w1"
  using assms by (auto simp: handler_span_def split: prod.splits)

text \<open>A verification request: refused with one response and no cookie, or a login.\<close>

lemma VerifyOTP_cases:
  assumes "VerifyOTP f h (w, x) = (r, w', x')"
  obtains (refused) c where "rs_calls x' = rs_calls x @ [c]" "\<And>k. c \<noteq> SetCookie k" "\<And>u m. c \<noteq> WriteJSON 200 (AuthResponse u m)"
    | (login) code email i s w2 w3 where "bind_verify f x = Inr (code, email)" "fm_validate_verify f (code, email) = None"
        "ah_VerifyCode h email code (ah_tracer h (SpanStart SpanInternal ''handler'' ''auth_handler.verify_otp'' None) w) = (Inr i, w2)"
        "ah_Create h i w2 = (Inr s, w3)" "w' = ah_tracer h (SpanFinish None None) w3"
        "rs_calls x' = rs_calls x @ [SetCookie (sessionCookie h (as_Token s) (whole_seconds (ah_cookieTTL h))),
           WriteJSON 200 (AuthResponse (ai_UserID i) (ai_Email i))]"
proof -
  let ?w = "ah_tracer h (SpanStart SpanInternal ''handler'' ''auth_handler.verify_otp'' None) w"
  obtain s w1 where body: "(case bind_verify f x of
       Inl e \<Rightarrow> reply ?w (Some e) (InvalidQuery e ''invalid request body'' [] x)
     | Inr (code, email) \<Rightarrow> (case fm_validate_verify f (code, email) of
          Some e \<Rightarrow> reply ?w (Some e) (InvalidQuery e ''validation failed'' [] x)
        | None \<Rightarrow> (case ah_VerifyCode h email code ?w of
             (Inl e, w1) \<Rightarrow> reply w1 (Some e) (resp_AppError e x)
           | (Inr i, w1) \<Rightarrow> (case ah_Create h i w1 of
                (Inl e, w2) \<Rightarrow> reply w2 (Some e) (resp_AppError e x)
              | (Inr s, w2) \<Rightarrow> reply w2 None
                  (resp_Success 200 (AuthResponse (ai_UserID i) (ai_Email i)) (setSessionCookie h (as_Token s) x)))))) = ((r, s), w1, x')"
    and w': "w' = ah_tracer h (SpanFinish s None) w1"
    using assms unfolding VerifyOTP_def by (elim handler_span_run) (auto simp only: prod.case)
  have invalid: thesis if "x' = snd (InvalidQuery e m [] x)" for e m
    using that by (intro refused) auto
  have app: thesis if "x' = snd (resp_AppError e x)" for e
    using that resp_AppError_no_cookie [of e x] refused by blast
  show thesis
  proof (cases "bind_verify f x")
    case (Inl e)
    then show thesis
      using body invalid by (auto simp: reply_def)
  next
    case (Inr p)
    obtain code email where p: "p = (code, email)"
      by (cases p)
    show thesis
    proof (cases "fm_validate_verify f (code, email)")
      case (Some e)
      then show thesis
        using body Inr p invalid by (auto simp: reply_def)
    next
      case None
      obtain q w2 where verify: "ah_VerifyCode h email code ?w = (q, w2)"
        by (cases "ah_VerifyCode h email code ?w")
      show thesis
      proof (cases q)
        case (Inl e)
        then show thesis
          using body Inr p None verify app by (auto simp: reply_def)
      next
        case (Inr i)
        obtain q2 w3 where create: "ah_Create h i w2 = (q2, w3)"
          by (cases "ah_Create h i w2")
        show thesis
        proof (cases q2)
          case (Inl e)
          then show thesis
            using body \<open>bind_verify f x = Inr p\<close> p None verify Inr create app by (auto simp: reply_def)
        next
          case (Inr s2)
          have "x' = snd (resp_Success 200 (AuthResponse (ai_UserID i) (ai_Email i)) (setSessionCookie h (as_Token s2) x))" "w1 = w3" "s = None"
            using body \<open>bind_verify f x = Inr p\<close> p None verify \<open>q = Inr i\<close> create Inr by (auto simp: reply_def)
          then show thesis
            using login \<open>bind_verify f x = Inr p\<close> p None verify \<open>q = Inr i\<close> create Inr w' by simp
        qed
      qed
    qed
  qed
qed

text \<open>The protected endpoint: refused, or shown the session that was validated.\<close>

lemma me_cases:
  assumes "session_gate (ah_Validate h) (ah_cookieName h) (Me h) (w, x) = (r, w', x')"
  obtains (refused) c where "rs_calls x' = rs_calls x @ [c]" "\<And>u m. c \<noteq> WriteJSON 200 (AuthResponse u m)"
    | (shown) token s w1 where "map_of (rq_cookies x) (ah_cookieName h) = Some token" "token \<noteq> []" "ah_Validate h token w = (Inr s, w1)"
        "rs_calls x' = rs_calls x @ [WriteJSON 200 (AuthResponse (as_UserID s) (as_Email s))]"
proof (cases "c_Cookie x (ah_cookieName h)")
  case (Inl e)
  have "x' = snd (resp_Error (Some e) ''UNAUTHORIZED'' ''authentication required'' [] x)"
    using assms Inl by (simp add: session_gate_def split: prod.splits)
  then show thesis
    by (intro refused) auto
next
  case (Inr token)
  then have cookie: "map_of (rq_cookies x) (ah_cookieName h) = Some token"
    by (simp add: c_Cookie_def split: option.splits)
  show thesis
  proof (cases "token = []")
    case True
    have "x' = snd (resp_Error None ''UNAUTHORIZED'' ''authentication required'' [] x)"
      using assms Inr True by (simp add: session_gate_def split: prod.splits)
    then show thesis
      by (intro refused) auto
  next
    case False
    obtain q w1 where val: "ah_Validate h token w = (q, w1)"
      by (cases "ah_Validate h token w")
    show thesis
    proof (cases q)
      case (Inl e)
      have "x' = snd (resp_AppError e x)"
        using assms Inr False val Inl by (simp add: session_gate_def split: prod.splits)
      then show thesis
        using resp_AppError_no_cookie [of e x] refused by blast
    next
      case (Inr s)
      have "x' = snd (resp_Success 200 (AuthResponse (as_UserID s) (as_Email s))
          (SetSessionContext x \<lparr>si_UserID = as_UserID s, si_Email = as_Email s, si_Method = as_Method s\<rparr>))"
        using assms \<open>c_Cookie x (ah_cookieName h) = Inr token\<close> False val Inr
        by (simp add: session_gate_def Me_def handler_span_def reply_def SessionFromContext_def SetSessionContext_def split: prod.splits)
      then show thesis
        using shown [OF cookie False] val Inr by (simp add: SetSessionContext_def)
    qed
  qed
qed

section \<open>The wired handler\<close>

definition NewAuthHandler :: "'w sink \<Rightarrow> 'w sink option \<Rightarrow> 'w host \<Rightarrow> (error \<Rightarrow> any) \<Rightarrow> 'w otp_authenticator \<Rightarrow> 'w oauth_authenticator \<Rightarrow>
    'w session_manager \<Rightarrow> string \<Rightarrow> bool \<Rightarrow> duration \<Rightarrow> 'w auth_handler" where
  "NewAuthHandler lg tr h errv otp oauth m cookieName secure ttl =
     \<lparr>ah_logger = lg, ah_tracer = or_noop tr, ah_SendCode = SendCode h otp errv, ah_VerifyCode = VerifyCode h otp,
      ah_Authorize = Authorize h oauth, ah_HandleCallback = HandleCallback h oauth, ah_Create = session_Create h m,
      ah_Validate = session_Validate h m errv, ah_Revoke = session_Revoke m, ah_cookieName = cookieName, ah_cookieSecure = secure,
      ah_cookieTTL = ttl\<rparr>"

lemma NewAuthHandler_simps [simp]:
  "ah_tracer (NewAuthHandler lg (Some tr) h errv otp oauth m n b ttl) = tr"
  "ah_VerifyCode (NewAuthHandler lg tr' h errv otp oauth m n b ttl) = VerifyCode h otp"
  "ah_Create (NewAuthHandler lg tr' h errv otp oauth m n b ttl) = session_Create h m"
  "ah_Validate (NewAuthHandler lg tr' h errv otp oauth m n b ttl) = session_Validate h m errv"
  "ah_cookieName (NewAuthHandler lg tr' h errv otp oauth m n b ttl) = n"
  "ah_cookieTTL (NewAuthHandler lg tr' h errv otp oauth m n b ttl) = ttl"
  by (simp_all add: NewAuthHandler_def or_noop_def)

lemma session_Create_db:
  assumes "quiet tr" "quiet lg" "quiet mt" "session_Create (world_host sha) (wired_sessions R tr lg mt ttl) i w = (q, w')"
  shows "db w' = db w"
proof -
  have token: "db w2 = db w1" if "GenerateToken (world_host sha) n w1 = (q, w2)" for n and w1 w2 :: "'a world" and q
    using that by (auto simp: GenerateToken_def dest: rand_Read_frame elim!: attempt_cases)
  have store: "db w2 = db w1" if "SessionStore_Create R d t w1 = (q, w2)" for d t and w1 w2 :: "'a world" and q
    using that by (auto simp: SessionStore_Create_def dest: redis_op_db elim!: attempt_cases split: sum.splits)
  show ?thesis
    using assms(4) unfolding session_Create_def with_span_eq
    by (auto simp: quiet_apply [OF assms(1)] quiet_apply [OF assms(3)] SessionStore_def Let_def dest!: token store elim!: attempt_cases)
qed

section \<open>Properties\<close>

text \<open>
  (C15) A client sees only an identity it logged in with: after any history of session calls, delays
  and lost replies, the protected endpoint answers with an identity only if a session was created for
  that user and address, and otherwise refuses.
\<close>

theorem me_shows_authentic_identity:
  assumes "redis_spec R view clock tick" "quiet tr" "quiet lg" "quiet mt"
    and "list_all (\<lambda>op. case op of Op_Create i \<Rightarrow> ascii_identity i | _ \<Rightarrow> True) ops" "\<And>t. session_view view w t = None"
    and "session_gate (session_Validate (world_host sha) (wired_sessions R tr lg mt ttl) errv) cookieName
           (Me (NewAuthHandler lg (Some tr) (world_host sha) errv otp oauth (wired_sessions R tr lg mt ttl) cookieName secure cookieTTL))
           (fold (session_step (world_host sha) (wired_sessions R tr lg mt ttl) errv (\<lambda>d. advance tick (int d))) ops w, x) = (r, w', x')"
  shows "\<exists>c. rs_calls x' = rs_calls x @ [c] \<and>
    (\<forall>u e. c = WriteJSON 200 (AuthResponse u e) \<longrightarrow> (\<exists>i. Op_Create i \<in> set ops \<and> ai_UserID i = u \<and> ai_Email i = e))"
proof -
  let ?h = "NewAuthHandler lg (Some tr) (world_host sha) errv otp oauth (wired_sessions R tr lg mt ttl) cookieName secure cookieTTL"
  have "session_gate (ah_Validate ?h) (ah_cookieName ?h) (Me ?h)
      (fold (session_step (world_host sha) (wired_sessions R tr lg mt ttl) errv (\<lambda>d. advance tick (int d))) ops w, x) = (r, w', x')"
    using assms(7) by simp
  then show ?thesis
  proof (cases rule: me_cases)
    case (refused c)
    then show ?thesis
      by auto
  next
    case (shown token s w1)
    have "ascii_identity i" if "Op_Create i \<in> set ops" for i
      using assms(5) that by (force simp: list_all_iff)
    then have "Op_Create (session_of s) \<in> set ops"
      using wired_session_manager.authentic [OF wired_session_managerI [OF assms(1-4)] _ assms(6)] shown(3) by simp
    then show ?thesis
      using shown(4) by (auto simp: session_of_def intro!: exI [of _ "session_of s"])
  qed
qed

definition with_cookie :: "string \<Rightarrow> exchange" where
  "with_cookie token = (get_request ''/auth/me'')\<lparr>rq_cookies := [(''sid'', token)]\<rparr>"

definition idle_otp :: "keyspace world otp_authenticator" where
  "idle_otp = wired_otp keyspace_redis Hour (\<lambda>_. AOther []) trace_sink trace_sink trace_sink \<lparr>SendOTP = StubSender_SendOTP trace_sink\<rparr>
     \<lparr>CodeLength = 6, OTP_TTL = Minute\<rparr>"

definition idle_oauth :: "keyspace world oauth_authenticator" where
  "idle_oauth = wired_oauth keyspace_redis Hour (\<lambda>_. AOther []) trace_sink trace_sink trace_sink []"

theorem me_shows_authentic_identity_witness:
  "\<exists>r w' x' c. session_gate (session_Validate (world_host (\<lambda>_. [])) (wired_sessions keyspace_redis trace_sink trace_sink trace_sink Hour) (\<lambda>_. AOther [])) ''sid''
      (Me (NewAuthHandler trace_sink (Some trace_sink) (world_host (\<lambda>_. [])) (\<lambda>_. AOther []) idle_otp idle_oauth
         (wired_sessions keyspace_redis trace_sink trace_sink trace_sink Hour) ''sid'' True Hour))
      (fold (session_step (world_host (\<lambda>_. [])) (wired_sessions keyspace_redis trace_sink trace_sink trace_sink Hour) (\<lambda>_. AOther [])
        (\<lambda>d. advance ks_tick (int d))) [Op_Create alice, Op_Wait 5] (start_world \<lparr>ks_clock = 0, ks_data = (\<lambda>_. None)\<rparr> [[10, 255]]), with_cookie ''0aff'')
      = (r, w', x') \<and> rs_calls x' = [c] \<and> (\<forall>u e. c = WriteJSON 200 (AuthResponse u e) \<longrightarrow> u = 7)"
proof -
  let ?m = "wired_sessions keyspace_redis trace_sink trace_sink trace_sink Hour"
  let ?w = "start_world \<lparr>ks_clock = 0, ks_data = (\<lambda>_. None)\<rparr> [[10, 255]]"
  let ?run = "session_gate (session_Validate (world_host (\<lambda>_. [])) ?m (\<lambda>_. AOther [])) ''sid''
      (Me (NewAuthHandler trace_sink (Some trace_sink) (world_host (\<lambda>_. [])) (\<lambda>_. AOther []) idle_otp idle_oauth ?m ''sid'' True Hour))
      (fold (session_step (world_host (\<lambda>_. [])) ?m (\<lambda>_. AOther []) (\<lambda>d. advance ks_tick (int d))) [Op_Create alice, Op_Wait 5] ?w, with_cookie ''0aff'')"
  obtain r w' x' where run: "?run = (r, w', x')"
    by (cases ?run) auto
  have empty: "session_view ks_view ?w t = None" for t
    by (simp add: session_view_def string_at_def start_world_def ks_view_def)
  have "list_all (\<lambda>op. case op of Op_Create i \<Rightarrow> ascii_identity i | _ \<Rightarrow> True) [Op_Create alice, Op_Wait 5]"
    by (simp add: ascii_identity_def alice_def ascii_def)
  from me_shows_authentic_identity [OF ks.redis_spec_axioms quiet_trace_sink quiet_trace_sink quiet_trace_sink this empty run]
  obtain c where "rs_calls x' = rs_calls (with_cookie ''0aff'') @ [c]"
    "\<forall>u e. c = WriteJSON 200 (AuthResponse u e) \<longrightarrow> (\<exists>i. Op_Create i \<in> set [Op_Create alice, Op_Wait 5] \<and> ai_UserID i = u \<and> ai_Email i = e)"
    by blast
  then show ?thesis
    using run by (auto simp: with_cookie_def get_request_def alice_def)
qed


definition one_form :: forms where
  "one_form = \<lparr>fm_OTPSendRequest = (\<lambda>_. Inr ''A@b.c ''), fm_OTPVerifyRequest = (\<lambda>_. Inr (''1 '', '' A@b.c'')),
     fm_OauthCallbackParams = (\<lambda>_. Inr (''c'', ''0a'')), fm_HealthParams = (\<lambda>_. Inr None), fm_validate_send = (\<lambda>_. None),
     fm_validate_verify = (\<lambda>_. None), fm_validate_callback = (\<lambda>_. None), fm_validate_health = (\<lambda>_. None)\<rparr>"


text \<open>
  An OAuth callback spends its browser proof: whenever the authenticator was asked, the
  response removes the binding cookie, success or failure, before the body is written; and a session
  cookie with a token is set only when both the callback and the creation of a session succeeded, and
  is that session's.
\<close>

theorem oauth_callback_cookies:
  assumes "OAuthCallback f h (w, x) = (r, w', x')"
  shows "\<exists>cs. rs_calls x' = rs_calls x @ cs \<and>
    ((\<exists>c. cs = [c] \<and> (\<forall>k. c \<noteq> SetCookie k) \<and> (\<forall>u e. c \<noteq> WriteJSON 200 (AuthResponse u e))) \<or>
     (\<exists>code state b v. bind_callback f x = Inr (code, state) \<and> map_of (rq_cookies x) oauthBrowserBindingCookieName = Some b \<and> b \<noteq> [] \<and>
        v = ah_tracer h (SpanStart SpanInternal ''handler'' ''auth_handler.oauth_callback'' None) w \<and>
        (case ah_HandleCallback h (c_Param x ''provider'') code state b v of
           (Inl e, w1) \<Rightarrow> \<exists>c. cs = [SetCookie (bindingCookie h [] (- 1)), c] \<and> (\<forall>k. c \<noteq> SetCookie k)
         | (Inr i, w1) \<Rightarrow> (case ah_Create h i w1 of
              (Inl e, w2) \<Rightarrow> \<exists>c. cs = [SetCookie (bindingCookie h [] (- 1)), c] \<and> (\<forall>k. c \<noteq> SetCookie k)
            | (Inr s, w2) \<Rightarrow> cs = [SetCookie (sessionCookie h (as_Token s) (whole_seconds (ah_cookieTTL h))),
                 SetCookie (bindingCookie h [] (- 1)), WriteJSON 200 (AuthResponse (ai_UserID i) (ai_Email i))]))))"
  using assms unfolding OAuthCallback_def
  by (elim handler_span_run)
    (auto simp: reply_def resp_AppError_calls c_Cookie_def Let_def split: sum.splits option.splits prod.splits if_splits,
     (rule exI, rule allI, rule allI, rule impI, rule conjI [OF refl], auto)+)

theorem oauth_callback_cookies_witness:
  "\<exists>r w' x' cs. OAuthCallback one_form (NewAuthHandler trace_sink (Some trace_sink) (world_host (\<lambda>s. map of_char s)) (\<lambda>_. AOther []) idle_otp idle_oauth
      (wired_sessions keyspace_redis trace_sink trace_sink trace_sink Hour) ''sid'' True Hour) (pending_otp, get_request ''/auth/oauth/google/callback'') = (r, w', x') \<and>
     rs_calls x' = cs \<and> (\<forall>k. SetCookie k \<notin> set cs)"
proof -
  let ?run = "OAuthCallback one_form (NewAuthHandler trace_sink (Some trace_sink) (world_host (\<lambda>s. map of_char s)) (\<lambda>_. AOther []) idle_otp idle_oauth
      (wired_sessions keyspace_redis trace_sink trace_sink trace_sink Hour) ''sid'' True Hour) (pending_otp, get_request ''/auth/oauth/google/callback'')"
  obtain r w' x' where run: "?run = (r, w', x')"
    by (cases ?run) auto
  show ?thesis
    using oauth_callback_cookies [OF run] run by (auto simp: get_request_def)
qed

end
