(* ===== verification/Health_Reporter.thy ===== *)
theory Health_Reporter
  imports Health
begin

text \<open>
  \<^verbatim>\<open>internal/delivery/grpc/service/health/standard_health_reporter.go\<close> as a state machine: the
  goroutine \<^verbatim>\<open>run\<close> and the callers of \<^verbatim>\<open>Start\<close> and \<^verbatim>\<open>Shutdown\<close> interleave, one
  rule per atomic step. The standard gRPC health server is third-party code and a parameter; what its
  documentation promises is the locale \<open>standard_health\<close>.
\<close>

section \<open>The standard health server\<close>

text \<open>
  \<open>put\<close> is \<^verbatim>\<open>SetServingStatus\<close> (\<open>True\<close> for SERVING) and \<open>shut\<close> is \<^verbatim>\<open>Shutdown\<close>, which
  makes every service not serving and the server ignore later changes.
\<close>

locale standard_health =
  fixes put :: "string \<Rightarrow> bool \<Rightarrow> 'h \<Rightarrow> 'h" and shut :: "'h \<Rightarrow> 'h" and serving :: "'h \<Rightarrow> string \<Rightarrow> bool" and halted :: "'h \<Rightarrow> bool"
  assumes set_same: "\<not> halted x \<Longrightarrow> serving (put s b x) s = b"
    and set_other: "s \<noteq> t \<Longrightarrow> serving (put s b x) t = serving x t"
    and set_closed: "halted x \<Longrightarrow> put s b x = x"
    and set_open: "halted (put s b x) = halted x"
    and shut_closed: "halted (shut x)"
    and shut_serving: "\<not> serving (shut x) s"
begin

lemma fold_set_closed: "halted x \<Longrightarrow> fold (\<lambda>s. put s b) ss x = x"
  by (induction ss) (simp_all add: set_closed)

lemma fold_set_open: "halted (fold (\<lambda>s. put s b) ss x) = halted x"
  by (induction ss arbitrary: x) (simp_all add: set_open)

lemma fold_set_serving:
  "\<not> halted x \<Longrightarrow> serving (fold (\<lambda>s. put s b) ss x) t = (if t \<in> set ss then b else serving x t)"
proof (induction ss arbitrary: x)
  case (Cons s ss)
  then show ?case
    by (cases "t = s") (auto simp: set_open set_same set_other)
qed simp

end

text \<open>A server that does what the documentation says: a map of statuses and a flag.\<close>

record health_server =
  hs_status :: "string \<Rightarrow> bool"
  hs_closed :: bool

definition hs_set :: "string \<Rightarrow> bool \<Rightarrow> health_server \<Rightarrow> health_server" where
  "hs_set s b x = (if hs_closed x then x else x\<lparr>hs_status := (hs_status x)(s := b)\<rparr>)"

definition hs_shut :: "health_server \<Rightarrow> health_server" where
  "hs_shut x = \<lparr>hs_status = (\<lambda>_. False), hs_closed = True\<rparr>"

interpretation hs: standard_health hs_set hs_shut hs_status hs_closed
  by unfold_locales (simp_all add: hs_set_def hs_shut_def)

section \<open>The reporter\<close>

text \<open>
  Where the goroutine is: not started; spawned and not yet running; waiting for the result of a check;
  publishing a result to the remaining services; waiting in the select; finished.
\<close>

datatype run_phase = Unstarted | Spawned | Checking | Publishing "string list" bool | Selecting | Finished

text \<open>
  \<open>rp_stopped\<close> and \<open>rp_cancelled\<close> are the effects of \<^verbatim>\<open>stopServer.Do\<close> and \<^verbatim>\<open>cancelRun\<close>,
  \<open>rp_returned\<close> that some call of \<^verbatim>\<open>Shutdown\<close> returned nil. \<open>rp_last\<close> is the outcome of the
  last published check and \<open>rp_checks\<close> the number of checks begun.
\<close>

record 'h reporter =
  rp_services :: "string list"
  rp_interval :: duration
  rp_server :: 'h
  rp_phase :: run_phase
  rp_stopped :: bool
  rp_cancelled :: bool
  rp_returned :: bool
  rp_last :: bool
  rp_checks :: nat
  rp_warnings :: nat

abbreviation (input) overallService :: string where "overallService \<equiv> []"

definition NewReporter :: "(string \<Rightarrow> bool \<Rightarrow> 'h \<Rightarrow> 'h) \<Rightarrow> duration \<Rightarrow> 'h \<Rightarrow> string \<Rightarrow> error + 'h reporter" where
  "NewReporter put interval server name =
     (if interval \<le> 0 then Inl (Msg ''standard gRPC health refresh interval must be positive'')
      else let services = (if name \<noteq> overallService then [overallService, name] else [overallService])
           in Inr \<lparr>rp_services = services, rp_interval = interval, rp_server = fold (\<lambda>s. put s False) services server,
                   rp_phase = Unstarted, rp_stopped = False, rp_cancelled = False, rp_returned = False, rp_last = False,
                   rp_checks = 0, rp_warnings = 0\<rparr>)"

text \<open>\<^verbatim>\<open>startRun.Do\<close>: only the first call spawns the goroutine.\<close>

definition Start :: "'h reporter \<Rightarrow> 'h reporter" where
  "Start r = (if rp_phase r = Unstarted then r\<lparr>rp_phase := Spawned\<rparr> else r)"

definition begin_check :: "'h reporter \<Rightarrow> 'h reporter" where
  "begin_check r = r\<lparr>rp_phase := Checking, rp_checks := Suc (rp_checks r)\<rparr>"

definition run_enter :: "'h reporter \<Rightarrow> 'h reporter" where
  "run_enter r = (if rp_cancelled r then r\<lparr>rp_phase := Finished\<rparr> else begin_check r)"

definition check_done :: "bool \<Rightarrow> 'h reporter \<Rightarrow> 'h reporter" where
  "check_done ok r = r\<lparr>rp_phase := Publishing (rp_services r) ok\<rparr>"

definition publish :: "(string \<Rightarrow> bool \<Rightarrow> 'h \<Rightarrow> 'h) \<Rightarrow> string \<Rightarrow> string list \<Rightarrow> bool \<Rightarrow> 'h reporter \<Rightarrow> 'h reporter" where
  "publish put s ss ok r = r\<lparr>rp_server := put s ok (rp_server r), rp_phase := Publishing ss ok\<rparr>"

text \<open>The end of \<^verbatim>\<open>refreshAndLog\<close>: a failed check is logged unless the reporter is being stopped.\<close>

definition refreshed :: "bool \<Rightarrow> 'h reporter \<Rightarrow> 'h reporter" where
  "refreshed ok r = r\<lparr>rp_phase := Selecting, rp_last := ok,
     rp_warnings := (if \<not> ok \<and> \<not> rp_cancelled r then Suc (rp_warnings r) else rp_warnings r)\<rparr>"

definition stop_server :: "('h \<Rightarrow> 'h) \<Rightarrow> 'h reporter \<Rightarrow> 'h reporter" where
  "stop_server shut r = (if rp_stopped r then r else r\<lparr>rp_server := shut (rp_server r), rp_stopped := True\<rparr>)"

definition cancelRun :: "'h reporter \<Rightarrow> 'h reporter" where
  "cancelRun r = r\<lparr>rp_cancelled := True\<rparr>"

text \<open>The rest of \<^verbatim>\<open>Shutdown\<close> after the cancellation: what it answers now, \<open>None\<close> while it waits.\<close>

definition Shutdown_answer :: "sentinel option \<Rightarrow> 'h reporter \<Rightarrow> (error + unit) option" where
  "Shutdown_answer expired r =
     (if rp_phase r = Unstarted then Some (Inr ())
      else if rp_phase r = Finished then Some (Inr ())
      else map_option (\<lambda>s. Inl (Errorf ''stop standard gRPC health reporter'' (Sentinel s))) expired)"

text \<open>
  The interleaved steps. A select with a tick and a cancellation ready takes either, so a tick is
  possible in every state of the select.
\<close>

inductive reporter_step :: "(string \<Rightarrow> bool \<Rightarrow> 'h \<Rightarrow> 'h) \<Rightarrow> ('h \<Rightarrow> 'h) \<Rightarrow> 'h reporter \<Rightarrow> 'h reporter \<Rightarrow> bool" for put shut where
  start: "reporter_step put shut r (Start r)"
| enter: "rp_phase r = Spawned \<Longrightarrow> reporter_step put shut r (run_enter r)"
| checked: "rp_phase r = Checking \<Longrightarrow> reporter_step put shut r (check_done ok r)"
| published: "rp_phase r = Publishing (s # ss) ok \<Longrightarrow> reporter_step put shut r (publish put s ss ok r)"
| logged: "rp_phase r = Publishing [] ok \<Longrightarrow> reporter_step put shut r (refreshed ok r)"
| tick: "rp_phase r = Selecting \<Longrightarrow> reporter_step put shut r (begin_check r)"
| finish: "rp_phase r = Selecting \<Longrightarrow> rp_cancelled r \<Longrightarrow> reporter_step put shut r (r\<lparr>rp_phase := Finished\<rparr>)"
| stop: "reporter_step put shut r (stop_server shut r)"
| cancel: "rp_stopped r \<Longrightarrow> reporter_step put shut r (cancelRun r)"
| returned: "rp_cancelled r \<Longrightarrow> Shutdown_answer e r = Some (Inr ()) \<Longrightarrow> reporter_step put shut r (r\<lparr>rp_returned := True\<rparr>)"

inductive reporter_run :: "(string \<Rightarrow> bool \<Rightarrow> 'h \<Rightarrow> 'h) \<Rightarrow> ('h \<Rightarrow> 'h) \<Rightarrow> 'h reporter \<Rightarrow> 'h reporter \<Rightarrow> bool" for put shut where
  refl: "reporter_run put shut r r"
| step: "reporter_run put shut r r' \<Longrightarrow> reporter_step put shut r' r'' \<Longrightarrow> reporter_run put shut r r''"

text \<open>\<^verbatim>\<open>Refresh\<close> as one call: check, publish to every service, return the error of the check.\<close>

definition Refresh :: "('w, health_result) check \<Rightarrow> (string \<Rightarrow> bool \<Rightarrow> 'h \<Rightarrow> 'h) \<Rightarrow> string list \<Rightarrow> 'w \<times> 'h \<Rightarrow> (error + unit) \<times> 'w \<times> 'h" where
  "Refresh check put services = (\<lambda>(w, x). case check w of (r, w') \<Rightarrow>
     (map_sum snd (\<lambda>_. ()) r, w', fold (\<lambda>s. put s (is_ok r)) services x))"

lemmas reporter_defs = Start_def run_enter_def begin_check_def check_done_def publish_def refreshed_def stop_server_def cancelRun_def

lemma reporter_run_trans [trans]:
  "reporter_run put shut r r' \<Longrightarrow> reporter_run put shut r' r'' \<Longrightarrow> reporter_run put shut r r''"
  by (rotate_tac, induction rule: reporter_run.induct) (auto intro: reporter_run.step)

lemma reporter_run_single: "reporter_step put shut r r' \<Longrightarrow> reporter_run put shut r r'"
  by (rule reporter_run.step [OF reporter_run.refl])

lemma reporter_step_frame:
  assumes "reporter_step put shut r r'"
  shows "rp_services r' = rp_services r" "rp_stopped r \<Longrightarrow> rp_stopped r'"
  using assms by (cases rule: reporter_step.cases; simp add: reporter_defs)+

lemma reporter_run_frame:
  assumes "reporter_run put shut r r'"
  shows "rp_services r' = rp_services r" "rp_stopped r \<Longrightarrow> rp_stopped r'"
  using assms by (induction rule: reporter_run.induct) (auto dest: reporter_step_frame)

section \<open>Invariants\<close>

context standard_health
begin

text \<open>
  While the server is open, every service shows the last published outcome, except that during a
  publication the services already served show the new one.
\<close>

definition displays :: "'h reporter \<Rightarrow> bool" where
  "displays r \<longleftrightarrow> (\<forall>s\<in>set (rp_services r). case rp_phase r of
       Publishing ss ok \<Rightarrow> serving (rp_server r) s = (if s \<in> set ss then rp_last r else ok)
     | _ \<Rightarrow> serving (rp_server r) s = rp_last r)"

definition inv :: "'h reporter \<Rightarrow> bool" where
  "inv r \<longleftrightarrow> distinct (rp_services r) \<and> halted (rp_server r) = rp_stopped r \<and> (rp_cancelled r \<longrightarrow> rp_stopped r) \<and>
     (rp_returned r \<longrightarrow> rp_cancelled r \<and> rp_phase r \<in> {Unstarted, Spawned, Finished}) \<and>
     (\<forall>ss ok. rp_phase r = Publishing ss ok \<longrightarrow> distinct ss \<and> set ss \<subseteq> set (rp_services r)) \<and>
     (if rp_stopped r then \<forall>s. \<not> serving (rp_server r) s else displays r)"

lemma inv_displays:
  "inv r \<Longrightarrow> \<not> rp_stopped r \<Longrightarrow> s \<in> set (rp_services r) \<Longrightarrow> case rp_phase r of
       Publishing ss ok \<Rightarrow> serving (rp_server r) s = (if s \<in> set ss then rp_last r else ok)
     | _ \<Rightarrow> serving (rp_server r) s = rp_last r"
  by (simp add: inv_def displays_def)

lemma inv_stopped: "inv r \<Longrightarrow> rp_stopped r \<Longrightarrow> \<not> serving (rp_server r) s"
  by (simp add: inv_def)

lemma inv_NewReporter:
  assumes "\<not> halted x" "NewReporter put i x n = Inr r"
  shows "inv r"
  using assms by (auto simp: NewReporter_def inv_def displays_def Let_def fold_set_open fold_set_serving set_open set_same set_other split: if_splits)

lemma inv_publish:
  assumes "inv r" "rp_phase r = Publishing (s # ss) ok"
  shows "inv (publish put s ss ok r)"
proof (cases "rp_stopped r")
  case True
  then show ?thesis
    using assms by (auto simp: inv_def publish_def set_closed)
next
  case False
  have "distinct (s # ss)"
    using assms by (auto simp: inv_def)
  then have "serving (put s ok (rp_server r)) t = (if t \<in> set ss then rp_last r else ok)"
    if "t \<in> set (rp_services r)" for t
    using assms False that by (cases "t = s") (auto simp: inv_def displays_def set_same set_other)
  then show ?thesis
    using assms False by (auto simp: inv_def displays_def publish_def set_open)
qed

lemma inv_step:
  assumes "reporter_step put shut r r'" "inv r"
  shows "inv r'"
  using assms
proof (cases rule: reporter_step.cases)
  case (published s ss ok)
  then show ?thesis
    using assms(2) inv_publish by simp
next
  case stop
  then show ?thesis
    using assms(2) by (auto simp: inv_def stop_server_def shut_closed shut_serving)
qed (use assms(2) in \<open>auto simp: inv_def displays_def reporter_defs Shutdown_answer_def split: if_splits run_phase.splits\<close>)

lemma inv_run: "reporter_run put shut r r' \<Longrightarrow> inv r \<Longrightarrow> inv r'"
  by (induction rule: reporter_run.induct) (auto intro: inv_step)

text \<open>A reporter whose shutdown returned does nothing more than end a goroutine that starts late.\<close>

lemma returned_step:
  assumes "reporter_step put shut r r'" "inv r" "rp_returned r"
  shows "rp_returned r' \<and> rp_checks r' = rp_checks r \<and> rp_server r' = rp_server r"
  using assms
  by (cases rule: reporter_step.cases) (auto simp: inv_def reporter_defs)

lemma returned_run:
  "reporter_run put shut r r' \<Longrightarrow> inv r \<Longrightarrow> rp_returned r \<Longrightarrow> rp_returned r' \<and> rp_checks r' = rp_checks r \<and> rp_server r' = rp_server r"
proof (induction rule: reporter_run.induct)
  case (step r r' r'')
  then show ?case
    using returned_step [OF step.hyps(2)] inv_run [OF step.hyps(1)] by auto
qed simp

text \<open>Publishing one service at a time, undisturbed, is what \<^verbatim>\<open>Refresh\<close> does at once.\<close>

lemma publish_all:
  "rp_phase r = Publishing ss ok \<Longrightarrow>
     reporter_run put shut r (r\<lparr>rp_server := fold (\<lambda>s. put s ok) ss (rp_server r), rp_phase := Publishing [] ok\<rparr>)"
proof (induction ss arbitrary: r)
  case Nil
  then show ?case
    by (metis (no_types, lifting) fold_simps(1) reporter.surjective reporter.update_convs(3,4) reporter_run.refl)
next
  case (Cons s ss)
  let ?r = "publish put s ss ok r"
  have "reporter_run put shut r ?r"
    using Cons.prems by (intro reporter_run_single reporter_step.published)
  also have "reporter_run put shut ?r (?r\<lparr>rp_server := fold (\<lambda>s. put s ok) ss (rp_server ?r), rp_phase := Publishing [] ok\<rparr>)"
    by (rule Cons.IH) (simp add: publish_def)
  finally show ?case
    by (simp add: publish_def)
qed

text \<open>A cancelled goroutine can always reach its end by its own steps.\<close>

lemma can_finish:
  assumes "rp_cancelled r" "rp_phase r \<noteq> Unstarted"
  shows "\<exists>r'. reporter_run put shut r r' \<and> rp_phase r' = Finished"
proof -
  have select: "\<exists>r'. reporter_run put shut r r' \<and> rp_phase r' = Finished" if "rp_cancelled r" "rp_phase r = Selecting" for r :: "'h reporter"
    using reporter_run_single [OF reporter_step.finish [OF that(2,1)], of put shut] by (intro exI conjI) auto
  have publishing: "\<exists>r'. reporter_run put shut r r' \<and> rp_phase r' = Finished" if c: "rp_cancelled r" and p: "rp_phase r = Publishing ss ok" for r :: "'h reporter" and ss ok
  proof -
    let ?r = "r\<lparr>rp_server := fold (\<lambda>s. put s ok) ss (rp_server r), rp_phase := Publishing [] ok\<rparr>"
    have "reporter_run put shut ?r (refreshed ok ?r)"
      by (intro reporter_run_single reporter_step.logged) simp
    then show ?thesis
      using select [of "refreshed ok ?r"] publish_all [OF p] c by (auto simp: refreshed_def intro: reporter_run_trans)
  qed
  show ?thesis
  proof (cases "rp_phase r")
    case Spawned
    then have "reporter_run put shut r (r\<lparr>rp_phase := Finished\<rparr>)"
      using reporter_run_single [OF reporter_step.enter [OF Spawned], of put shut] assms(1) by (simp add: run_enter_def)
    then show ?thesis
      by (intro exI conjI) auto
  next
    case Checking
    then show ?thesis
      using reporter_run_single [OF reporter_step.checked [OF Checking, where ok = True], of put shut] publishing [of "check_done True r"] assms(1)
      by (auto simp: check_done_def intro: reporter_run_trans)
  next
    case Finished
    then show ?thesis
      using reporter_run.refl by blast
  qed (use assms select publishing in auto)
qed

end

section \<open>Properties\<close>


lemma hs_open [simp]: "\<not> hs_closed \<lparr>hs_status = (\<lambda>_. False), hs_closed = False\<rparr>"
  by simp

definition small_reporter :: "health_server reporter" where
  "small_reporter = projr (NewReporter hs_set Second \<lparr>hs_status = (\<lambda>_. False), hs_closed = False\<rparr> ''app'')"

lemma small_reporter: "NewReporter hs_set Second \<lparr>hs_status = (\<lambda>_. False), hs_closed = False\<rparr> ''app'' = Inr small_reporter"
  by (simp add: small_reporter_def NewReporter_def)


text \<open>
  What the reporter shows is true: while it is not stopped and not in the middle of a
  publication, every service has the status of the last check it published, and before the first one
  none is serving.
\<close>

theorem reporter_truthful:
  assumes "standard_health put shut serving halted" "\<not> halted x" "NewReporter put i x name = Inr r0" "reporter_run put shut r0 r"
    and "\<not> rp_stopped r" "s \<in> {overallService, name}"
  shows "case rp_phase r of
       Publishing ss ok \<Rightarrow> serving (rp_server r) s = (if s \<in> set ss then rp_last r else ok)
     | _ \<Rightarrow> serving (rp_server r) s = rp_last r"
proof -
  have "standard_health.inv serving halted r"
    using standard_health.inv_run [OF assms(1,4)] standard_health.inv_NewReporter [OF assms(1-3)] by blast
  moreover have "set (rp_services r) = {overallService, name}"
    using reporter_run_frame(1) [OF assms(4)] assms(3) by (auto simp: NewReporter_def Let_def split: if_splits)
  ultimately show ?thesis
    using assms(5,6) standard_health.inv_displays [OF assms(1)] by simp
qed

theorem reporter_truthful_witness:
  "\<not> hs_status (rp_server (Start small_reporter)) ''app''"
proof -
  have "\<not> rp_stopped (Start small_reporter)" "rp_phase (Start small_reporter) = Spawned" "\<not> rp_last (Start small_reporter)"
    by (simp_all add: small_reporter_def NewReporter_def Start_def)
  then show ?thesis
    using reporter_truthful [OF hs.standard_health_axioms hs_open small_reporter reporter_run_single [OF reporter_step.start], of "''app''"] by simp
qed

text \<open>
  A shutdown that returned nil is complete: from then on, whatever is called and however it is
  scheduled, the reporter begins no further check and publishes nothing.
\<close>

theorem reporter_shutdown_complete:
  assumes "standard_health put shut serving halted" "\<not> halted x" "NewReporter put i x name = Inr r0" "reporter_run put shut r0 r"
    and "rp_returned r" "reporter_run put shut r r'"
  shows "rp_checks r' = rp_checks r \<and> rp_server r' = rp_server r"
  using standard_health.returned_run [OF assms(1,6)] standard_health.inv_run [OF assms(1,4)]
    standard_health.inv_NewReporter [OF assms(1-3)] assms(5) by blast

theorem reporter_shutdown_complete_witness:
  "let r = cancelRun (stop_server hs_shut small_reporter)\<lparr>rp_returned := True\<rparr>
   in rp_checks (Start r) = rp_checks r \<and> rp_server (Start r) = rp_server r"
proof -
  let ?s = "stop_server hs_shut small_reporter"
  have stopped: "rp_stopped ?s"
    by (simp add: stop_server_def)
  have answer: "Shutdown_answer None (cancelRun ?s) = Some (Inr ())" and cancelled: "rp_cancelled (cancelRun ?s)"
    by (simp_all add: Shutdown_answer_def cancelRun_def stop_server_def small_reporter_def NewReporter_def)
  have "reporter_run hs_set hs_shut small_reporter ((cancelRun ?s)\<lparr>rp_returned := True\<rparr>)"
    using reporter_run_single [OF reporter_step.stop] reporter_step.cancel [OF stopped] reporter_step.returned [OF cancelled answer]
    by (blast intro: reporter_run.step)
  from reporter_shutdown_complete [OF hs.standard_health_axioms hs_open small_reporter this _ reporter_run_single [OF reporter_step.start]]
  show ?thesis
    by simp
qed

text \<open>
  (C22) Shutdown cannot be blocked for ever by the reporter: in every reachable state in which it was
  cancelled, the goroutine has a way to its end by its own steps, after which Shutdown answers nil.
\<close>

theorem reporter_shutdown_unblocked:
  assumes "standard_health put shut serving halted" "rp_cancelled r" "rp_phase r \<noteq> Unstarted"
  shows "\<exists>r'. reporter_run put shut r r' \<and> Shutdown_answer None r' = Some (Inr ())"
  using standard_health.can_finish [OF assms] by (auto simp: Shutdown_answer_def)

theorem reporter_shutdown_unblocked_witness:
  "\<exists>r'. reporter_run hs_set hs_shut (cancelRun (Start small_reporter)) r' \<and> Shutdown_answer None r' = Some (Inr ())"
  by (rule reporter_shutdown_unblocked [OF hs.standard_health_axioms])
    (simp_all add: cancelRun_def Start_def small_reporter_def NewReporter_def)

end
