(* ===== verification/Wiring.thy ===== *)
theory Wiring
  imports Config Health_Reporter
begin

text \<open>
  How the executables put the components together: \<^verbatim>\<open>internal/delivery/http/server.go\<close> and
  \<^verbatim>\<open>validator.go\<close>, \<^verbatim>\<open>internal/app/httpapi\<close> (stores, repositories, usecases and the server with its middleware),
  \<^verbatim>\<open>internal/delivery/grpc/server.go\<close> and \<^verbatim>\<open>internal/app/grpcapi/grpcapi_server_wiring.go\<close>. Echo's router and its own
  middleware, gRPC's server and the TLS library are parameters. The results are about the whole chain a request passes.
\<close>

section \<open>internal/delivery/http\<close>

text \<open>The validation registrars change the library's validator, \<open>'v\<close>; a nil one is skipped.\<close>

fun newRequestValidator :: "'v \<Rightarrow> ('v \<Rightarrow> error option \<times> 'v) option list \<Rightarrow> error + 'v" where
  "newRequestValidator v [] = Inr v"
| "newRequestValidator v (None # rs) = newRequestValidator v rs"
| "newRequestValidator v (Some register # rs) = (case register v of
      (Some e, _) \<Rightarrow> Inl (Errorf ''register validator'' e)
    | (None, v1) \<Rightarrow> newRequestValidator v1 rs)"

type_synonym 'w middleware = "'w http \<Rightarrow> 'w http"

type_synonym 'w route = "string \<times> string \<times> 'w http"

record 'n http_server_config =
  sv_Address :: string
  sv_ReadTimeout :: duration
  sv_WriteTimeout :: duration
  sv_IdleTimeout :: duration
  sv_MaxHeaderBytes :: int
  sv_IPExtractor :: "'n ip_extractor option"

definition defaultMaxHeaderBytes :: int where "defaultMaxHeaderBytes = 16384"

text \<open>The Echo instance with what was registered on it, and the settings of the server of \<^verbatim>\<open>net/http\<close>.\<close>

record ('w, 'v, 'n) http_server =
  es_Validator :: 'v
  es_IPExtractor :: "'n ip_extractor option"
  es_Pre :: "'w middleware list"
  es_Use :: "'w middleware list"
  es_Routes :: "'w route list"
  hs_Addr :: string
  hs_ReadTimeout :: duration
  hs_WriteTimeout :: duration
  hs_IdleTimeout :: duration
  hs_ReadHeaderTimeout :: duration
  hs_MaxHeaderBytes :: int

definition present :: "'a option list \<Rightarrow> 'a list" where
  "present xs = map the (filter (\<lambda>x. x \<noteq> None) xs)"

definition http_NewServer :: "'n http_server_config \<Rightarrow> 'v \<Rightarrow> ('v \<Rightarrow> error option \<times> 'v) option list \<Rightarrow> 'w middleware option list \<Rightarrow> 'w middleware option list \<Rightarrow>
    'w route list option list \<Rightarrow> error + ('w, 'v, 'n) http_server" where
  "http_NewServer cfg v validators pre mids registrars =
     (let maxHeader = (if sv_MaxHeaderBytes cfg \<le> 0 then defaultMaxHeaderBytes else sv_MaxHeaderBytes cfg) in
      case newRequestValidator v validators of
        Inl e \<Rightarrow> Inl (Errorf ''initialize request validator'' e)
      | Inr v1 \<Rightarrow> Inr \<lparr>es_Validator = v1, es_IPExtractor = sv_IPExtractor cfg, es_Pre = present pre, es_Use = present mids,
           es_Routes = concat (present registrars), hs_Addr = sv_Address cfg, hs_ReadTimeout = sv_ReadTimeout cfg,
           hs_WriteTimeout = sv_WriteTimeout cfg, hs_IdleTimeout = sv_IdleTimeout cfg, hs_ReadHeaderTimeout = sv_ReadTimeout cfg,
           hs_MaxHeaderBytes = maxHeader\<rparr>)"

text \<open>
  How Echo serves a request: the first registered middleware is the outermost; those of \<^verbatim>\<open>Pre\<close> run before the
  router, those of \<^verbatim>\<open>Use\<close> after it, around the handler of the route it found or the one for unknown routes.
\<close>

definition compose :: "'w middleware list \<Rightarrow> 'w http \<Rightarrow> 'w http" where
  "compose ms h = foldr (\<lambda>m k. m k) ms h"

definition serve :: "('w route list \<Rightarrow> exchange \<Rightarrow> 'w http \<times> exchange) \<Rightarrow> ('w, 'v, 'n) http_server \<Rightarrow> 'w http" where
  "serve router sv = compose (es_Pre sv) (\<lambda>(w, x). case router (es_Routes sv) x of (h, x1) \<Rightarrow> compose (es_Use sv) h (w, x1))"

section \<open>internal/app/httpapi\<close>

record 's redis_stores =
  rs_cacheHealth :: "('s world, unit) eff"
  rs_userCache :: "'s world user_cache_repo"
  rs_kvHealth :: "('s world, unit) eff"
  rs_session :: "'s world session_repo"
  rs_otp :: "'s world otp_repo"
  rs_oauthState :: "'s world oauth_state_repo"
  rs_tokenBucket :: "'s world token_bucket_repo"

definition buildRedisStores :: "lua \<Rightarrow> 's redis \<Rightarrow> ('s \<Rightarrow> error + unit) \<Rightarrow> httpapi_config \<Rightarrow> 's redis_stores" where
  "buildRedisStores L R ping c = \<lparr>rs_cacheHealth = cache_HealthStore_Ping ping, rs_userCache = UserCacheStore R (rd_CacheTTL (rt_Redis (ha_Runtime c))),
     rs_kvHealth = kv_HealthStore_Ping ping, rs_session = SessionStore R, rs_otp = OTPStore R, rs_oauthState = OAuthStateStore R,
     rs_tokenBucket = TokenBucketStore L R\<rparr>"

record 's app_repositories =
  ar_dbHealthRepo :: "'s world db_health_repo"
  ar_cacheHealthStore :: "('s world, unit) eff"
  ar_kvHealthStore :: "('s world, unit) eff"
  ar_userRepo :: "'s world user_repo"
  ar_sessionRepo :: "'s world session_repo"
  ar_otpRepo :: "'s world otp_repo"
  ar_oauthStateRepo :: "'s world oauth_state_repo"
  ar_tokenBucketRepo :: "'s world token_bucket_repo"

definition buildRepositories :: "db_server_status \<Rightarrow> 's world sink \<Rightarrow> 's world sink \<Rightarrow> (error \<Rightarrow> any) \<Rightarrow> 's redis_stores \<Rightarrow> 's app_repositories" where
  "buildRepositories server lg tr errv rs =
     \<lparr>ar_dbHealthRepo = DBHealthStore tr server, ar_cacheHealthStore = rs_cacheHealth rs, ar_kvHealthStore = rs_kvHealth rs,
      ar_userRepo = CachedUserStore (NewCachedUserStore (Some lg) (Some tr) (UserStore tr) (rs_userCache rs)) errv,
      ar_sessionRepo = rs_session rs, ar_otpRepo = rs_otp rs, ar_oauthStateRepo = rs_oauthState rs, ar_tokenBucketRepo = rs_tokenBucket rs\<rparr>"

record 's app_usecases =
  uc_health :: "'s world health_usecase"
  uc_otpAuth :: "'s world otp_authenticator"
  uc_oauthAuth :: "'s world oauth_authenticator"
  uc_sessionManager :: "'s world session_manager"

definition buildUsecases :: "httpapi_config \<Rightarrow> 's world sink \<Rightarrow> 's world sink \<Rightarrow> 's world sink \<Rightarrow> (string \<Rightarrow> string \<Rightarrow> 's world email_sender) \<Rightarrow>
    ('s world, 't) oauth2 \<Rightarrow> 's app_repositories \<Rightarrow> 's app_usecases" where
  "buildUsecases c lg tr mt resend lib rp =
     (let a = ha_Auth c in
      \<lparr>uc_health = health_New (Some tr) (Some mt) (ar_dbHealthRepo rp) (ar_cacheHealthStore rp) (ar_kvHealthStore rp),
       uc_otpAuth = NewOTPAuthenticator (Some lg) (Some tr) (Some mt) (ar_otpRepo rp)
         (email_sender_of c resend \<lparr>SendOTP = StubSender_SendOTP lg\<rparr>) (ar_userRepo rp) \<lparr>CodeLength = ac_OTP_CodeLength a, OTP_TTL = ac_OTP_TTL a\<rparr>,
       uc_oauthAuth = NewOAuthAuthenticator (Some tr) (Some mt) (ar_oauthStateRepo rp) (ar_userRepo rp)
         (buildOAuthProviders lib (ac_GoogleClientID a) (ac_GoogleClientSecret a) (ac_GoogleRedirectURL a)),
       uc_sessionManager = NewServerSessionManager (Some tr) (Some lg) (Some mt) (ar_sessionRepo rp) (ac_SessionTTL a)\<rparr>)"

text \<open>What the wired server takes from Echo and the platform.\<close>

record cors_config =
  cc_AllowOrigins :: "string list"
  cc_AllowMethods :: "string list"
  cc_AllowHeaders :: "string list"
  cc_ExposeHeaders :: "string list"
  cc_AllowCredentials :: bool

record ('w, 'n) echo_env =
  ee_Secure :: "secure_config \<Rightarrow> 'w middleware"
  ee_CORS :: "cors_config \<Rightarrow> 'w middleware"
  ee_httpError :: "nat \<Rightarrow> string \<Rightarrow> error"
  ee_resolve :: "exchange \<Rightarrow> error option \<Rightarrow> nat"
  ee_committed :: "exchange \<Rightarrow> bool"
  ee_validName :: "string \<Rightarrow> bool"
  ee_ParseCIDR :: "string \<Rightarrow> error + 'n"
  ee_now :: "'w \<Rightarrow> int"
  ee_codeString :: "nat \<Rightarrow> string"
  ee_detailsString :: "fields \<Rightarrow> string"
  ee_enter :: "exchange \<Rightarrow> ctx"
  ee_stack :: string

definition corsCfg :: "httpapi_config \<Rightarrow> cors_config" where
  "corsCfg c = (let h = ha_HTTP c in
     \<lparr>cc_AllowOrigins = hc_CORSAllowOrigins h,
      cc_AllowMethods = [''GET'', ''POST'', ''PUT'', ''PATCH'', ''DELETE'', ''OPTIONS''],
      cc_AllowHeaders = appendUniqueHeader [''Origin'', ''Content-Type'', ''Accept'', ''Authorization''] (ri_IncomingKey (hc_RequestID h)),
      cc_ExposeHeaders = appendUniqueHeader [] (ri_ResponseKey (hc_RequestID h)), cc_AllowCredentials = True\<rparr>)"

definition skip_stream :: "exchange \<Rightarrow> bool" where
  "skip_stream x \<longleftrightarrow> rq_path x = ''/health/stream''"

definition wired_middlewares :: "('w, 'n) echo_env \<Rightarrow> httpapi_config \<Rightarrow> 'w sink \<Rightarrow> 'w sink \<Rightarrow> 'w sink \<Rightarrow> (string \<Rightarrow> ('w, decision) eff) \<Rightarrow>
    request_context_config \<Rightarrow> 'w middleware list" where
  "wired_middlewares E c lg tr mt allowIP rc =
     [http_observability (NewHTTPObservability (Some tr) (Some lg) (Some mt)) (ee_now E) (ee_codeString E) (ee_detailsString E) (ee_enter E) (ee_resolve E),
      recovery (Some lg) (ee_committed E) (ee_stack E),
      ee_Secure E (secureCfg c),
      ee_CORS E (corsCfg c),
      request_context (ee_now E) rc (Some skip_stream),
      rate_limit allowIP (Some mt)]"

definition httpapi_buildServer :: "('w, 'n) echo_env \<Rightarrow> httpapi_config \<Rightarrow> 'w sink \<Rightarrow> 'w sink \<Rightarrow> 'w sink \<Rightarrow> (error \<Rightarrow> any) \<Rightarrow> 'w token_bucket_repo \<Rightarrow> 'v \<Rightarrow>
    'w route list \<Rightarrow> 'w route list \<Rightarrow> error + ('w, 'v, 'n) http_server" where
  "httpapi_buildServer E c lg tr mt errv buckets v health_rs auth_rs =
     (let h = ha_HTTP c in
      case NewRequestContextMiddleware (ee_validName E) (request_context_of c) of
        Inl e \<Rightarrow> Inl (Errorf ''create HTTP request-context middleware'' e)
      | Inr rc \<Rightarrow> (case buildIPExtractor (ee_ParseCIDR E) (hc_TrustedProxyCIDRs h) of
           Inl e \<Rightarrow> Inl (Errorf ''build ip extractor'' e)
         | Inr extractor \<Rightarrow>
             http_NewServer
               \<lparr>sv_Address = hc_Address h, sv_ReadTimeout = hc_ReadTimeout h, sv_WriteTimeout = hc_WriteTimeout h, sv_IdleTimeout = hc_IdleTimeout h,
                sv_MaxHeaderBytes = hc_MaxHeaderBytes h, sv_IPExtractor = Some extractor\<rparr>
               v [] [Some (body_limit (ee_httpError E) (hc_MaxRequestBodyBytes h))]
               (map Some (wired_middlewares E c lg tr mt (AllowIP buckets (Some lg) (limiter_of c) errv) rc))
               [Some health_rs, Some auth_rs]))"

text \<open>
  The handlers and their routes. When the tickers of a health stream fire is up to the scheduler, so \<open>ticks\<close>, which is
  given the three intervals, is a parameter.
\<close>

definition health_NewHandler :: "'w sink option \<Rightarrow> 'w sink option \<Rightarrow> (string \<Rightarrow> ('w, health_result) check) \<Rightarrow> 'w health_handler" where
  "health_NewHandler lg tr check = \<lparr>hh_logger = or_noop lg, hh_tracer = or_noop tr, hh_Check = check\<rparr>"

definition health_routes :: "(error \<Rightarrow> any) \<Rightarrow> forms \<Rightarrow> (health_stream_config \<Rightarrow> 'w \<Rightarrow> stream_tick list) \<Rightarrow> health_stream_config \<Rightarrow>
    'w health_handler \<Rightarrow> 'w route list" where
  "health_routes errv f ticks st h =
     [(''GET'', ''/health'', GetHealth f h), (''GET'', ''/health/stream'', \<lambda>(w, x). StreamHealth errv f h (ticks st w) (w, x))]"

record 'w app_handlers =
  hs_health :: "'w route list"
  hs_auth :: "'w route list"

definition buildHandlers :: "httpapi_config \<Rightarrow> 's world sink \<Rightarrow> 's world sink \<Rightarrow> 's world host \<Rightarrow> (error \<Rightarrow> any) \<Rightarrow> forms \<Rightarrow>
    (health_stream_config \<Rightarrow> 's world \<Rightarrow> stream_tick list) \<Rightarrow> 's app_usecases \<Rightarrow> 's world app_handlers" where
  "buildHandlers c lg tr h errv f ticks u =
     \<lparr>hs_health = health_routes errv f ticks (hc_HealthStream (ha_HTTP c)) (health_NewHandler (Some lg) (Some tr) (health_Check h (uc_health u))),
      hs_auth = auth_routes errv f (auth_handler_of c lg tr h errv (uc_otpAuth u) (uc_oauthAuth u) (uc_sessionManager u))\<rparr>"

text \<open>The usecases that \<^verbatim>\<open>New\<close> ends up with: \<open>httpapi_App\<close> composes the builders in its order.\<close>

definition httpapi_usecases :: "lua \<Rightarrow> 's redis \<Rightarrow> ('s \<Rightarrow> error + unit) \<Rightarrow> db_server_status \<Rightarrow> httpapi_config \<Rightarrow> 's world sink \<Rightarrow> 's world sink \<Rightarrow>
    's world sink \<Rightarrow> (error \<Rightarrow> any) \<Rightarrow> (string \<Rightarrow> string \<Rightarrow> 's world email_sender) \<Rightarrow> ('s world, 't) oauth2 \<Rightarrow> 's app_usecases" where
  "httpapi_usecases L R ping server c lg tr mt errv resend lib =
     buildUsecases c lg tr mt resend lib (buildRepositories server lg tr errv (buildRedisStores L R ping c))"

text \<open>The usecases the theorems of the components are about are the ones the executable runs.\<close>

lemma httpapi_usecases_wired:
  "uc_health (httpapi_usecases L R ping server c lg tr mt errv resend lib) = wired_health ping server tr mt"
  "uc_sessionManager (httpapi_usecases L R ping server c lg tr mt errv resend lib) = wired_sessions R tr lg mt (ac_SessionTTL (ha_Auth c))"
  "uc_otpAuth (httpapi_usecases L R ping server c lg tr mt errv resend lib) =
     wired_otp R (rd_CacheTTL (rt_Redis (ha_Runtime c))) errv lg tr mt (email_sender_of c resend \<lparr>SendOTP = StubSender_SendOTP lg\<rparr>)
       \<lparr>CodeLength = ac_OTP_CodeLength (ha_Auth c), OTP_TTL = ac_OTP_TTL (ha_Auth c)\<rparr>"
  "uc_oauthAuth (httpapi_usecases L R ping server c lg tr mt errv resend lib) =
     wired_oauth R (rd_CacheTTL (rt_Redis (ha_Runtime c))) errv lg tr mt
       (buildOAuthProviders lib (ac_GoogleClientID (ha_Auth c)) (ac_GoogleClientSecret (ha_Auth c)) (ac_GoogleRedirectURL (ha_Auth c)))"
  by (simp_all add: httpapi_usecases_def buildUsecases_def buildRepositories_def buildRedisStores_def wired_health_def wired_sessions_def
      wired_otp_def wired_oauth_def wired_users_def Let_def)

section \<open>internal/delivery/grpc/server.go\<close>

text \<open>An interceptor gets the name of the called method; one for streams also which sides stream.\<close>

type_synonym ('w, 'a) unary_interceptor = "string \<Rightarrow> ('w, 'a) rpc \<Rightarrow> ('w, 'a) rpc"

type_synonym ('w, 'a) stream_interceptor = "string \<Rightarrow> bool \<Rightarrow> bool \<Rightarrow> ('w, 'a) rpc \<Rightarrow> ('w, 'a) rpc"

datatype ('w, 'a, 'k) server_option =
    Creds "'k tls_config"
  | MaxRecvMsgSize int
  | MaxSendMsgSize int
  | ChainUnaryInterceptor "('w, 'a) unary_interceptor list"
  | ChainStreamInterceptor "('w, 'a) stream_interceptor list"

record 'k grpc_server_config =
  gsc_Address :: string
  gsc_ReflectionEnabled :: bool
  gsc_MaxRecvMessageBytes :: int
  gsc_MaxSendMessageBytes :: int
  gsc_TransportCredentials :: "'k tls_config option"

text \<open>The library's server: the options it was made with and the services registered with it.\<close>

record ('w, 'a, 'k) google_server =
  gg_options :: "('w, 'a, 'k) server_option list"
  gg_services :: "string list"

record ('w, 'a, 'k, 'l) grpc_server =
  gs_logger :: "'w sink"
  gs_listener :: 'l
  gs_grpcServer :: "('w, 'a, 'k) google_server"

text \<open>A registrar adds the services it names; a nil function adds none.\<close>

definition RegisterGRPC :: "string list option \<Rightarrow> ('w, 'a, 'k) google_server \<Rightarrow> ('w, 'a, 'k) google_server" where
  "RegisterGRPC f g = (case f of None \<Rightarrow> g | Some ss \<Rightarrow> g\<lparr>gg_services := gg_services g @ ss\<rparr>)"

definition reflectionServices :: "string list" where
  "reflectionServices = [''grpc.reflection.v1.ServerReflection'', ''grpc.reflection.v1alpha.ServerReflection'']"

definition newServer :: "'k grpc_server_config \<Rightarrow> 'w sink option \<Rightarrow> 'l \<Rightarrow> ('w, 'a) unary_interceptor list \<Rightarrow> ('w, 'a) stream_interceptor list \<Rightarrow>
    string list option list \<Rightarrow> ('w, 'a, 'k, 'l) grpc_server" where
  "newServer cfg lg listener us ss registrars =
     (let options = (case gsc_TransportCredentials cfg of None \<Rightarrow> [] | Some t \<Rightarrow> [Creds t])
            @ (if gsc_MaxRecvMessageBytes cfg > 0 then [MaxRecvMsgSize (gsc_MaxRecvMessageBytes cfg)] else [])
            @ (if gsc_MaxSendMessageBytes cfg > 0 then [MaxSendMsgSize (gsc_MaxSendMessageBytes cfg)] else [])
            @ (if us \<noteq> [] then [ChainUnaryInterceptor us] else [])
            @ (if ss \<noteq> [] then [ChainStreamInterceptor ss] else []);
          server = fold RegisterGRPC registrars \<lparr>gg_options = options, gg_services = []\<rparr>
      in \<lparr>gs_logger = or_noop lg, gs_listener = listener,
          gs_grpcServer = (if gsc_ReflectionEnabled cfg then RegisterGRPC (Some reflectionServices) server else server)\<rparr>)"

definition grpc_NewServer :: "(string \<Rightarrow> error + 'l) \<Rightarrow> 'k grpc_server_config \<Rightarrow> 'w sink option \<Rightarrow> ('w, 'a) unary_interceptor list \<Rightarrow>
    ('w, 'a) stream_interceptor list \<Rightarrow> string list option list \<Rightarrow> error + ('w, 'a, 'k, 'l) grpc_server" where
  "grpc_NewServer listen cfg lg us ss registrars =
     (if gsc_Address cfg = [] then Inl (Msg ''gRPC server address must not be empty'')
      else if gsc_MaxRecvMessageBytes cfg < 0 \<or> gsc_MaxSendMessageBytes cfg < 0 then Inl (Msg ''gRPC message limits must not be negative'')
      else case listen (gsc_Address cfg) of
         Inl e \<Rightarrow> Inl (Errorf ''listen for gRPC connections'' e)
       | Inr listener \<Rightarrow> Inr (newServer cfg lg listener us ss registrars))"

text \<open>How gRPC runs a call: the interceptors of the options, the first outermost, around the service's handler.\<close>

fun unary_interceptors :: "('w, 'a, 'k) server_option list \<Rightarrow> ('w, 'a) unary_interceptor list" where
  "unary_interceptors [] = []"
| "unary_interceptors (ChainUnaryInterceptor us # os) = us @ unary_interceptors os"
| "unary_interceptors (_ # os) = unary_interceptors os"

fun stream_interceptors :: "('w, 'a, 'k) server_option list \<Rightarrow> ('w, 'a) stream_interceptor list" where
  "stream_interceptors [] = []"
| "stream_interceptors (ChainStreamInterceptor ss # os) = ss @ stream_interceptors os"
| "stream_interceptors (_ # os) = stream_interceptors os"

definition handle_unary :: "('w, 'a, 'k) google_server \<Rightarrow> string \<Rightarrow> ('w, 'a) rpc \<Rightarrow> ('w, 'a) rpc" where
  "handle_unary g name h = foldr (\<lambda>i k. i name k) (unary_interceptors (gg_options g)) h"

definition handle_stream :: "('w, 'a, 'k) google_server \<Rightarrow> string \<Rightarrow> bool \<Rightarrow> bool \<Rightarrow> ('w, 'a) rpc \<Rightarrow> ('w, 'a) rpc" where
  "handle_stream g name isClient isServer h = foldr (\<lambda>i k. i name isClient isServer k) (stream_interceptors (gg_options g)) h"

section \<open>internal/app/grpcapi\<close>

text \<open>The service names are those of the generated descriptors.\<close>

definition diagnosticsServiceName :: string where "diagnosticsServiceName = ''diagnostics.v1.DiagnosticsService''"

definition standardHealthName :: string where "standardHealthName = ''grpc.health.v1.Health''"

definition buildHealthUsecase :: "('s \<Rightarrow> error + unit) \<Rightarrow> db_server_status \<Rightarrow> 's world sink \<Rightarrow> 's world sink \<Rightarrow> 's world health_usecase" where
  "buildHealthUsecase ping server tr mt =
     health_New (Some tr) (Some mt) (DBHealthStore tr server) (cache_HealthStore_Ping ping) (kv_HealthStore_Ping ping)"

record ('w, 'a, 'k, 'l, 'h) server_components =
  sc_server :: "('w, 'a, 'k, 'l) grpc_server"
  sc_reporter :: "'h reporter"

text \<open>
  \<open>ce\<close> holds what the interceptors take from the platform and the connection; its telemetry is replaced by the wired one.
  \<open>put\<close> and \<open>standardHealth\<close> are the library's health server.
\<close>

definition grpcapi_buildServer :: "'k tls_lib \<Rightarrow> (string \<Rightarrow> error + 'l) \<Rightarrow> (string \<Rightarrow> bool \<Rightarrow> 'h \<Rightarrow> 'h) \<Rightarrow> 'h \<Rightarrow> 'w chain_env \<Rightarrow> grpcapi_config \<Rightarrow>
    'w sink \<Rightarrow> 'w sink \<Rightarrow> 'w sink \<Rightarrow> error + ('w, 'a, 'k, 'l, 'h) server_components" where
  "grpcapi_buildServer L listen put standardHealth ce c lg tr mt =
     (let g = ga_GRPC c in
      case buildTransportCredentials L c of Inl e \<Rightarrow> Inl e
      | Inr credentials \<Rightarrow>
      (case NewReporter put (gc_HealthRefreshInterval g) standardHealth diagnosticsServiceName of Inl e \<Rightarrow> Inl e
      | Inr reporter \<Rightarrow>
      (case NewRequestContext (rpc_context_of c) of Inl e \<Rightarrow> Inl (Errorf ''create gRPC request-context interceptor'' e)
      | Inr rc \<Rightarrow>
      (let t = NewHTTPObservability (Some tr) (Some lg) (Some mt);
           identity = callerIdentity URICertificateExtractor_Extract (ce_peer ce);
           us = [\<lambda>name. requestContext_Unary (ce_now ce) (ce_setHeader ce) rc] @
                (if identifies_callers c then [\<lambda>name. identity] else []) @
                [observability_Unary t (ce_now ce) (ce_status ce) (ce_codeString ce) (ce_detailsString ce) (ce_enter ce), recovery_Unary (Some lg) (ce_stack ce)];
           ss = [\<lambda>name isClient isServer. requestContext_Stream (ce_setHeader ce) rc] @
                (if identifies_callers c then [\<lambda>name isClient isServer. identity] else []) @
                [observability_Stream t (ce_now ce) (ce_status ce) (ce_codeString ce) (ce_detailsString ce) (ce_enter ce),
                 \<lambda>name isClient isServer. recovery_Stream (Some lg) (ce_stack ce) name]
       in case grpc_NewServer listen
             \<lparr>gsc_Address = gc_Address g, gsc_ReflectionEnabled = gc_ReflectionEnabled g, gsc_MaxRecvMessageBytes = gc_MaxRecvMessageBytes g,
              gsc_MaxSendMessageBytes = gc_MaxSendMessageBytes g, gsc_TransportCredentials = credentials\<rparr>
             (Some lg) us ss [Some [diagnosticsServiceName], Some [standardHealthName]] of
           Inl e \<Rightarrow> Inl e
         | Inr server \<Rightarrow> Inr \<lparr>sc_server = server, sc_reporter = reporter\<rparr>))))"

section \<open>Lemmas\<close>

lemma present_Some [simp]: "present (map Some xs) = xs"
  by (induction xs) (simp_all add: present_def)

lemma present_one [simp]: "present [Some x] = [x]"
  by (simp add: present_def)

lemma http_NewServer_cases:
  assumes "http_NewServer cfg v [] pre mids regs = Inr sv"
  shows "es_Pre sv = present pre" "es_Use sv = present mids" "0 < hs_MaxHeaderBytes sv" "hs_ReadHeaderTimeout sv = sv_ReadTimeout cfg"
  using assms by (auto simp: http_NewServer_def defaultMaxHeaderBytes_def Let_def)

text \<open>The built server: the body limit in front of the router, the six middleware behind it.\<close>

lemma buildServer_cases:
  assumes "httpapi_buildServer E c lg tr mt errv buckets v hr ar = Inr sv"
  obtains rc where "es_Pre sv = [body_limit (ee_httpError E) (hc_MaxRequestBodyBytes (ha_HTTP c))]"
    "es_Use sv = wired_middlewares E c lg tr mt (AllowIP buckets (Some lg) (limiter_of c) errv) rc"
    "0 < hs_MaxHeaderBytes sv" "hs_ReadHeaderTimeout sv = hc_ReadTimeout (ha_HTTP c)"
  using assms that by (fastforce simp: httpapi_buildServer_def Let_def dest: http_NewServer_cases split: sum.splits)

lemma recovery_panics: "recovery lg committed stack next s = (Panicked p, w', x') \<Longrightarrow> p = PanicError (Sentinel HttpErrAbortHandler)"
  by (auto simp: recovery_def Let_def split: prod.splits hres.splits if_splits)

lemma observability_cases:
  assumes "http_observability t now cs dstr enter resolve next (w, x) = (r, w', x')"
  obtains (panicked) p w1 where "r = Panicked p" "next (w1, x\<lparr>rq_ctx := enter x\<rparr>) = (Panicked p, w', x')"
    | (observed) e w1 w2 out where "r = Done e" "next (w1, x\<lparr>rq_ctx := enter x\<rparr>) = (Done e, w2, x')"
        "w' = tracing_Finish (ht_tracer t) out (access_log (ht_log t) out (request_metrics (ht_meter t) out w2))"
        "ro_status out = resolve x' e" "ro_request out = newRequestInfo x"
  using assms that by (fastforce simp: http_observability_def Let_def split: prod.splits hres.splits)

text \<open>A limiter that admits no call hides the handler behind it.\<close>

definition refuses :: "(string \<Rightarrow> ('w, decision) eff) \<Rightarrow> bool" where
  "refuses allow \<longleftrightarrow> (\<forall>ip w. case fst (allow ip w) of Inl _ \<Rightarrow> True | Inr d \<Rightarrow> \<not> Allowed d)"

lemma rate_limit_refuses:
  assumes "refuses allow"
  shows "rate_limit allow mt h = rate_limit allow mt h'"
proof (rule ext)
  fix s :: "'a \<times> exchange"
  obtain w x where s: "s = (w, x)"
    by (cases s)
  have "case fst (allow (rq_ip x) w) of Inl _ \<Rightarrow> True | Inr d \<Rightarrow> \<not> Allowed d"
    using assms by (simp add: refuses_def)
  then show "rate_limit allow mt h s = rate_limit allow mt h' s"
    by (cases "allow (rq_ip x) w") (auto simp: s rate_limit_def Let_def split: sum.splits prod.splits)
qed

lemma wired_refuses:
  assumes "refuses allow"
  shows "compose (wired_middlewares E c lg tr mt allow rc) h = compose (wired_middlewares E c lg tr mt allow rc) h'"
  by (simp add: compose_def wired_middlewares_def rate_limit_refuses [OF assms, of _ h h'])

lemma route_irrelevant:
  assumes "\<And>h h'. K h = K h'" "\<forall>y. snd (f y) = snd (g y)"
  shows "(\<lambda>(w, x). case f x of (h, x1) \<Rightarrow> K h (w, x1)) = (\<lambda>(w, x). case g x of (h, x1) \<Rightarrow> K h (w, x1))"
proof (rule ext, clarify)
  fix w x
  show "(case f x of (h, x1) \<Rightarrow> K h (w, x1)) = (case g x of (h, x1) \<Rightarrow> K h (w, x1))"
    using assms(1) [of "fst (f x)" "fst (g x)"] assms(2) by (simp add: case_prod_beta)
qed

lemma wired_compose:
  "compose (wired_middlewares E c lg tr mt allow rc) h =
     http_observability (NewHTTPObservability (Some tr) (Some lg) (Some mt)) (ee_now E) (ee_codeString E) (ee_detailsString E) (ee_enter E) (ee_resolve E)
       (recovery (Some lg) (ee_committed E) (ee_stack E) (compose (drop 2 (wired_middlewares E c lg tr mt allow rc)) h))"
  by (simp add: compose_def wired_middlewares_def)

text \<open>What becomes of the parameters of \<^verbatim>\<open>newServer\<close>.\<close>

lemma interceptors_append:
  "unary_interceptors (os @ os') = unary_interceptors os @ unary_interceptors os'"
  "stream_interceptors (os @ os') = stream_interceptors os @ stream_interceptors os'"
  by (induction os rule: unary_interceptors.induct) simp_all

lemma Register_keeps [simp]: "gg_options (RegisterGRPC f g) = gg_options g"
  by (simp add: RegisterGRPC_def split: option.split)

lemma fold_Register_keeps [simp]: "gg_options (fold RegisterGRPC fs g) = gg_options g"
  by (induction fs arbitrary: g) simp_all

lemma newServer_chains:
  "unary_interceptors (gg_options (gs_grpcServer (newServer cfg lg l us ss rs))) = us"
  "stream_interceptors (gg_options (gs_grpcServer (newServer cfg lg l us ss rs))) = ss"
  by (simp_all add: newServer_def interceptors_append Let_def split: option.split)

lemma newServer_options:
  "Creds t \<in> set (gg_options (gs_grpcServer (newServer cfg lg l us ss rs))) \<longleftrightarrow> gsc_TransportCredentials cfg = Some t"
  "MaxRecvMsgSize n \<in> set (gg_options (gs_grpcServer (newServer cfg lg l us ss rs))) \<longleftrightarrow> n = gsc_MaxRecvMessageBytes cfg \<and> 0 < n"
  "MaxSendMsgSize n \<in> set (gg_options (gs_grpcServer (newServer cfg lg l us ss rs))) \<longleftrightarrow> n = gsc_MaxSendMessageBytes cfg \<and> 0 < n"
  by (auto simp: newServer_def Let_def split: option.splits if_splits)

lemma newServer_services:
  "gg_services (gs_grpcServer (newServer cfg lg l us ss [Some a, Some b])) = a @ b @ (if gsc_ReflectionEnabled cfg then reflectionServices else [])"
  "gs_listener (newServer cfg lg l us ss rs) = l"
  by (simp_all add: newServer_def RegisterGRPC_def Let_def)

lemma credentials_iff: "buildTransportCredentials L c = Inr creds \<Longrightarrow> creds \<noteq> None \<longleftrightarrow> gt_Enabled (gc_TLS (ga_GRPC c))"
  by (auto simp: buildTransportCredentials_def Let_def split: if_splits sum.splits)

lemma grpc_NewServer_cases:
  assumes "grpc_NewServer listen cfg lg us ss rs = Inr sv"
  obtains l where "listen (gsc_Address cfg) = Inr l" "sv = newServer cfg lg l us ss rs"
  using assms that by (auto simp: grpc_NewServer_def split: if_splits sum.splits)

lemma reporter_services: "NewReporter put i sh diagnosticsServiceName = Inr r \<Longrightarrow> rp_services r = [overallService, diagnosticsServiceName]"
  by (auto simp: NewReporter_def diagnosticsServiceName_def Let_def split: if_splits)

section \<open>Properties\<close>


text \<open>An environment of an empty Echo: nothing is added to the responses, and every status resolves to 200.\<close>

definition plain_echo :: "(unit world, unit) echo_env" where
  "plain_echo = \<lparr>ee_Secure = (\<lambda>_ h. h), ee_CORS = (\<lambda>_ h. h), ee_httpError = (\<lambda>_. Msg), ee_resolve = (\<lambda>_ _. 200), ee_committed = (\<lambda>_. False),
     ee_validName = (\<lambda>_. True), ee_ParseCIDR = (\<lambda>_. Inr ()), ee_now = wall, ee_codeString = (\<lambda>_. []), ee_detailsString = (\<lambda>_. []), ee_enter = rq_ctx,
     ee_stack = []\<rparr>"

lemma plain_builds: "\<exists>sv. httpapi_buildServer plain_echo c lg tr mt errv buckets () hr ar = Inr sv"
proof -
  have ranges: "\<exists>ns. trusted_ranges (\<lambda>_. Inr ()) rs = Inr ns" for rs
    by (induction rs) auto
  show ?thesis
    using ranges [of "hc_TrustedProxyCIDRs (ha_HTTP c)"]
    by (auto simp: httpapi_buildServer_def plain_echo_def NewRequestContextMiddleware_def normalizeHeaderKey_def buildIPExtractor_def http_NewServer_def Let_def
        split: sum.splits if_splits)
qed


text \<open>The parts of the assembled gRPC server.\<close>

lemma buildServer_assembled:
  assumes "grpcapi_buildServer L listen put sh ce c lg tr mt = Inr comps"
  defines "ce' \<equiv> ce\<lparr>ce_telemetry := NewHTTPObservability (Some tr) (Some lg) (Some mt)\<rparr>"
    and "g \<equiv> gs_grpcServer (sc_server comps)"
  shows "\<exists>rc creds. NewRequestContext (rpc_context_of c) = Inr rc \<and> buildTransportCredentials L c = Inr creds \<and>
     handle_unary g name h = unary_chain (identifies_callers c) rc ce' name h \<and>
     handle_stream g name isClient isServer h = stream_chain (identifies_callers c) rc ce' name isClient isServer h \<and>
     (\<forall>t. Creds t \<in> set (gg_options g) \<longleftrightarrow> creds = Some t) \<and> (creds \<noteq> None \<longleftrightarrow> gt_Enabled (gc_TLS (ga_GRPC c))) \<and>
     (\<forall>n. MaxRecvMsgSize n \<in> set (gg_options g) \<longleftrightarrow> n = gc_MaxRecvMessageBytes (ga_GRPC c) \<and> 0 < n) \<and>
     (\<forall>n. MaxSendMsgSize n \<in> set (gg_options g) \<longleftrightarrow> n = gc_MaxSendMessageBytes (ga_GRPC c) \<and> 0 < n) \<and>
     gg_services g = [diagnosticsServiceName, standardHealthName] @ (if gc_ReflectionEnabled (ga_GRPC c) then reflectionServices else []) \<and>
     rp_services (sc_reporter comps) = [overallService, diagnosticsServiceName] \<and>
     listen (gc_Address (ga_GRPC c)) = Inr (gs_listener (sc_server comps))"
proof -
  from assms(1) obtain rc creds us ss where parts: "buildTransportCredentials L c = Inr creds" "NewRequestContext (rpc_context_of c) = Inr rc"
      "NewReporter put (gc_HealthRefreshInterval (ga_GRPC c)) sh diagnosticsServiceName = Inr (sc_reporter comps)"
      "grpc_NewServer listen \<lparr>gsc_Address = gc_Address (ga_GRPC c), gsc_ReflectionEnabled = gc_ReflectionEnabled (ga_GRPC c),
         gsc_MaxRecvMessageBytes = gc_MaxRecvMessageBytes (ga_GRPC c), gsc_MaxSendMessageBytes = gc_MaxSendMessageBytes (ga_GRPC c),
         gsc_TransportCredentials = creds\<rparr> (Some lg) us ss [Some [diagnosticsServiceName], Some [standardHealthName]] = Inr (sc_server comps)"
    and us: "foldr (\<lambda>i k. i name k) us h = unary_chain (identifies_callers c) rc ce' name h"
    and ss: "foldr (\<lambda>i k. i name isClient isServer k) ss h = stream_chain (identifies_callers c) rc ce' name isClient isServer h"
    by (auto simp: grpcapi_buildServer_def Let_def ce'_def unary_chain_def stream_chain_def with_identity_def NewHTTPObservability_def or_noop_def
        split: sum.splits)
  from parts(4) obtain l where "listen (gc_Address (ga_GRPC c)) = Inr l" and server: "sc_server comps =
      newServer \<lparr>gsc_Address = gc_Address (ga_GRPC c), gsc_ReflectionEnabled = gc_ReflectionEnabled (ga_GRPC c),
         gsc_MaxRecvMessageBytes = gc_MaxRecvMessageBytes (ga_GRPC c), gsc_MaxSendMessageBytes = gc_MaxSendMessageBytes (ga_GRPC c),
         gsc_TransportCredentials = creds\<rparr> (Some lg) l us ss [Some [diagnosticsServiceName], Some [standardHealthName]]"
    by (auto elim: grpc_NewServer_cases)
  then show ?thesis
    using parts(1,2) us ss credentials_iff [OF parts(1)] reporter_services [OF parts(3)]
    by (auto simp: g_def handle_unary_def handle_stream_def newServer_chains newServer_options newServer_services)
qed

text \<open>
  (C32) The assembled gRPC server runs exactly the verified chains: a unary or streaming call passes the interceptors of \<open>unary_chain\<close>
  or \<open>stream_chain\<close>, with the identity interceptor exactly when TLS is enabled with a client authority, and with the wired telemetry; TLS
  credentials are installed exactly when TLS is enabled; the message limits are installed exactly when they are positive; the diagnostics and the standard health service are registered,
  and reflection only when it is enabled; and the reporter reports for the server as a whole and for the registered diagnostics service. The listener
  is the one opened last: no step after it can fail and leave it open.
\<close>

theorem grpc_server_assembled:
  assumes "grpcapi_buildServer L listen put sh ce c lg tr mt = Inr comps"
  defines "ce' \<equiv> ce\<lparr>ce_telemetry := NewHTTPObservability (Some tr) (Some lg) (Some mt)\<rparr>"
    and "g \<equiv> gs_grpcServer (sc_server comps)"
  shows "\<exists>rc creds. NewRequestContext (rpc_context_of c) = Inr rc \<and> buildTransportCredentials L c = Inr creds \<and>
     handle_unary g name h = unary_chain (identifies_callers c) rc ce' name h \<and>
     handle_stream g name isClient isServer h = stream_chain (identifies_callers c) rc ce' name isClient isServer h \<and>
     (\<forall>t. Creds t \<in> set (gg_options g) \<longleftrightarrow> creds = Some t) \<and> (creds \<noteq> None \<longleftrightarrow> gt_Enabled (gc_TLS (ga_GRPC c))) \<and>
     (\<forall>n. MaxRecvMsgSize n \<in> set (gg_options g) \<longleftrightarrow> n = gc_MaxRecvMessageBytes (ga_GRPC c) \<and> 0 < n) \<and>
     (\<forall>n. MaxSendMsgSize n \<in> set (gg_options g) \<longleftrightarrow> n = gc_MaxSendMessageBytes (ga_GRPC c) \<and> 0 < n) \<and>
     gg_services g = [diagnosticsServiceName, standardHealthName] @ (if gc_ReflectionEnabled (ga_GRPC c) then reflectionServices else []) \<and>
     rp_services (sc_reporter comps) = [overallService, diagnosticsServiceName] \<and>
     listen (gc_Address (ga_GRPC c)) = Inr (gs_listener (sc_server comps))"
  using buildServer_assembled [OF assms(1)] unfolding ce'_def g_def .

lemma mtls_assembles:
  "\<exists>c comps. LoadGRPCAPI mtls_environ = Inr c \<and> identifies_callers c \<and> grpcapi_buildServer pem_files (\<lambda>_. Inr ()) put sh ce c lg tr mt = Inr comps"
proof -
  obtain c where load: "LoadGRPCAPI mtls_environ = Inr c" "gt_Enabled (gc_TLS (ga_GRPC c))" "gt_ClientCAFile (gc_TLS (ga_GRPC c)) = ''ca''"
    "gt_ServerCertFile (gc_TLS (ga_GRPC c)) = ''c''" "gt_ServerKeyFile (gc_TLS (ga_GRPC c)) = ''k''"
    "gc_RequestID (ga_GRPC c) = \<lparr>ri_IncomingKey = ''x-request-id'', ri_ResponseKey = ''x-request-id'', ri_RejectInvalid = False\<rparr>"
    using mtls_loads by blast
  have valid: "gc_Address (ga_GRPC c) \<noteq> []" "0 < gc_HealthRefreshInterval (ga_GRPC c)" "0 \<le> gc_MaxRecvMessageBytes (ga_GRPC c)" "0 \<le> gc_MaxSendMessageBytes (ga_GRPC c)"
    using LoadGRPCAPI_valid(1) [OF load(1)] by (auto simp: validate_grpc_def Let_def split: if_splits)
  have creds: "\<exists>t. buildTransportCredentials pem_files c = Inr (Some t)"
    using load by (simp add: buildTransportCredentials_def LoadServer_def pem_files_def Let_def)
  have rc: "\<exists>rc. NewRequestContext (rpc_context_of c) = Inr rc"
    using load(6) by (simp add: NewRequestContext_def rpc_context_of_def NormalizeKey_def isKeyCharacter_def HasPrefix_def run_config)
  show ?thesis
    using load valid creds rc
    by (auto simp: identifies_callers_def grpcapi_buildServer_def grpc_NewServer_def NewReporter_def Let_def)
qed

theorem grpc_server_assembled_witness:
  "\<exists>c comps rc. LoadGRPCAPI mtls_environ = Inr c \<and>
     (grpcapi_buildServer pem_files (\<lambda>_. Inr ()) hs_set \<lparr>hs_status = (\<lambda>_. False), hs_closed = False\<rparr> mtls_env c noop noop noop
        :: error + (nat, unit, unit, unit, health_server) server_components) = Inr comps \<and>
     handle_unary (gs_grpcServer (sc_server comps)) ''/a.B/C'' (\<lambda>c w. (Crashed (PanicValue []), w)) =
       unary_chain True rc (mtls_env\<lparr>ce_telemetry := NewHTTPObservability (Some noop) (Some noop) (Some noop)\<rparr>) ''/a.B/C'' (\<lambda>c w. (Crashed (PanicValue []), w))"
proof -
  obtain c comps where load: "LoadGRPCAPI mtls_environ = Inr c" "identifies_callers c"
    and built: "(grpcapi_buildServer pem_files (\<lambda>_. Inr ()) hs_set \<lparr>hs_status = (\<lambda>_. False), hs_closed = False\<rparr> mtls_env c noop noop noop
        :: error + (nat, unit, unit, unit, health_server) server_components) = Inr comps"
    using mtls_assembles [of hs_set "\<lparr>hs_status = (\<lambda>_. False), hs_closed = False\<rparr>" mtls_env noop noop noop] by (elim exE conjE) (rule that)
  show ?thesis
    using grpc_server_assembled [OF built, of "''/a.B/C''" "\<lambda>c w. (Crashed (PanicValue []), w)" False False] load built by auto
qed

end
