(* ===== verification/Trace_Propagation.thy ===== *)
theory Trace_Propagation
  imports Grpc_Client Telemetry_Adapters
begin

text \<open>
  How a trace crosses services: the carriers and the start of server spans in both deliveries
  (\<^verbatim>\<open>observability_tracing.go\<close>), the client's injection of \<open>Grpc_Client\<close>, the OpenTelemetry tracer of \<open>Telemetry_Adapters\<close> and the
  construction of its runtime (\<^verbatim>\<open>newRuntime\<close> of \<^verbatim>\<open>otel/setup.go\<close>). The SDK that makes spans and the
  W3C propagator are parameters with the contracts of two locales; the second is interpreted on the documented header format.
\<close>

section \<open>The library's contracts\<close>

text \<open>Identifiers in lower-case hexadecimal digits, not all zero, as the W3C recommendation has them.\<close>

definition lower_hex :: "char \<Rightarrow> bool" where
  "lower_hex c \<longleftrightarrow> (CHR ''0'' \<le> c \<and> c \<le> CHR ''9'') \<or> (CHR ''a'' \<le> c \<and> c \<le> CHR ''f'')"

definition valid_id :: "nat \<Rightarrow> string \<Rightarrow> bool" where
  "valid_id n h \<longleftrightarrow> length h = n \<and> list_all lower_hex h \<and> list_ex (\<lambda>c. c \<noteq> CHR ''0'') h"

definition valid_span :: "string \<times> string \<Rightarrow> bool" where
  "valid_span sp \<longleftrightarrow> valid_id 32 (fst sp) \<and> valid_id 16 (snd sp)"

text \<open>Starting a span: the new span becomes the active one, in the trace of the active span if there is a valid one; nothing else of the context changes.\<close>

locale span_source =
  fixes start :: "ctx \<Rightarrow> ctx"
  assumes start_span: "\<exists>sp. start c = c\<lparr>ctx_span := Some sp\<rparr> \<and> valid_span sp"
    and start_child: "ctx_span c = Some (t, s) \<Longrightarrow> valid_span (t, s) \<Longrightarrow> \<exists>s'. ctx_span (start c) = Some (t, s')"

text \<open>
  The propagator: \<open>encode\<close> gives the fields it sets on a carrier, \<open>decode\<close> reads a carrier by its \<^verbatim>\<open>Get\<close>. Only \<^verbatim>\<open>traceparent\<close> identifies the
  span; what cannot be read leaves the context alone.
\<close>

locale w3c_propagator =
  fixes encode :: "ctx \<Rightarrow> (string \<times> string) list" and decode :: "ctx \<Rightarrow> (string \<Rightarrow> string) \<Rightarrow> ctx"
  assumes encode_keys: "fst ` set (encode c) \<subseteq> {''traceparent'', ''tracestate''}" "distinct (map fst (encode c))"
    and encode_span: "ctx_span c = Some sp \<Longrightarrow> valid_span sp \<Longrightarrow>
      \<exists>tp. (''traceparent'', tp) \<in> set (encode c) \<and> (\<forall>c' g. g ''traceparent'' = tp \<longrightarrow> decode c' g = c'\<lparr>ctx_span := Some sp\<rparr>)"
    and decode_absent: "g ''traceparent'' = [] \<Longrightarrow> decode c g = c"
    and decode_span: "decode c g = c \<or> (\<exists>sp. decode c g = c\<lparr>ctx_span := Some sp\<rparr> \<and> valid_span sp)"

section \<open>Carriers\<close>

text \<open>\<^verbatim>\<open>http.Header.Get\<close> of the embedded header.\<close>

definition headerCarrier_Get :: "exchange \<Rightarrow> string \<Rightarrow> string" where
  "headerCarrier_Get x k = (case rq_header x (canonical True k) of [] \<Rightarrow> [] | v # _ \<Rightarrow> v)"

section \<open>Server spans\<close>

record server_tracer =
  vt_Extract :: "ctx \<Rightarrow> (string \<Rightarrow> string) option \<Rightarrow> ctx"
  vt_StartServer :: "ctx \<Rightarrow> ctx"

definition noop_server_tracer :: server_tracer where
  "noop_server_tracer = \<lparr>vt_Extract = (\<lambda>c _. c), vt_StartServer = id\<rparr>"

definition server_NewTracing :: "server_tracer option \<Rightarrow> server_tracer" where
  "server_NewTracing tr = (case tr of None \<Rightarrow> noop_server_tracer | Some t \<Rightarrow> t)"

text \<open>The contexts \<^verbatim>\<open>Tracing.Start\<close> returns; the events of the span are those of \<open>http_observability\<close> and \<open>rpc_tracing_Start\<close>.\<close>

definition http_tracing_enter :: "server_tracer \<Rightarrow> exchange \<Rightarrow> ctx" where
  "http_tracing_enter t x = vt_StartServer t (vt_Extract t (rq_ctx x) (Some (headerCarrier_Get x)))"

definition rpc_tracing_enter :: "server_tracer \<Rightarrow> ctx \<Rightarrow> ctx" where
  "rpc_tracing_enter t c = vt_StartServer t (case ctx_incoming c of None \<Rightarrow> c | Some md \<Rightarrow> vt_Extract t c (Some (metadataCarrier_Get md)))"

section \<open>otel/setup.go\<close>

text \<open>The providers name their scopes; the tracer finds its provider through the global one.\<close>

datatype propagator = TraceContextFormat | BaggageFormat

record ('t, 'm) otel_globals =
  og_TracerProvider :: "'t option"
  og_MeterProvider :: "'m option"
  og_TextMapPropagator :: "propagator list"

record ('t, 'l, 'm, 'e, 'i) otel_runtime =
  or_traceProvider :: 't
  or_loggerProvider :: 'l
  or_meterProvider :: 'm
  or_logEmitter :: 'e
  or_tracer :: string
  or_meter :: 'i

definition newRuntime :: "('l \<Rightarrow> string \<Rightarrow> 'e) \<Rightarrow> ('m \<Rightarrow> string \<Rightarrow> 'i) \<Rightarrow> 't \<Rightarrow> 'l \<Rightarrow> 'm \<Rightarrow> string \<Rightarrow> ('t, 'm) otel_globals \<Rightarrow>
    ('t, 'l, 'm, 'e, 'i) otel_runtime \<times> ('t, 'm) otel_globals" where
  "newRuntime logger_of meter_of tp lp mp serviceName g =
     (\<lparr>or_traceProvider = tp, or_loggerProvider = lp, or_meterProvider = mp, or_logEmitter = logger_of lp (logScopeName serviceName),
       or_tracer = serviceName, or_meter = meter_of mp (metricScopeName serviceName)\<rparr>,
      \<lparr>og_TracerProvider = Some tp, og_MeterProvider = Some mp, og_TextMapPropagator = [TraceContextFormat, BaggageFormat]\<rparr>)"

text \<open>The OpenTelemetry tracer as the client and the server see it: it always uses the W3C trace context.\<close>

definition otel_client_tracer :: "'w sink \<Rightarrow> (ctx \<Rightarrow> (string \<times> string) list) \<Rightarrow> (ctx \<Rightarrow> ctx) \<Rightarrow> 'w client_tracer" where
  "otel_client_tracer sink encode start =
     \<lparr>tc_sink = sink, tc_StartClient = start, tc_Inject = (\<lambda>c. the (tracer_Inject (\<lambda>c kvs. kvs @ encode c) c (Some [])))\<rparr>"

definition otel_server_tracer :: "(ctx \<Rightarrow> (string \<Rightarrow> string) \<Rightarrow> ctx) \<Rightarrow> (ctx \<Rightarrow> ctx) \<Rightarrow> server_tracer" where
  "otel_server_tracer decode start = \<lparr>vt_Extract = tracer_Extract decode, vt_StartServer = start\<rparr>"

section \<open>The W3C header format\<close>

definition w3c_encode :: "ctx \<Rightarrow> (string \<times> string) list" where
  "w3c_encode c = (case ctx_span c of None \<Rightarrow> []
     | Some (t, s) \<Rightarrow> if valid_span (t, s) then [(''traceparent'', ''00-'' @ t @ ''-'' @ s @ ''-01'')] else [])"

definition w3c_decode :: "ctx \<Rightarrow> (string \<Rightarrow> string) \<Rightarrow> ctx" where
  "w3c_decode c g =
     (let tp = g ''traceparent''; sp = (take 32 (drop 3 tp), take 16 (drop 36 tp)) in
      if length tp = 55 \<and> take 3 tp = ''00-'' \<and> tp ! 35 = CHR ''-'' \<and> tp ! 52 = CHR ''-'' \<and> valid_span sp
      then c\<lparr>ctx_span := Some sp\<rparr> else c)"

lemma traceparent_parts:
  assumes "valid_span (t, s)" "tp = ''00-'' @ t @ ''-'' @ s @ ''-01''"
  shows "length tp = 55" "take 3 tp = ''00-''" "take 32 (drop 3 tp) = t" "take 16 (drop 36 tp) = s" "tp ! 35 = CHR ''-''" "tp ! 52 = CHR ''-''"
  using assms by (auto simp: valid_span_def valid_id_def nth_append nth_Cons')

interpretation w3c: w3c_propagator w3c_encode w3c_decode
proof (unfold_locales, goal_cases)
  case (3 c sp)
  obtain t s where sp: "sp = (t, s)"
    by (cases sp)
  let ?tp = "''00-'' @ t @ ''-'' @ s @ ''-01''"
  have "w3c_decode c' g = c'\<lparr>ctx_span := Some sp\<rparr>" if "g ''traceparent'' = ?tp" for c' g
    using 3 that traceparent_parts [of t s ?tp, OF _ refl] by (simp add: sp w3c_decode_def Let_def)
  moreover have "(''traceparent'', ?tp) \<in> set (w3c_encode c)"
    using 3 by (simp add: sp w3c_encode_def)
  ultimately show ?case
    by blast
qed (auto simp: w3c_encode_def w3c_decode_def Let_def split: option.splits)

text \<open>A generator of spans: the identifiers of the next span and trace are given.\<close>

definition start_with :: "string \<times> string \<Rightarrow> ctx \<Rightarrow> ctx" where
  "start_with fresh c = c\<lparr>ctx_span := Some (case ctx_span c of
     None \<Rightarrow> fresh | Some sp \<Rightarrow> if valid_span sp then (fst sp, snd fresh) else fresh)\<rparr>"

definition id_of :: "nat \<Rightarrow> char \<Rightarrow> string" where
  "id_of n c = replicate n c"

lemma id_of_valid: "0 < n \<Longrightarrow> lower_hex c \<Longrightarrow> c \<noteq> CHR ''0'' \<Longrightarrow> valid_id n (id_of n c)"
  by (auto simp: valid_id_def id_of_def list_all_iff list_ex_iff)

lemma start_with_source: "valid_span (t, s) \<Longrightarrow> span_source (start_with (t, s))"
  by unfold_locales (auto simp: start_with_def valid_span_def split: option.splits)

interpretation spans_a: span_source "start_with (id_of 32 CHR ''a'', id_of 16 CHR ''a'')"
  by (rule start_with_source) (simp add: valid_span_def id_of_valid lower_hex_def less_eq_char_def)

interpretation spans_b: span_source "start_with (id_of 32 CHR ''b'', id_of 16 CHR ''b'')"
  by (rule start_with_source) (simp add: valid_span_def id_of_valid lower_hex_def less_eq_char_def)

section \<open>Injection and extraction\<close>

definition inject :: "metadata \<Rightarrow> (string \<times> string) list \<Rightarrow> metadata" where
  "inject md kvs = foldl (\<lambda>md (k, v). metadataCarrier_Set md k v) md kvs"

lemma inject_other: "\<forall>(k', v)\<in>set kvs. ToLower k' \<noteq> ToLower k \<Longrightarrow> md_Get (inject md kvs) k = md_Get md k"
  by (induction kvs arbitrary: md) (auto simp: inject_def metadataCarrier_Set_def md_Set_def md_Get_def update_conv')

lemma inject_found:
  assumes "(k, v) \<in> set kvs" "distinct (map (ToLower \<circ> fst) kvs)"
  shows "metadataCarrier_Get (inject md kvs) k = v"
proof -
  from assms(1) obtain pre post where kvs: "kvs = pre @ (k, v) # post"
    by (auto dest: split_list)
  have "inject md kvs = inject (metadataCarrier_Set (inject md pre) k v) post"
    by (simp add: inject_def kvs)
  moreover have not_later: "ToLower k \<notin> (ToLower \<circ> fst) ` set post"
    using assms(2) by (simp add: kvs)
  then have "\<forall>(k', v')\<in>set post. ToLower k' \<noteq> ToLower k"
    using not_later by (force simp: image_iff)
  ultimately show ?thesis
    by (simp add: metadataCarrier_Get_def inject_other) (simp add: metadataCarrier_Set_def md_Set_def md_Get_def update_conv')
qed

lemma client_tracing_Start_otel:
  "client_tracing_Start (NewTracing (Some (otel_client_tracer sink encode start)) propagate) c rpc w =
     (let c1 = start c in if propagate then c1\<lparr>ctx_outgoing := Some (inject (outgoing_copy c1) (encode c1))\<rparr> else c1,
      sink (SpanStart SpanClient ''grpc-client'' (cr_method rpc) (client_spanStartFields rpc)) w)"
  by (simp add: client_tracing_Start_def NewTracing_def otel_client_tracer_def tracer_Inject_def inject_def Let_def)

lemma trace_keys_lower: "k \<in> {''traceparent'', ''tracestate''} \<Longrightarrow> ToLower k = k"
  by (elim insertE emptyE) (simp_all only:, code_simp+)

context w3c_propagator
begin

lemma encode_lower: "map (ToLower \<circ> fst) (encode c) = map fst (encode c)"
  using encode_keys(1) [of c] trace_keys_lower by (auto simp: subset_iff)

lemma injected_read:
  assumes "ctx_span c = Some sp" "valid_span sp"
    and "md_Get md ''traceparent'' = md_Get (inject md0 (encode c)) ''traceparent''"
  shows "decode c' (metadataCarrier_Get md) = c'\<lparr>ctx_span := Some sp\<rparr>"
proof -
  from encode_span [OF assms(1,2)] obtain tp where tp: "(''traceparent'', tp) \<in> set (encode c)"
      "\<And>c' g. g ''traceparent'' = tp \<Longrightarrow> decode c' g = c'\<lparr>ctx_span := Some sp\<rparr>"
    by blast
  have "metadataCarrier_Get (inject md0 (encode c)) ''traceparent'' = tp"
    using inject_found [OF tp(1)] encode_lower [of c] encode_keys(2) [of c] by simp
  then have "metadataCarrier_Get md ''traceparent'' = tp"
    using assms(3) by (simp add: metadataCarrier_Get_def)
  then show ?thesis
    by (rule tp(2))
qed

lemma injected_frame:
  assumes "ToLower k \<notin> {''traceparent'', ''tracestate''}"
  shows "md_Get (inject md (encode c)) k = md_Get md k"
proof (rule inject_other, clarify)
  fix k' v
  assume kv: "(k', v) \<in> set (encode c)" "ToLower k' = ToLower k"
  then have "k' \<in> {''traceparent'', ''tracestate''}"
    using encode_keys(1) [of c] by force
  then show False
    using kv(2) assms trace_keys_lower [of k'] by auto
qed

end

text \<open>
  An HTTP request joins the trace of its \<^verbatim>\<open>traceparent\<close> header in the same way; the middleware of \<open>Http_Middleware\<close> runs with this function as its
  parameter \<open>enter\<close>.
\<close>

lemma http_trace_joined:
  assumes "w3c_propagator encode decode" "span_source start"
    and "ctx_span c = Some (t, s)" "valid_span (t, s)" "(''traceparent'', tp) \<in> set (encode c)" "rq_header x ''Traceparent'' = tp # vs"
  shows "\<exists>s'. ctx_span (http_tracing_enter (otel_server_tracer decode start) x) = Some (t, s')"
proof -
  from w3c_propagator.encode_span [OF assms(1,3,4)] obtain tp' where tp': "(''traceparent'', tp') \<in> set (encode c)"
      "\<And>c' g. g ''traceparent'' = tp' \<Longrightarrow> decode c' g = c'\<lparr>ctx_span := Some (t, s)\<rparr>"
    by blast
  have "tp' = tp"
    using w3c_propagator.encode_keys(2) [OF assms(1), of c] tp'(1) assms(5) by (auto intro: eq_key_imp_eq_value)
  moreover have "canonical True ''traceparent'' = ''Traceparent''"
    by code_simp
  ultimately have "decode (rq_ctx x) (headerCarrier_Get x) = (rq_ctx x)\<lparr>ctx_span := Some (t, s)\<rparr>"
    using assms(6) by (intro tp'(2)) (simp add: headerCarrier_Get_def)
  then show ?thesis
    using span_source.start_child [OF assms(2) _ assms(4), of "(rq_ctx x)\<lparr>ctx_span := Some (t, s)\<rparr>"]
    by (simp add: http_tracing_enter_def otel_server_tracer_def tracer_Extract_def)
qed

text \<open>
  The runtime registers a global propagator for trace context and baggage, but the tracer uses the trace context format alone: no
  field of the baggage format is ever written, whatever the global propagator is.
\<close>

lemma baggage_not_injected:
  assumes "w3c_propagator encode decode"
    and "client_tracing_Start (NewTracing (Some (otel_client_tracer sink encode id)) True) c rpc w = (c1, w1)"
  shows "BaggageFormat \<in> set (og_TextMapPropagator (snd (newRuntime l m tp lp mp name g))) \<and>
    md_Get (the (ctx_outgoing c1)) ''baggage'' = md_Get (outgoing_copy c) ''baggage''"
proof -
  have "ToLower ''baggage'' \<notin> {''traceparent'', ''tracestate''}"
    by code_simp
  then show ?thesis
    using w3c_propagator.injected_frame [OF assms(1)] assms(2) by (auto simp: client_tracing_Start_otel newRuntime_def Let_def)
qed

section \<open>Properties\<close>

text \<open>
  (C38) A trace continues across services. The client starts a span, in the caller's trace when the caller has one. With propagation on, a server that receives
  the outgoing \<^verbatim>\<open>traceparent\<close> unchanged starts its own span as a child of exactly that span, so in the same trace, and everything else in the caller's
  outgoing metadata is kept; with propagation off the metadata is the caller's, so that the trace is not disclosed. A server that receives no
  \<^verbatim>\<open>traceparent\<close> starts its span from its own context, and never refuses the call; nothing but the active span of its context changes in either case.
\<close>

theorem trace_continued:
  assumes "w3c_propagator encode decode" "span_source startC" "span_source startS"
    and "client_tracing_Start (NewTracing (Some (otel_client_tracer sink encode startC)) propagate) c rpc w = (c1, w1)"
    and "ctx_incoming sc = Some md"
  defines "server \<equiv> rpc_tracing_enter (server_NewTracing (Some (otel_server_tracer decode startS)))"
  shows "\<exists>t s. ctx_span c1 = Some (t, s) \<and> (\<forall>t0 s0. ctx_span c = Some (t0, s0) \<and> valid_span (t0, s0) \<longrightarrow> t = t0) \<and>
    (if propagate
     then (\<forall>k. ToLower k \<notin> {''traceparent'', ''tracestate''} \<longrightarrow> md_Get (the (ctx_outgoing c1)) k = md_Get (outgoing_copy c) k) \<and>
       (md_Get md ''traceparent'' = md_Get (the (ctx_outgoing c1)) ''traceparent'' \<longrightarrow>
          server sc = startS (sc\<lparr>ctx_span := Some (t, s)\<rparr>) \<and> (\<exists>s'. ctx_span (server sc) = Some (t, s')))
     else ctx_outgoing c1 = ctx_outgoing c) \<and>
    (md_Get md ''traceparent'' = [] \<longrightarrow> server sc = startS sc) \<and>
    (\<exists>sp. server sc = sc\<lparr>ctx_span := Some sp\<rparr>)"
proof -
  obtain t s where start: "startC c = c\<lparr>ctx_span := Some (t, s)\<rparr>" and valid: "valid_span (t, s)"
    using span_source.start_span [OF assms(2), of c] by (metis surj_pair)
  have same: "t = t0" if "ctx_span c = Some (t0, s0)" "valid_span (t0, s0)" for t0 s0
    using span_source.start_child [OF assms(2) that] start by simp
  have copy: "outgoing_copy (c\<lparr>ctx_span := Some (t, s)\<rparr>) = outgoing_copy c"
    by (simp add: outgoing_copy_def FromOutgoingContext_def)
  have c1: "c1 = (if propagate then c\<lparr>ctx_span := Some (t, s), ctx_outgoing := Some (inject (outgoing_copy c) (encode (startC c)))\<rparr> else startC c)"
    using assms(4) by (simp add: client_tracing_Start_otel start copy Let_def split: if_splits)
  have server: "server sc = startS (decode sc (metadataCarrier_Get md))"
    by (simp add: server_def rpc_tracing_enter_def server_NewTracing_def otel_server_tracer_def tracer_Extract_def assms(5))
  have read: "server sc = startS (sc\<lparr>ctx_span := Some (t, s)\<rparr>)"
    if propagate "md_Get md ''traceparent'' = md_Get (the (ctx_outgoing c1)) ''traceparent''"
    using w3c_propagator.injected_read [OF assms(1), of "startC c" "(t, s)" md "outgoing_copy c" sc] that valid start c1 server by simp
  have child: "\<exists>s'. ctx_span (startS (sc\<lparr>ctx_span := Some (t, s)\<rparr>)) = Some (t, s')"
    by (rule span_source.start_child [OF assms(3) _ valid]) simp
  have started: "\<exists>sp. startS sc1 = sc1\<lparr>ctx_span := Some sp\<rparr>" for sc1
    using span_source.start_span [OF assms(3), of sc1] by blast
  have only: "\<exists>sp. server sc = sc\<lparr>ctx_span := Some sp\<rparr>"
  proof (cases "decode sc (metadataCarrier_Get md) = sc")
    case True
    then show ?thesis
      using started [of sc] server by simp
  next
    case False
    then obtain sp where "decode sc (metadataCarrier_Get md) = sc\<lparr>ctx_span := Some sp\<rparr>"
      using w3c_propagator.decode_span [OF assms(1), of sc "metadataCarrier_Get md"] by blast
    then show ?thesis
      using started [of "sc\<lparr>ctx_span := Some sp\<rparr>"] server by simp
  qed
  have absent: "server sc = startS sc" if "md_Get md ''traceparent'' = []"
    using w3c_propagator.decode_absent [OF assms(1), of "metadataCarrier_Get md" sc] that by (simp add: server metadataCarrier_Get_def)
  have frame: "md_Get (the (ctx_outgoing c1)) k = md_Get (outgoing_copy c) k" if propagate "ToLower k \<notin> {''traceparent'', ''tracestate''}" for k
    using w3c_propagator.injected_frame [OF assms(1) that(2)] that(1) by (simp add: c1)
  have "ctx_span c1 = Some (t, s)" "\<not> propagate \<Longrightarrow> ctx_outgoing c1 = ctx_outgoing c"
    by (simp_all add: c1 start)
  then show ?thesis
    using same read child only absent frame by auto
qed

theorem trace_continued_witness:
  "\<exists>c1 w1 s'. client_tracing_Start (NewTracing (Some (otel_client_tracer (\<lambda>_ w. w) w3c_encode (start_with (id_of 32 CHR ''a'', id_of 16 CHR ''a'')))) True)
       (Background\<lparr>ctx_span := Some (id_of 32 CHR ''c'', id_of 16 CHR ''c'')\<rparr>) (client_newRPCInfo [] [] 0 ''/a.B/C'' ''unary'') () = (c1, w1) \<and>
     ctx_span (rpc_tracing_enter (server_NewTracing (Some (otel_server_tracer w3c_decode (start_with (id_of 32 CHR ''b'', id_of 16 CHR ''b'')))))
       (Background\<lparr>ctx_incoming := ctx_outgoing c1\<rparr>)) = Some (id_of 32 CHR ''c'', s')"
proof -
  let ?tracing = "NewTracing (Some (otel_client_tracer (\<lambda>_ w. w) w3c_encode (start_with (id_of 32 CHR ''a'', id_of 16 CHR ''a'')))) True"
  let ?c = "Background\<lparr>ctx_span := Some (id_of 32 CHR ''c'', id_of 16 CHR ''c'')\<rparr>"
  obtain c1 w1 where run: "client_tracing_Start ?tracing ?c (client_newRPCInfo [] [] 0 ''/a.B/C'' ''unary'') () = (c1, w1)"
    by (cases "client_tracing_Start ?tracing ?c (client_newRPCInfo [] [] 0 ''/a.B/C'' ''unary'') ()")
  then obtain md where "ctx_outgoing c1 = Some md"
    by (auto simp: client_tracing_Start_otel Let_def)
  moreover have "valid_span (id_of 32 CHR ''c'', id_of 16 CHR ''c'')"
    by (simp add: valid_span_def id_of_valid lower_hex_def less_eq_char_def)
  ultimately show ?thesis
    using trace_continued [OF w3c.w3c_propagator_axioms spans_a.span_source_axioms spans_b.span_source_axioms run, of "Background\<lparr>ctx_incoming := ctx_outgoing c1\<rparr>" md] run
    by auto
qed

end
