(* ===== verification/Rpc_End_To_End.thy ===== *)
theory Rpc_End_To_End
  imports Wiring Trace_Propagation
begin

text \<open>
  A call from a client of this repository to a server of it: the client's interceptors (\<open>Grpc_Client\<close>), the
  network, the assembled server (\<open>Wiring\<close>) and the handler, and in particular the diagnostics call with its generated stub and
  handler (\<^verbatim>\<open>gen/diagnostics/v1/diagnostics_grpc.pb.go\<close>). The network is a parameter that may lose requests and replies.
\<close>

section \<open>diagnostics\_grpc.pb.go\<close>

definition DiagnosticsService_GetHealth_FullMethodName :: string where
  "DiagnosticsService_GetHealth_FullMethodName = ''/diagnostics.v1.DiagnosticsService/GetHealth''"

definition diagnosticsServiceClient_GetHealth :: "(string \<Rightarrow> 'q \<Rightarrow> ('w, 'a) rpc) \<Rightarrow> 'q \<Rightarrow> ('w, 'a) rpc" where
  "diagnosticsServiceClient_GetHealth invoke req c w =
     (case invoke DiagnosticsService_GetHealth_FullMethodName req c w of
        (Crashed p, w') \<Rightarrow> (Crashed p, w')
      | (Returned out None, w') \<Rightarrow> (Returned out None, w')
      | (Returned _ (Some e), w') \<Rightarrow> (Returned None (Some e), w'))"

text \<open>\<open>dec\<close> is the decoded request, or the error of decoding it.\<close>

definition DiagnosticsService_GetHealth_Handler :: "('q \<Rightarrow> ('w, 'a) rpc) \<Rightarrow> error + 'q \<Rightarrow> (string \<Rightarrow> ('w, 'a) rpc \<Rightarrow> ('w, 'a) rpc) option \<Rightarrow> ('w, 'a) rpc" where
  "DiagnosticsService_GetHealth_Handler srv dec interceptor c w =
     (case dec of Inl e \<Rightarrow> (Returned None (Some e), w)
      | Inr req \<Rightarrow> (case interceptor of
           None \<Rightarrow> srv req c w
         | Some i \<Rightarrow> i DiagnosticsService_GetHealth_FullMethodName (srv req) c w))"

text \<open>gRPC chains the interceptors into one, or into none when there are none.\<close>

definition chained :: "('w, 'a, 'k) google_server \<Rightarrow> (string \<Rightarrow> ('w, 'a) rpc \<Rightarrow> ('w, 'a) rpc) option" where
  "chained g = (if unary_interceptors (gg_options g) = [] then None else Some (handle_unary g))"

section \<open>The network\<close>

text \<open>What gRPC carries to the server: the outgoing metadata and the deadline.\<close>

locale grpc_wire =
  fixes wire :: "ctx \<Rightarrow> ctx"
  assumes metadata_delivered: "\<exists>md. ctx_incoming (wire c) = Some md \<and> (\<forall>k. md_Get md k = md_Get (outgoing_copy c) k)"
    and deadline_delivered: "ctx_deadline (wire c) = ctx_deadline c"

definition loop_wire :: "ctx \<Rightarrow> ctx" where
  "loop_wire c = Background\<lparr>ctx_incoming := Some (outgoing_copy c), ctx_deadline := ctx_deadline c\<rparr>"

interpretation loop: grpc_wire loop_wire
  by unfold_locales (simp_all add: loop_wire_def)

text \<open>
  The client's world contains the server's. A request may be lost before it reaches the server, and a reply on its way back; \<open>convey\<close> is the
  error the client's library makes of the status the server answered with. A process that panics closes the connection.
\<close>

definition conveyed :: "(error \<Rightarrow> error) \<Rightarrow> error option \<Rightarrow> 'a rpc_result \<Rightarrow> 'a rpc_result" where
  "conveyed convey failure res = (case failure of Some e \<Rightarrow> Returned None (Some e)
     | None \<Rightarrow> (case res of Returned q None \<Rightarrow> Returned q None | Returned _ (Some e) \<Rightarrow> Returned None (Some (convey e))
        | Crashed _ \<Rightarrow> Returned None (Some (External ''connection closed''))))"

definition loopback :: "(ctx \<Rightarrow> ctx) \<Rightarrow> (error \<Rightarrow> error) \<Rightarrow> ('n \<Rightarrow> error option) \<Rightarrow> ('n \<Rightarrow> error option) \<Rightarrow> ('n, 'a) rpc \<Rightarrow> ('n call_world, 'a) rpc" where
  "loopback wire convey lost reply_lost answer c w =
     (case lost (cw_net w) of Some e \<Rightarrow> (Returned None (Some e), w)
      | None \<Rightarrow> (case answer (wire c) (cw_net w) of (res, n) \<Rightarrow> (conveyed convey (reply_lost n) res, w\<lparr>cw_net := n\<rparr>)))"

text \<open>The interceptors of a client connection: telemetry outermost.\<close>

definition client_chain :: "('n call_world) client_interceptor \<Rightarrow> grpc_status \<Rightarrow> client_context_config \<Rightarrow> string \<Rightarrow> ('n call_world, 'a) rpc \<Rightarrow> ('n call_world, 'a) rpc" where
  "client_chain ci st cfg name invoker = client_observability_Unary ci st name (client_requestcontext_Unary cfg invoker)"

section \<open>The context a handler gets\<close>

definition derived :: "ctx \<Rightarrow> ctx \<Rightarrow> bool" where
  "derived c0 c1 \<longleftrightarrow> ctx_request_id c1 = ctx_request_id c0 \<and> ctx_incoming c1 = ctx_incoming c0 \<and> ctx_span c1 = ctx_span c0 \<and>
     (\<forall>d. ctx_deadline c0 = Some d \<longrightarrow> (\<exists>d'\<le>d. ctx_deadline c1 = Some d'))"

lemma derived_identity: "derived c0 c1 \<Longrightarrow> derived c0 (WithIdentity c1 i)"
  by (simp add: derived_def WithIdentity_def)

lemma derived_timeout: "derived c0 (if b then WithTimeout c0 now d else c0)"
  by (auto simp: derived_def WithTimeout_def)

text \<open>A chain that accepts the request's identifier runs its handler only in contexts derived from the enriched one.\<close>

lemma identity_congr:
  assumes "\<And>c1. derived c0 c1 \<Longrightarrow> next c1 w = next' c1 w" "derived c0 c"
  shows "with_identity mtls ce next c w = with_identity mtls ce next' c w"
  using assms derived_identity [OF assms(2)]
  by (auto simp: with_identity_def callerIdentity_def identity_enrich_def split: option.splits sum.splits)

lemma observed_congr:
  assumes "\<And>n. handler (enter c) n = handler' (enter c) n"
  shows "observability_Unary t now st cs dstr enter name (recovery_Unary lg stack name handler) c w =
    observability_Unary t now st cs dstr enter name (recovery_Unary lg stack name handler') c w"
  using assms by (simp add: observability_Unary_def recovery_Unary_def rpc_recovered_def)

lemma chain_congr:
  assumes "context_enrich cfg c = Inr (c0, i)" "\<And>c1 n. derived c0 c1 \<Longrightarrow> handler (ce_enter ce c1) n = handler' (ce_enter ce c1) n"
  shows "unary_chain mtls cfg ce name handler c w = unary_chain mtls cfg ce name handler' c w"
proof -
  have inner: "with_identity mtls ce (observability_Unary t now st cs dstr (ce_enter ce) name (recovery_Unary lg stack name handler)) c1 v =
      with_identity mtls ce (observability_Unary t now st cs dstr (ce_enter ce) name (recovery_Unary lg stack name handler')) c1 v"
    if "derived c0 c1" for t now st cs dstr lg stack c1 v
    using assms(2) that by (intro identity_congr [of c0] observed_congr)
  show ?thesis
    using assms(1) inner [OF derived_timeout [of c0 True]] inner [OF derived_timeout [of c0 False]]
    by (simp add: unary_chain_def requestContext_Unary_def split: prod.split option.split)
qed

text \<open>And its answer is the handler's, or an error.\<close>

lemma chain_answers:
  assumes "unary_chain mtls cfg ce name handler c w = (r, w')" "context_enrich cfg c = Inr (c0, i)"
  obtains (refused) e where "r = Returned None (Some e)"
    | (ran) c1 n where "derived c0 c1" "r = recovered_as (fst (handler (ce_enter ce c1) n))"
proof (cases "\<exists>e. r = Returned None (Some e)")
  case True
  then show thesis
    using refused by blast
next
  case False
  let ?inner = "observability_Unary (ce_telemetry ce) (ce_now ce) (ce_status ce) (ce_codeString ce) (ce_detailsString ce) (ce_enter ce) name
      (recovery_Unary (Some (ht_log (ce_telemetry ce))) (ce_stack ce) name handler)"
  obtain v where v: "with_identity mtls ce ?inner (if xc_Timeout cfg > 0 then WithTimeout c0 (ce_now ce v) (xc_Timeout cfg) else c0) v = (r, w')"
    using assms False by (auto simp: unary_chain_def requestContext_Unary_def split: prod.splits option.splits)
  then show thesis
  proof (cases rule: identity_cases)
    case (passed c1)
    let ?c0 = "if xc_Timeout cfg > 0 then WithTimeout c0 (ce_now ce v) (xc_Timeout cfg) else c0"
    have "derived c0 c1"
      using derived_timeout [of c0 "xc_Timeout cfg > 0" "ce_now ce v" "xc_Timeout cfg"] arg_cong [OF passed(3), of ctx_request_id]
        arg_cong [OF passed(3), of ctx_incoming] arg_cong [OF passed(3), of ctx_span] arg_cong [OF passed(3), of ctx_deadline]
      by (simp add: derived_def)
    then show thesis
      using observed_recovered [OF passed(1)] ran by blast
  qed (use False in auto)
qed

section \<open>What the client sends\<close>

definition lowered :: "metadata \<Rightarrow> bool" where
  "lowered md \<longleftrightarrow> (\<forall>k\<in>fst ` set md. ToLower k = k)"

lemma lowered_copy: "lowered (outgoing_copy c)"
  by (auto simp: lowered_def outgoing_copy_def FromOutgoingContext_def split: option.splits)

lemma lowered_update: "lowered md \<Longrightarrow> ToLower k = k \<Longrightarrow> lowered (AList.update k vs md)"
  by (simp add: lowered_def dom_update)

lemma lowered_inject: "lowered md \<Longrightarrow> lowered (inject md kvs)"
  by (induction kvs arbitrary: md) (auto simp: inject_def metadataCarrier_Set_def md_Set_def lowered_update)

lemma copy_lowered:
  assumes "ctx_outgoing c = Some md" "lowered md"
  shows "outgoing_copy c = md"
proof -
  have "(\<lambda>(k, vs). (ToLower k, vs)) x = x" if "x \<in> set md" for x
    using assms(2) that by (cases x) (auto simp: lowered_def)
  then show ?thesis
    by (simp add: outgoing_copy_def FromOutgoingContext_def assms(1) map_idI)
qed

lemma prepared_outgoing:
  assumes "client_prepare cfg c w = (c1, cancel, w1)" "ctx_request_id c = Some i" "i \<noteq> []"
    and "rq_RequestIDMetadataKey cfg \<noteq> []" "ToLower (rq_RequestIDMetadataKey cfg) = rq_RequestIDMetadataKey cfg"
  shows "outgoing_copy c1 = AList.update (rq_RequestIDMetadataKey cfg) [i] (outgoing_copy c)"
    and "ctx_deadline c = Some d \<Longrightarrow> \<exists>d'\<le>d. ctx_deadline c1 = Some d'"
proof -
  have "ctx_outgoing c1 = Some (AList.update (rq_RequestIDMetadataKey cfg) [i] (outgoing_copy c))"
    using assms by (auto simp: client_prepare_def new_cell_def withRequestIDMetadata_def RequestIDFromContext_def md_Set_def WithTimeout_def Let_def split: if_splits)
  then show "outgoing_copy c1 = AList.update (rq_RequestIDMetadataKey cfg) [i] (outgoing_copy c)"
    by (rule copy_lowered) (rule lowered_update [OF lowered_copy assms(5)])
  show "ctx_deadline c = Some d \<Longrightarrow> \<exists>d'\<le>d. ctx_deadline c1 = Some d'"
    using assms(1) by (auto simp: client_prepare_def new_cell_def withRequestIDMetadata_def WithTimeout_def Let_def split: if_splits)
qed

lemma normalized_key: "client_requestcontext_New cfg = Inr cfg1 \<Longrightarrow> rq_RequestIDMetadataKey cfg1 = ToLower (TrimSpace (rq_RequestIDMetadataKey cfg))"
  by (auto simp: client_requestcontext_New_def dest: NormalizeKey_Inr split: sum.splits)

lemma normalized_incoming: "NewRequestContext cfg = Inr cfg1 \<Longrightarrow> xc_IncomingMetadataKey cfg1 = ToLower (TrimSpace (xc_IncomingMetadataKey cfg))"
  by (auto simp: NewRequestContext_def dest: NormalizeKey_Inr split: sum.splits)

text \<open>The caller and the handler agree on the request and on the trace, and the handler has no more time than the caller.\<close>

definition correlated :: "string \<Rightarrow> string \<Rightarrow> ctx \<Rightarrow> ctx \<Rightarrow> bool" where
  "correlated i t c c2 \<longleftrightarrow> ctx_request_id c2 = Some i \<and> (\<exists>s. ctx_span c2 = Some (t, s)) \<and>
     (\<forall>d. ctx_deadline c = Some d \<longrightarrow> (\<exists>d'\<le>d. ctx_deadline c2 = Some d'))"

text \<open>Both sides of a connection, configured to work together, and a caller with a request and a trace.\<close>

locale connection = grpc_wire wire + w3c_propagator encode decode + client: span_source startC + server: span_source startS
  for wire :: "ctx \<Rightarrow> ctx" and encode decode startC startS +
  fixes ci :: "('n call_world) client_interceptor" and sink ccfg ccfg1 and scfg scfg1 and ce :: "'n chain_env" and c :: ctx and i t s :: string
  assumes tracing: "ci_tracing ci = Some (NewTracing (Some (otel_client_tracer sink encode startC)) True)"
    and built: "client_requestcontext_New ccfg = Inr ccfg1" "NewRequestContext scfg = Inr scfg1"
    and entering: "ce_enter ce = rpc_tracing_enter (server_NewTracing (Some (otel_server_tracer decode startS)))"
    and same_key: "ToLower (TrimSpace (rq_RequestIDMetadataKey ccfg)) = ToLower (TrimSpace (xc_IncomingMetadataKey scfg))"
    and other_key: "ToLower (TrimSpace (rq_RequestIDMetadataKey ccfg)) \<notin> {[], ''traceparent'', ''tracestate''}"
    and caller: "ctx_request_id c = Some i" "IsValidRequestID i" "ctx_span c = Some (t, s)" "valid_span (t, s)"
begin

lemma key:
  "rq_RequestIDMetadataKey ccfg1 \<notin> {[], ''traceparent'', ''tracestate''}" "ToLower (rq_RequestIDMetadataKey ccfg1) = rq_RequestIDMetadataKey ccfg1"
  "xc_IncomingMetadataKey scfg1 = rq_RequestIDMetadataKey ccfg1"
  using normalized_key [OF built(1)] normalized_incoming [OF built(2)] same_key other_key by simp_all

lemma delivered:
  assumes "client_start ci c rpc w = (c1, w1)" "client_prepare ccfg1 c1 w1 = (c2, cancel, w2)"
  shows "context_enrich scfg1 (wire c2) = Inr (WithRequestID (wire c2) i, i)"
    and "derived (WithRequestID (wire c2) i) c3 \<Longrightarrow> correlated i t c (ce_enter ce c3)"
proof -
  obtain s1 where start: "startC c = c\<lparr>ctx_span := Some (t, s1)\<rparr>" "valid_span (t, s1)"
    using client.start_span [of c] client.start_child [OF caller(3,4)] by auto
  have copy: "outgoing_copy (c\<lparr>ctx_span := Some (t, s1)\<rparr>) = outgoing_copy c"
    by (simp add: outgoing_copy_def FromOutgoingContext_def)
  let ?md1 = "inject (outgoing_copy c) (encode (startC c))"
  have c1: "c1 = c\<lparr>ctx_span := Some (t, s1), ctx_outgoing := Some ?md1\<rparr>"
    using assms(1) by (simp add: client_start_def tracing client_tracing_Start_otel start(1) copy Let_def)
  have i: "i \<noteq> []"
    using caller(2) by (auto simp: IsValidRequestID_def)
  have out: "outgoing_copy c2 = AList.update (rq_RequestIDMetadataKey ccfg1) [i] (outgoing_copy c1)"
    using prepared_outgoing(1) [OF assms(2) _ i] key(1,2) caller(1) by (simp add: c1)
  obtain md where md: "ctx_incoming (wire c2) = Some md" "\<And>k. md_Get md k = md_Get (outgoing_copy c2) k"
    using metadata_delivered by blast
  have "md_Get md (rq_RequestIDMetadataKey ccfg1) = [i]"
    unfolding md(2) out using key(2) by (simp add: md_Get_def update_conv')
  then show "context_enrich scfg1 (wire c2) = Inr (WithRequestID (wire c2) i, i)"
    using key(1,3) caller(2) i md(1) by (simp add: context_enrich_def rpc_incomingRequestID_def)
  have "outgoing_copy c1 = ?md1"
    by (rule copy_lowered [OF _ lowered_inject [OF lowered_copy]]) (simp add: c1)
  then have "md_Get md ''traceparent'' = md_Get ?md1 ''traceparent''"
    unfolding md(2) out using key(1) trace_keys_lower [of "''traceparent''"] by (auto simp: md_Get_def update_conv')
  then have read: "decode c' (metadataCarrier_Get md) = c'\<lparr>ctx_span := Some (t, s1)\<rparr>" for c'
    using injected_read [of "startC c" "(t, s1)" md "outgoing_copy c" c'] start by simp
  show "correlated i t c (ce_enter ce c3)" if der: "derived (WithRequestID (wire c2) i) c3"
  proof -
    have incoming: "ctx_incoming c3 = Some md" "ctx_request_id c3 = Some i"
      using der md(1) by (simp_all add: derived_def WithRequestID_def)
    then have "ce_enter ce c3 = startS (c3\<lparr>ctx_span := Some (t, s1)\<rparr>)"
      using read by (simp add: entering rpc_tracing_enter_def server_NewTracing_def otel_server_tracer_def tracer_Extract_def)
    moreover obtain s2 where "startS (c3\<lparr>ctx_span := Some (t, s1)\<rparr>) = c3\<lparr>ctx_span := Some (t, s2)\<rparr>"
      using server.start_span [of "c3\<lparr>ctx_span := Some (t, s1)\<rparr>"] server.start_child [of "c3\<lparr>ctx_span := Some (t, s1)\<rparr>" t s1] start(2) by auto
    moreover have "\<exists>d'\<le>d. ctx_deadline c3 = Some d'" if d: "ctx_deadline c = Some d" for d
    proof -
      obtain d1 where "d1 \<le> d" "ctx_deadline c2 = Some d1"
        using prepared_outgoing(2) [OF assms(2) _ i, of d] key(1,2) caller(1) d by (auto simp: c1)
      then show ?thesis
        using der deadline_delivered [of c2] by (fastforce simp: derived_def WithRequestID_def)
    qed
    ultimately show ?thesis
      using incoming(2) by (simp add: correlated_def)
  qed
qed

text \<open>The call: what it returns, and that only correlated runs of the handler matter.\<close>

lemma call_shape:
  assumes "client_start ci c (interceptor_rpc ci name ''unary'') w = (c1, w1)" "client_prepare ccfg1 c1 w1 = (c2, cancel, w2)"
  shows "client_chain ci st ccfg1 name (loopback wire convey lost reply_lost serving) c w =
    (case loopback wire convey lost reply_lost serving c2 w2 of (q, w3) \<Rightarrow>
       (q, client_finish ci (client_newRPCOutcome st (interceptor_rpc ci name ''unary'') (cw_clock (cancel w3) - cw_clock w1)
              (case q of Returned _ e \<Rightarrow> e | Crashed _ \<Rightarrow> None)) False (cancel w3)))"
  using assms tracing
  by (auto simp: client_chain_def client_observability_Unary_def client_requestcontext_Unary_def client_enabled_def loopback_def conveyed_def Let_def
      split: option.split prod.split rpc_result.split)

lemma call_runs:
  assumes "client_chain ci st ccfg1 name (loopback wire convey lost reply_lost (unary_chain mtls scfg1 ce name handler)) c w = (r, w')"
  shows "(\<exists>q e. r = Returned q e) \<and>
    (\<forall>resp. r = Returned (Some resp) None \<longrightarrow> (\<exists>c2 n. correlated i t c c2 \<and> fst (handler c2 n) = Returned (Some resp) None)) \<and>
    (\<forall>handler'. (\<forall>c2 n. correlated i t c c2 \<longrightarrow> handler' c2 n = handler c2 n) \<longrightarrow>
       client_chain ci st ccfg1 name (loopback wire convey lost reply_lost (unary_chain mtls scfg1 ce name handler')) c w = (r, w'))"
proof -
  obtain c1 w1 where start: "client_start ci c (interceptor_rpc ci name ''unary'') w = (c1, w1)"
    by fastforce
  obtain c2 cancel w2 where prepare: "client_prepare ccfg1 c1 w1 = (c2, cancel, w2)"
    by (cases "client_prepare ccfg1 c1 w1")
  note sent = delivered [OF start prepare]
  obtain q w3 where q: "loopback wire convey lost reply_lost (unary_chain mtls scfg1 ce name handler) c2 w2 = (q, w3)"
    by fastforce
  have r: "r = q"
    using assms q unfolding call_shape [OF start prepare] by simp
  have "\<exists>a e. q = Returned a e"
    using q by (auto simp: loopback_def conveyed_def split: option.splits prod.splits rpc_result.splits)
  moreover have "\<exists>c4 n. correlated i t c c4 \<and> fst (handler c4 n) = Returned (Some resp) None" if resp: "q = Returned (Some resp) None" for resp
  proof -
    obtain n where ran: "unary_chain mtls scfg1 ce name handler (wire c2) (cw_net w2) = (Returned (Some resp) None, n)"
      using q resp by (auto simp: loopback_def conveyed_def split: option.splits prod.splits rpc_result.splits)
    from ran sent(1) show ?thesis
    proof (cases rule: chain_answers)
      case (ran c3 n)
      then show ?thesis
        using sent(2) [OF ran(1)] by (auto simp: recovered_as_def split: rpc_result.splits)
    qed simp
  qed
  moreover have "client_chain ci st ccfg1 name (loopback wire convey lost reply_lost (unary_chain mtls scfg1 ce name handler')) c w = (r, w')"
    if "\<forall>c4 n. correlated i t c c4 \<longrightarrow> handler' c4 n = handler c4 n" for handler'
  proof -
    have "unary_chain mtls scfg1 ce name handler' (wire c2) n = unary_chain mtls scfg1 ce name handler (wire c2) n" for n
      using that sent(2) by (intro chain_congr [OF sent(1)]) simp
    then have "loopback wire convey lost reply_lost (unary_chain mtls scfg1 ce name handler') c2 w2 =
        loopback wire convey lost reply_lost (unary_chain mtls scfg1 ce name handler) c2 w2"
      by (simp add: loopback_def split: option.split)
    then show ?thesis
      using assms unfolding call_shape [OF start prepare] by simp
  qed
  ultimately show ?thesis
    using r by blast
qed

end

section \<open>The diagnostics call\<close>

text \<open>A healthy report of the assembled server: in live mode nothing was asked, otherwise every dependency answered.\<close>

lemma healthy_report:
  assumes "fst (health_Check h u m n) = Inr res" "m = CheckModeLive \<or> m = CheckModeReady"
  shows "if m = CheckModeLive then res = skipped_result else hd_Status (hr_Database res) = ''up'' \<and> hr_Cache res = ''up'' \<and> hr_KVStore res = ''up''"
  using assms by (auto simp: health_Check_def ready_checks_def IsValid_mode_def Let_def finally_do_def perform_def attempt_def return_def fail_def
      split: prod.splits sum.splits if_splits)

lemma GetHealth_answers:
  assumes "fst (Diagnostics_GetHealth (health_Check h u) cs mode c n) = Returned (Some resp) None"
  obtains m res where "toCheckMode mode = Inr m" "if gh_Healthy resp then fst (health_Check h u m n) = Inr res else (\<exists>e. fst (health_Check h u m n) = Inl (res, e) \<and> (\<exists>a. As e = Some a \<and> Code a = CodeUnavailable))"
    "resp = diagnostics_toResponse res (gh_Healthy resp)"
  using assms that by (auto simp: Diagnostics_GetHealth_def diagnostics_toResponse_def split: sum.splits prod.splits if_splits option.splits)

lemma handler_chained:
  "DiagnosticsService_GetHealth_Handler srv (Inr req) (chained g) = handle_unary g DiagnosticsService_GetHealth_FullMethodName (srv req)"
  by (simp add: fun_eq_iff DiagnosticsService_GetHealth_Handler_def chained_def handle_unary_def)

lemma client_chain_result:
  assumes "client_chain ci st cfg name (loopback wire convey lost reply_lost serving) c w = (r, w')"
  obtains c2 w2 where "r = fst (loopback wire convey lost reply_lost serving c2 w2)" "\<exists>q e. r = Returned q e"
proof -
  have "\<exists>c2 w2. r = fst (loopback wire convey lost reply_lost serving c2 w2)"
    using assms by (auto simp: client_chain_def client_observability_Unary_def client_requestcontext_Unary_def Let_def
        split: if_splits prod.splits rpc_result.splits) (metis fst_conv)+
  moreover have "\<exists>q e. fst (loopback wire convey lost reply_lost serving c2 w2) = Returned q e" for c2 w2
    by (auto simp: loopback_def conveyed_def split: option.splits prod.splits rpc_result.splits)
  ultimately show thesis
    using that by metis
qed

text \<open>A response that arrives is one the service gave.\<close>

lemma response_from_service:
  assumes "fst (loopback wire convey lost reply_lost (unary_chain mtls rc ce name srv) c w) = Returned (Some resp) None"
  obtains c1 n where "fst (srv c1 n) = Returned (Some resp) None"
proof -
  obtain n where "unary_chain mtls rc ce name srv (wire c) (cw_net w) = (Returned (Some resp) None, n)"
    using assms by (auto simp: loopback_def conveyed_def split: option.splits prod.splits rpc_result.splits)
  from unary_contained [OF this] obtain c1 n1 where "recovered_as (fst (srv c1 n1)) = Returned (Some resp) None"
    by auto
  then show thesis
    using that by (auto simp: recovered_as_def split: rpc_result.splits)
qed

lemma report_shown:
  assumes "fst (Diagnostics_GetHealth (health_Check h u) cs mode c n) = Returned (Some resp) None"
  shows "\<exists>m res. toCheckMode mode = Inr m \<and> resp = diagnostics_toResponse res (gh_Healthy resp) \<and>
    (gh_Healthy resp \<longleftrightarrow> fst (health_Check h u m n) = Inr res) \<and>
    (gh_Healthy resp \<longrightarrow> (let st = (if mode = 1 then HEALTH_STATUS_SKIPPED else HEALTH_STATUS_UP) in
       fst (gh_Database resp) = st \<and> gh_Cache resp = st \<and> gh_KvStore resp = st))"
  using assms
proof (cases rule: GetHealth_answers)
  case (1 m res)
  have m: "m = (if mode = 1 then CheckModeLive else CheckModeReady)"
    using 1(1) by (auto simp: toCheckMode_def split: if_splits)
  have "let st = (if mode = 1 then HEALTH_STATUS_SKIPPED else HEALTH_STATUS_UP) in fst (gh_Database resp) = st \<and> gh_Cache resp = st \<and> gh_KvStore resp = st"
    if "gh_Healthy resp"
  proof -
    have "fst (health_Check h u m n) = Inr res" "resp = diagnostics_toResponse res True"
      using 1(2,3) that by simp_all
    then show ?thesis
      using healthy_report [of h u m n res] m
      by (auto simp: diagnostics_toResponse_def skipped_result_def toHealthStatus_def Let_def)
  qed
  moreover have "gh_Healthy resp \<longleftrightarrow> fst (health_Check h u m n) = Inr res"
    using 1(2) by (auto split: if_splits)
  ultimately show ?thesis
    using 1(1,3) by blast
qed

section \<open>Properties\<close>

text \<open>
  (C37) A call between two services of this repository is correlated. The client and the server are configured with the same request identifier key, not one of the
  propagator's; the caller has a valid request identifier and a trace. Whatever the network loses, the call returns and does not panic; a response is one the handler
  gave in a context with the caller's request identifier, in the caller's trace, and with no later a deadline than the caller's; and the outcome of the call and every
  trace of it in both worlds depend on the handler's behaviour in such contexts only, so that it never runs in another.
\<close>

theorem call_correlated:
  fixes ci :: "('n call_world) client_interceptor" and ce :: "'n chain_env"
  assumes "grpc_wire wire" "w3c_propagator encode decode" "span_source startC" "span_source startS"
    and "ci_tracing ci = Some (NewTracing (Some (otel_client_tracer sink encode startC)) True)"
    and "client_requestcontext_New ccfg = Inr ccfg1" "NewRequestContext scfg = Inr scfg1"
    and "ce_enter ce = rpc_tracing_enter (server_NewTracing (Some (otel_server_tracer decode startS)))"
    and "ToLower (TrimSpace (rq_RequestIDMetadataKey ccfg)) = ToLower (TrimSpace (xc_IncomingMetadataKey scfg))"
    and "ToLower (TrimSpace (rq_RequestIDMetadataKey ccfg)) \<notin> {[], ''traceparent'', ''tracestate''}"
    and "ctx_request_id c = Some i" "IsValidRequestID i" "ctx_span c = Some (t, s)" "valid_span (t, s)"
    and "client_chain ci st ccfg1 name (loopback wire convey lost reply_lost (unary_chain mtls scfg1 ce name handler)) c w = (r, w')"
  shows "(\<exists>q e. r = Returned q e) \<and>
    (\<forall>resp. r = Returned (Some resp) None \<longrightarrow> (\<exists>c2 n. correlated i t c c2 \<and> fst (handler c2 n) = Returned (Some resp) None)) \<and>
    (\<forall>handler'. (\<forall>c2 n. correlated i t c c2 \<longrightarrow> handler' c2 n = handler c2 n) \<longrightarrow>
       client_chain ci st ccfg1 name (loopback wire convey lost reply_lost (unary_chain mtls scfg1 ce name handler')) c w = (r, w'))"
  using assms(15) by (rule connection.call_runs [OF connection.intro [OF assms(1-4) connection_axioms.intro [OF assms(5-14)]]])

text \<open>An example: a client with tracing only, a server without mutual TLS that answers with the request identifier it sees.\<close>

definition tracing_client :: "(unit call_world) client_interceptor" where
  "tracing_client = client_observability_New (\<lambda>_. True) ''orders'' ''orders:9090''
     [WithTracing (Some (otel_client_tracer record_event w3c_encode (start_with (id_of 32 CHR ''a'', id_of 16 CHR ''a'')))) True]"

definition echo_server :: "unit chain_env" where
  "echo_server = \<lparr>ce_telemetry = NewHTTPObservability None None None, ce_now = (\<lambda>_. 0), ce_status = wire_status, ce_codeString = (\<lambda>_. []),
     ce_detailsString = (\<lambda>_. []), ce_enter = rpc_tracing_enter (server_NewTracing (Some (otel_server_tracer w3c_decode (start_with (id_of 32 CHR ''b'', id_of 16 CHR ''b''))))),
     ce_setHeader = (\<lambda>_ w. (None, w)), ce_peer = None, ce_stack = []\<rparr>"

abbreviation example_client :: client_context_config where
  "example_client \<equiv> \<lparr>rq_Timeout = Second, rq_RequestIDMetadataKey = ''x-request-id''\<rparr>"

abbreviation example_server :: rpc_context_config where
  "example_server \<equiv> \<lparr>xc_Timeout = 0, xc_IncomingMetadataKey = ''x-request-id'', xc_ResponseMetadataKey = [], xc_RejectInvalid = True\<rparr>"

abbreviation example_caller :: ctx where
  "example_caller \<equiv> Background\<lparr>ctx_request_id := Some ''r-1'', ctx_span := Some (id_of 32 CHR ''c'', id_of 16 CHR ''c'')\<rparr>"

lemma example_tracing:
  "ci_tracing tracing_client = Some (NewTracing (Some (otel_client_tracer record_event w3c_encode (start_with (id_of 32 CHR ''a'', id_of 16 CHR ''a'')))) True)"
  "ce_enter echo_server = rpc_tracing_enter (server_NewTracing (Some (otel_server_tracer w3c_decode (start_with (id_of 32 CHR ''b'', id_of 16 CHR ''b'')))))"
  by (simp_all add: tracing_client_def client_observability_New_def WithTracing_def echo_server_def split: prod.split)

lemma example_keys:
  "client_requestcontext_New example_client = Inr example_client" "NewRequestContext example_server = Inr example_server"
  "ToLower (TrimSpace (rq_RequestIDMetadataKey example_client)) \<notin> {[], ''traceparent'', ''tracestate''}"
proof -
  have "NormalizeKey ''x-request-id'' = Inr ''x-request-id''" "NormalizeKey [] = Inr []"
    by code_simp+
  then show "client_requestcontext_New example_client = Inr example_client" "NewRequestContext example_server = Inr example_server"
    by (simp_all add: client_requestcontext_New_def NewRequestContext_def)
  show "ToLower (TrimSpace (rq_RequestIDMetadataKey example_client)) \<notin> {[], ''traceparent'', ''tracestate''}"
    by code_simp
qed

lemma example_span: "IsValidRequestID ''r-1''" "valid_span (id_of 32 CHR ''c'', id_of 16 CHR ''c'')"
  by (code_simp, simp add: valid_span_def id_of_valid lower_hex_def less_eq_char_def)

interpretation example: connection loop_wire w3c_encode w3c_decode "start_with (id_of 32 CHR ''a'', id_of 16 CHR ''a'')" "start_with (id_of 32 CHR ''b'', id_of 16 CHR ''b'')"
    tracing_client record_event example_client example_client example_server example_server echo_server example_caller "''r-1''" "id_of 32 CHR ''c''" "id_of 16 CHR ''c''"
  by unfold_locales (simp_all add: example_tracing example_span example_keys(1,2) example_keys(3) [simplified])

theorem call_correlated_witness:
  "\<exists>r w'. client_chain tracing_client wire_status example_client ''/a.B/C'' (loopback loop_wire id (\<lambda>_. None) (\<lambda>_. None)
       (unary_chain False example_server echo_server ''/a.B/C'' (\<lambda>c n. (Returned (ctx_request_id c) None, n)))) example_caller idle_world = (r, w') \<and>
     (\<forall>resp. r = Returned (Some resp) None \<longrightarrow> resp = ''r-1'')"
proof -
  let ?h = "\<lambda>c n :: unit. (Returned (ctx_request_id c) None, n)"
  obtain r w' where run: "client_chain tracing_client wire_status example_client ''/a.B/C'' (loopback loop_wire id (\<lambda>_. None) (\<lambda>_. None)
      (unary_chain False example_server echo_server ''/a.B/C'' ?h)) example_caller idle_world = (r, w')"
    by fastforce
  show ?thesis
    using call_correlated [OF loop.grpc_wire_axioms w3c.w3c_propagator_axioms spans_a.span_source_axioms spans_b.span_source_axioms example_tracing(1)
        example_keys(1,2) example_tracing(2) example.same_key example_keys(3) example.caller run] run
    by (auto simp: correlated_def)
qed


definition idle_env :: "unit world chain_env" where
  "idle_env = \<lparr>ce_telemetry = NewHTTPObservability None None None, ce_now = wall, ce_status = wire_status, ce_codeString = (\<lambda>_. []), ce_detailsString = (\<lambda>_. []),
     ce_enter = id, ce_setHeader = (\<lambda>_ w. (None, w)), ce_peer = None, ce_stack = []\<rparr>"


end
