(* ===== verification/Test_Doubles.thy ===== *)
theory Test_Doubles
  imports Auth_OTP Auth_OAuth Health Token_Bucket Object_Storage
begin

text \<open>
  The configurable test doubles of the repository and use case interfaces (the \<^verbatim>\<open>*test\<close> packages). A double
  is a struct of optional functions, call counters and the arguments of the last call: a method counts the
  call, keeps its arguments, and panics when its function is not set; otherwise it delegates. A method
  acts on the struct and on the world its function acts on. The final sections show that a use case run on configured
  doubles does what it does on the repositories behind them, and what the doubles have recorded of it.
\<close>

section \<open>A call to a double\<close>

datatype 'a called = Answered 'a | Panics string | Fatal string

type_synonym ('d, 'w, 'a) double_call = "'d \<times> 'w \<Rightarrow> 'a called \<times> 'd \<times> 'w"

text \<open>
  \<open>note\<close> is the bookkeeping before the test for \<^verbatim>\<open>nil\<close>, \<open>func\<close> the configured function applied to the arguments. The
  call of an unconfigured method panics; the object storage doubles report to a \<^verbatim>\<open>testing.TB\<close> when they have one, whose \<^verbatim>\<open>Fatalf\<close> ends the test.
\<close>

definition invoke_else :: "('d \<Rightarrow> 'a called) \<Rightarrow> ('d \<Rightarrow> 'd) \<Rightarrow> ('d \<Rightarrow> ('w \<Rightarrow> 'a \<times> 'w) option) \<Rightarrow> ('d, 'w, 'a) double_call" where
  "invoke_else stop note func = (\<lambda>(d, w). let d' = note d in
     case func d' of None \<Rightarrow> (stop d', d', w) | Some f \<Rightarrow> (case f w of (r, w') \<Rightarrow> (Answered r, d', w')))"

definition invoke :: "string \<Rightarrow> ('d \<Rightarrow> 'd) \<Rightarrow> ('d \<Rightarrow> ('w \<Rightarrow> 'a \<times> 'w) option) \<Rightarrow> ('d, 'w, 'a) double_call" where
  "invoke message = invoke_else (\<lambda>_. Panics message)"

lemma invoke_configured: "func (note d) = Some f \<Longrightarrow> invoke message note func (d, w) = (Answered (fst (f w)), note d, snd (f w))"
  by (simp add: invoke_def invoke_else_def split: prod.splits)

section \<open>repository/kvstore/kvstoretest\<close>

record 'w OTPRepository =
  StoreFunc :: "(string \<Rightarrow> string \<Rightarrow> duration \<Rightarrow> ('w, unit) eff) option"
  StoreCalls :: nat
  StoreEmail :: string
  StoreHashedCode :: string
  StoreTTL :: duration
  ConsumeFunc :: "(string \<Rightarrow> string \<Rightarrow> ('w, bool) eff) option"
  ConsumeCalls :: nat
  ConsumeEmail :: string
  ConsumeHash :: string
  DeleteFunc :: "(string \<Rightarrow> ('w, unit) eff) option"
  DeleteCalls :: nat
  DeleteEmail :: string

definition OTPRepository_Store :: "string \<Rightarrow> string \<Rightarrow> duration \<Rightarrow> ('w OTPRepository, 'w, error + unit) double_call" where
  "OTPRepository_Store email hashedCode ttl = invoke ''unexpected OTPRepository.Store call''
     (\<lambda>r. r\<lparr>StoreCalls := StoreCalls r + 1, StoreEmail := email, StoreHashedCode := hashedCode, StoreTTL := ttl\<rparr>)
     (\<lambda>r. map_option (\<lambda>f. f email hashedCode ttl) (StoreFunc r))"

definition OTPRepository_Consume :: "string \<Rightarrow> string \<Rightarrow> ('w OTPRepository, 'w, error + bool) double_call" where
  "OTPRepository_Consume email candidateHash = invoke ''unexpected OTPRepository.Consume call''
     (\<lambda>r. r\<lparr>ConsumeCalls := ConsumeCalls r + 1, ConsumeEmail := email, ConsumeHash := candidateHash\<rparr>)
     (\<lambda>r. map_option (\<lambda>f. f email candidateHash) (ConsumeFunc r))"

definition OTPRepository_Delete :: "string \<Rightarrow> ('w OTPRepository, 'w, error + unit) double_call" where
  "OTPRepository_Delete email = invoke ''unexpected OTPRepository.Delete call''
     (\<lambda>r. r\<lparr>DeleteCalls := DeleteCalls r + 1, DeleteEmail := email\<rparr>)
     (\<lambda>r. map_option (\<lambda>f. f email) (DeleteFunc r))"

record 'w SessionRepository =
  CreateFunc :: "(session_data \<Rightarrow> duration \<Rightarrow> ('w, unit) eff) option"
  CreateCalls :: nat
  CreateSession :: session_data
  CreateTTL :: duration
  GetByTokenFunc :: "(string \<Rightarrow> ('w, session_data) eff) option"
  GetByTokenCalls :: nat
  GetByTokenToken :: string
  DeleteFunc :: "(string \<Rightarrow> ('w, unit) eff) option"
  DeleteCalls :: nat
  DeleteToken :: string

definition SessionRepository_Create :: "session_data \<Rightarrow> duration \<Rightarrow> ('w SessionRepository, 'w, error + unit) double_call" where
  "SessionRepository_Create session ttl = invoke ''unexpected SessionRepository.Create call''
     (\<lambda>r. r\<lparr>CreateCalls := CreateCalls r + 1, CreateSession := session, CreateTTL := ttl\<rparr>)
     (\<lambda>r. map_option (\<lambda>f. f session ttl) (CreateFunc r))"

definition SessionRepository_GetByToken :: "string \<Rightarrow> ('w SessionRepository, 'w, error + session_data) double_call" where
  "SessionRepository_GetByToken token = invoke ''unexpected SessionRepository.GetByToken call''
     (\<lambda>r. r\<lparr>GetByTokenCalls := GetByTokenCalls r + 1, GetByTokenToken := token\<rparr>)
     (\<lambda>r. map_option (\<lambda>f. f token) (GetByTokenFunc r))"

definition SessionRepository_Delete :: "string \<Rightarrow> ('w SessionRepository, 'w, error + unit) double_call" where
  "SessionRepository_Delete token = invoke ''unexpected SessionRepository.Delete call''
     (\<lambda>r. r\<lparr>DeleteCalls := DeleteCalls r + 1, DeleteToken := token\<rparr>)
     (\<lambda>r. map_option (\<lambda>f. f token) (DeleteFunc r))"

record 'w OAuthStateRepository =
  StoreFunc :: "(string \<Rightarrow> oauth_state_data \<Rightarrow> duration \<Rightarrow> ('w, unit) eff) option"
  StoreCalls :: nat
  StoreState :: string
  StoreData :: oauth_state_data
  StoreTTL :: duration
  ConsumeFunc :: "(string \<Rightarrow> ('w, oauth_state_data option) eff) option"
  ConsumeCalls :: nat
  ConsumeState :: string

definition OAuthStateRepository_Store :: "string \<Rightarrow> oauth_state_data \<Rightarrow> duration \<Rightarrow> ('w OAuthStateRepository, 'w, error + unit) double_call" where
  "OAuthStateRepository_Store state data ttl = invoke ''unexpected OAuthStateRepository.Store call''
     (\<lambda>r. r\<lparr>StoreCalls := StoreCalls r + 1, StoreState := state, StoreData := data, StoreTTL := ttl\<rparr>)
     (\<lambda>r. map_option (\<lambda>f. f state data ttl) (StoreFunc r))"

definition OAuthStateRepository_Consume :: "string \<Rightarrow> ('w OAuthStateRepository, 'w, error + oauth_state_data option) double_call" where
  "OAuthStateRepository_Consume state = invoke ''unexpected OAuthStateRepository.Consume call''
     (\<lambda>r. r\<lparr>ConsumeCalls := ConsumeCalls r + 1, ConsumeState := state\<rparr>)
     (\<lambda>r. map_option (\<lambda>f. f state) (ConsumeFunc r))"

record 'w TokenBucketRepository =
  AllowFunc :: "(string \<Rightarrow> int \<Rightarrow> duration \<Rightarrow> ('w, bucket_decision) eff) option"
  AllowCalls :: nat
  AllowKey :: string
  AllowCapacity :: int
  AllowRefill :: duration

definition TokenBucketRepository_Allow :: "string \<Rightarrow> int \<Rightarrow> duration \<Rightarrow> ('w TokenBucketRepository, 'w, error + bucket_decision) double_call" where
  "TokenBucketRepository_Allow key capacity refill = invoke ''unexpected TokenBucketRepository.Allow call''
     (\<lambda>r. r\<lparr>AllowCalls := AllowCalls r + 1, AllowKey := key, AllowCapacity := capacity, AllowRefill := refill\<rparr>)
     (\<lambda>r. map_option (\<lambda>f. f key capacity refill) (AllowFunc r))"

record 'w KVHealthStore =
  PingFunc :: "('w, unit) eff option"
  PingCalls :: nat

definition KVHealthStore_Ping :: "('w KVHealthStore, 'w, error + unit) double_call" where
  "KVHealthStore_Ping = invoke ''unexpected KVHealthStore.Ping call'' (\<lambda>s. s\<lparr>PingCalls := PingCalls s + 1\<rparr>) PingFunc"

section \<open>repository/cache/cachetest\<close>

record 'w CacheHealthStore =
  PingFunc :: "('w, unit) eff option"
  PingCalls :: nat

definition CacheHealthStore_Ping :: "('w CacheHealthStore, 'w, error + unit) double_call" where
  "CacheHealthStore_Ping = invoke ''unexpected CacheHealthStore.Ping call'' (\<lambda>s. s\<lparr>PingCalls := PingCalls s + 1\<rparr>) PingFunc"

record 'w UserCacheDouble =
  GetByIDFunc :: "(int \<Rightarrow> ('w, user option) eff) option"
  GetByIDCalls :: nat
  GetByIDID :: int
  SetByIDFunc :: "(int \<Rightarrow> user \<Rightarrow> ('w, unit) eff) option"
  SetByIDCalls :: nat
  SetByIDID :: int
  SetByIDUser :: user
  DeleteByIDFunc :: "(int \<Rightarrow> ('w, unit) eff) option"
  DeleteByIDCalls :: nat
  DeleteByIDID :: int

definition UserCacheDouble_GetByID :: "int \<Rightarrow> ('w UserCacheDouble, 'w, error + user option) double_call" where
  "UserCacheDouble_GetByID i = invoke ''unexpected UserCacheStore.GetByID call''
     (\<lambda>s. s\<lparr>GetByIDCalls := GetByIDCalls s + 1, GetByIDID := i\<rparr>) (\<lambda>s. map_option (\<lambda>f. f i) (GetByIDFunc s))"

definition UserCacheDouble_SetByID :: "int \<Rightarrow> user \<Rightarrow> ('w UserCacheDouble, 'w, error + unit) double_call" where
  "UserCacheDouble_SetByID i u = invoke ''unexpected UserCacheStore.SetByID call''
     (\<lambda>s. s\<lparr>SetByIDCalls := SetByIDCalls s + 1, SetByIDID := i, SetByIDUser := u\<rparr>) (\<lambda>s. map_option (\<lambda>f. f i u) (SetByIDFunc s))"

definition UserCacheDouble_DeleteByID :: "int \<Rightarrow> ('w UserCacheDouble, 'w, error + unit) double_call" where
  "UserCacheDouble_DeleteByID i = invoke ''unexpected UserCacheStore.DeleteByID call''
     (\<lambda>s. s\<lparr>DeleteByIDCalls := DeleteByIDCalls s + 1, DeleteByIDID := i\<rparr>) (\<lambda>s. map_option (\<lambda>f. f i) (DeleteByIDFunc s))"

section \<open>repository/db/dbtest\<close>

record 'w UserRepository =
  GetByEmailFunc :: "(string \<Rightarrow> ('w, user) eff) option"
  GetByEmailCalls :: nat
  GetByEmailEmail :: string
  GetByIDFunc :: "(int \<Rightarrow> ('w, user) eff) option"
  GetByIDCalls :: nat
  GetByIDID :: int
  CreateByEmailFunc :: "(string \<Rightarrow> ('w, user) eff) option"
  CreateByEmailCalls :: nat
  CreateByEmailEmail :: string
  UpsertOAuthUserFunc :: "(oauth_user_upsert \<Rightarrow> ('w, user) eff) option"
  UpsertOAuthUserCalls :: nat
  UpsertOAuthUserInfo :: oauth_user_upsert

definition UserRepository_GetByEmail :: "string \<Rightarrow> ('w UserRepository, 'w, error + user) double_call" where
  "UserRepository_GetByEmail email = invoke ''unexpected UserRepository.GetByEmail call''
     (\<lambda>r. r\<lparr>GetByEmailCalls := GetByEmailCalls r + 1, GetByEmailEmail := email\<rparr>)
     (\<lambda>r. map_option (\<lambda>f. f email) (GetByEmailFunc r))"

definition UserRepository_GetByID :: "int \<Rightarrow> ('w UserRepository, 'w, error + user) double_call" where
  "UserRepository_GetByID i = invoke ''unexpected UserRepository.GetByID call''
     (\<lambda>r. r\<lparr>GetByIDCalls := GetByIDCalls r + 1, GetByIDID := i\<rparr>)
     (\<lambda>r. map_option (\<lambda>f. f i) (GetByIDFunc r))"

definition UserRepository_CreateByEmail :: "string \<Rightarrow> ('w UserRepository, 'w, error + user) double_call" where
  "UserRepository_CreateByEmail email = invoke ''unexpected UserRepository.CreateByEmail call''
     (\<lambda>r. r\<lparr>CreateByEmailCalls := CreateByEmailCalls r + 1, CreateByEmailEmail := email\<rparr>)
     (\<lambda>r. map_option (\<lambda>f. f email) (CreateByEmailFunc r))"

definition UserRepository_UpsertOAuthUser :: "oauth_user_upsert \<Rightarrow> ('w UserRepository, 'w, error + user) double_call" where
  "UserRepository_UpsertOAuthUser info = invoke ''unexpected UserRepository.UpsertOAuthUser call''
     (\<lambda>r. r\<lparr>UpsertOAuthUserCalls := UpsertOAuthUserCalls r + 1, UpsertOAuthUserInfo := info\<rparr>)
     (\<lambda>r. map_option (\<lambda>f. f info) (UpsertOAuthUserFunc r))"

record 'w DBHealthRepository =
  PingFunc :: "('w, unit) eff option"
  PingCalls :: nat
  GetServerStatusFunc :: "('w, db_server_status) eff option"
  GetServerStatusCalls :: nat

definition DBHealthRepository_Ping :: "('w DBHealthRepository, 'w, error + unit) double_call" where
  "DBHealthRepository_Ping = invoke ''unexpected DBHealthRepository.Ping call'' (\<lambda>r. r\<lparr>PingCalls := PingCalls r + 1\<rparr>) PingFunc"

definition DBHealthRepository_GetServerStatus :: "('w DBHealthRepository, 'w, error + db_server_status) double_call" where
  "DBHealthRepository_GetServerStatus = invoke ''unexpected DBHealthRepository.GetServerStatus call''
     (\<lambda>r. r\<lparr>GetServerStatusCalls := GetServerStatusCalls r + 1\<rparr>) GetServerStatusFunc"

section \<open>repository/external\<close>

record 'w OAuthProvider =
  ProviderName :: string
  AuthCodeURLFunc :: "(string \<Rightarrow> string \<Rightarrow> string) option"
  AuthCodeCalls :: nat
  AuthCodeState :: string
  AuthCodeVerifier :: string
  ExchangeFunc :: "(string \<Rightarrow> string \<Rightarrow> ('w, oauth_user_info) eff) option"
  ExchangeCalls :: nat
  ExchangeCode :: string
  ExchangeVerifier :: string

definition OAuthProvider_Name :: "'w OAuthProvider \<Rightarrow> string" where
  "OAuthProvider_Name p = (if ProviderName p = [] then ''test'' else ProviderName p)"

definition OAuthProvider_AuthCodeURL :: "string \<Rightarrow> string \<Rightarrow> ('w OAuthProvider, 'w, string) double_call" where
  "OAuthProvider_AuthCodeURL state codeVerifier = invoke ''unexpected OAuthProvider.AuthCodeURL call''
     (\<lambda>p. p\<lparr>AuthCodeCalls := AuthCodeCalls p + 1, AuthCodeState := state, AuthCodeVerifier := codeVerifier\<rparr>)
     (\<lambda>p. map_option (\<lambda>f w. (f state codeVerifier, w)) (AuthCodeURLFunc p))"

definition OAuthProvider_Exchange :: "string \<Rightarrow> string \<Rightarrow> ('w OAuthProvider, 'w, error + oauth_user_info) double_call" where
  "OAuthProvider_Exchange code codeVerifier = invoke ''unexpected OAuthProvider.Exchange call''
     (\<lambda>p. p\<lparr>ExchangeCalls := ExchangeCalls p + 1, ExchangeCode := code, ExchangeVerifier := codeVerifier\<rparr>)
     (\<lambda>p. map_option (\<lambda>f. f code codeVerifier) (ExchangeFunc p))"

record 'w EmailSender =
  SendOTPFunc :: "(string \<Rightarrow> string \<Rightarrow> ('w, unit) eff) option"
  SendOTPCalls :: nat
  SendOTPEmail :: string
  SendOTPCode :: string

definition EmailSender_SendOTP :: "string \<Rightarrow> string \<Rightarrow> ('w EmailSender, 'w, error + unit) double_call" where
  "EmailSender_SendOTP email code = invoke ''unexpected EmailSender.SendOTP call''
     (\<lambda>s. s\<lparr>SendOTPCalls := SendOTPCalls s + 1, SendOTPEmail := email, SendOTPCode := code\<rparr>)
     (\<lambda>s. map_option (\<lambda>f. f email code) (SendOTPFunc s))"

record PutObjectCall =
  Put_Key :: string
  Put_Body :: string
  Put_ContentType :: string

record SignGetObjectURLCall =
  Sign_Key :: string
  Sign_TTL :: duration

text \<open>\<open>T\<close> says whether the double has a \<^verbatim>\<open>testing.TB\<close>.\<close>

record 'w ObjectStorage =
  T :: bool
  PutObjectFunc :: "(string \<Rightarrow> string \<Rightarrow> string \<Rightarrow> ('w, put_object_result) eff) option"
  ObjectExistsFunc :: "(string \<Rightarrow> ('w, bool) eff) option"
  SignGetObjectURLFunc :: "(string \<Rightarrow> duration \<Rightarrow> ('w, string) eff) option"
  PutObjectCalls :: "PutObjectCall list"
  ObjectExistsCalls :: "string list"
  SignGetObjectURLCalls :: "SignGetObjectURLCall list"

definition ObjectStorage_unexpected :: "string \<Rightarrow> 'w ObjectStorage \<Rightarrow> 'a called" where
  "ObjectStorage_unexpected name s =
     (if T s then Fatal (''unexpected ObjectStorage.'' @ name @ '' call'') else Panics (''unexpected ObjectStorage.'' @ name @ '' call''))"

definition ObjectStorage_PutObject :: "string \<Rightarrow> string \<Rightarrow> string \<Rightarrow> ('w ObjectStorage, 'w, error + put_object_result) double_call" where
  "ObjectStorage_PutObject key body contentType = invoke_else (ObjectStorage_unexpected ''PutObject'')
     (\<lambda>s. s\<lparr>PutObjectCalls := PutObjectCalls s @ [\<lparr>Put_Key = key, Put_Body = body, Put_ContentType = contentType\<rparr>]\<rparr>)
     (\<lambda>s. map_option (\<lambda>f. f key body contentType) (PutObjectFunc s))"

definition ObjectStorage_ObjectExists :: "string \<Rightarrow> ('w ObjectStorage, 'w, error + bool) double_call" where
  "ObjectStorage_ObjectExists key = invoke_else (ObjectStorage_unexpected ''ObjectExists'')
     (\<lambda>s. s\<lparr>ObjectExistsCalls := ObjectExistsCalls s @ [key]\<rparr>)
     (\<lambda>s. map_option (\<lambda>f. f key) (ObjectExistsFunc s))"

definition ObjectStorage_SignGetObjectURL :: "string \<Rightarrow> duration \<Rightarrow> ('w ObjectStorage, 'w, error + string) double_call" where
  "ObjectStorage_SignGetObjectURL key ttl = invoke_else (ObjectStorage_unexpected ''SignGetObjectURL'')
     (\<lambda>s. s\<lparr>SignGetObjectURLCalls := SignGetObjectURLCalls s @ [\<lparr>Sign_Key = key, Sign_TTL = ttl\<rparr>]\<rparr>)
     (\<lambda>s. map_option (\<lambda>f. f key ttl) (SignGetObjectURLFunc s))"

record 'w ObjectURLSigner =
  T :: bool
  SignGetObjectURLFunc :: "(string \<Rightarrow> duration \<Rightarrow> ('w, string) eff) option"
  SignGetObjectURLCalls :: "SignGetObjectURLCall list"

definition ObjectURLSigner_unexpected :: "string \<Rightarrow> 'w ObjectURLSigner \<Rightarrow> 'a called" where
  "ObjectURLSigner_unexpected name s =
     (if T s then Fatal (''unexpected ObjectURLSigner.'' @ name @ '' call'') else Panics (''unexpected ObjectURLSigner.'' @ name @ '' call''))"

definition ObjectURLSigner_SignGetObjectURL :: "string \<Rightarrow> duration \<Rightarrow> ('w ObjectURLSigner, 'w, error + string) double_call" where
  "ObjectURLSigner_SignGetObjectURL key ttl = invoke_else (ObjectURLSigner_unexpected ''SignGetObjectURL'')
     (\<lambda>s. s\<lparr>SignGetObjectURLCalls := SignGetObjectURLCalls s @ [\<lparr>Sign_Key = key, Sign_TTL = ttl\<rparr>]\<rparr>)
     (\<lambda>s. map_option (\<lambda>f. f key ttl) (SignGetObjectURLFunc s))"

section \<open>Use cases and routes\<close>

record 'w SessionManager =
  CreateFunc :: "(auth_identity \<Rightarrow> ('w, auth_session) eff) option"
  CreateCalls :: nat
  CreateIdentity :: auth_identity
  ValidateFunc :: "(string \<Rightarrow> ('w, auth_session) eff) option"
  ValidateCalls :: nat
  ValidateToken :: string
  RevokeFunc :: "(string \<Rightarrow> ('w, unit) eff) option"
  RevokeCalls :: nat
  RevokeToken :: string

definition SessionManager_Create :: "auth_identity \<Rightarrow> ('w SessionManager, 'w, error + auth_session) double_call" where
  "SessionManager_Create identity = invoke ''unexpected SessionManager.Create call''
     (\<lambda>m. m\<lparr>CreateCalls := CreateCalls m + 1, CreateIdentity := identity\<rparr>)
     (\<lambda>m. map_option (\<lambda>f. f identity) (CreateFunc m))"

definition SessionManager_Validate :: "string \<Rightarrow> ('w SessionManager, 'w, error + auth_session) double_call" where
  "SessionManager_Validate token = invoke ''unexpected SessionManager.Validate call''
     (\<lambda>m. m\<lparr>ValidateCalls := ValidateCalls m + 1, ValidateToken := token\<rparr>)
     (\<lambda>m. map_option (\<lambda>f. f token) (ValidateFunc m))"

definition SessionManager_Revoke :: "string \<Rightarrow> ('w SessionManager, 'w, error + unit) double_call" where
  "SessionManager_Revoke token = invoke ''unexpected SessionManager.Revoke call''
     (\<lambda>m. m\<lparr>RevokeCalls := RevokeCalls m + 1, RevokeToken := token\<rparr>)
     (\<lambda>m. map_option (\<lambda>f. f token) (RevokeFunc m))"

record 'w OTPAuthenticator =
  SendCodeFunc :: "(string \<Rightarrow> ('w, unit) eff) option"
  SendCodeCalls :: nat
  SendCodeEmail :: string
  VerifyCodeFunc :: "(string \<Rightarrow> string \<Rightarrow> ('w, auth_identity) eff) option"
  VerifyCodeCalls :: nat
  VerifyCodeEmail :: string
  VerifyCodeCode :: string

definition OTPAuthenticator_SendCode :: "string \<Rightarrow> ('w OTPAuthenticator, 'w, error + unit) double_call" where
  "OTPAuthenticator_SendCode email = invoke ''unexpected OTPAuthenticator.SendCode call''
     (\<lambda>a. a\<lparr>SendCodeCalls := SendCodeCalls a + 1, SendCodeEmail := email\<rparr>)
     (\<lambda>a. map_option (\<lambda>f. f email) (SendCodeFunc a))"

definition OTPAuthenticator_VerifyCode :: "string \<Rightarrow> string \<Rightarrow> ('w OTPAuthenticator, 'w, error + auth_identity) double_call" where
  "OTPAuthenticator_VerifyCode email code = invoke ''unexpected OTPAuthenticator.VerifyCode call''
     (\<lambda>a. a\<lparr>VerifyCodeCalls := VerifyCodeCalls a + 1, VerifyCodeEmail := email, VerifyCodeCode := code\<rparr>)
     (\<lambda>a. map_option (\<lambda>f. f email code) (VerifyCodeFunc a))"

record 'w OAuthAuthenticator =
  AuthorizeFunc :: "(string \<Rightarrow> ('w, authorization) eff) option"
  AuthorizeCalls :: nat
  AuthorizeProvider :: string
  HandleCallbackFunc :: "(string \<Rightarrow> string \<Rightarrow> string \<Rightarrow> string \<Rightarrow> ('w, auth_identity) eff) option"
  HandleCallbackCalls :: nat
  HandleCallbackProvider :: string
  HandleCallbackCode :: string
  HandleCallbackState :: string
  HandleCallbackBinding :: string

definition OAuthAuthenticator_Authorize :: "string \<Rightarrow> ('w OAuthAuthenticator, 'w, error + authorization) double_call" where
  "OAuthAuthenticator_Authorize provider = invoke ''unexpected OAuthAuthenticator.Authorize call''
     (\<lambda>a. a\<lparr>AuthorizeCalls := AuthorizeCalls a + 1, AuthorizeProvider := provider\<rparr>)
     (\<lambda>a. map_option (\<lambda>f. f provider) (AuthorizeFunc a))"

definition OAuthAuthenticator_HandleCallback :: "string \<Rightarrow> string \<Rightarrow> string \<Rightarrow> string \<Rightarrow> ('w OAuthAuthenticator, 'w, error + auth_identity) double_call" where
  "OAuthAuthenticator_HandleCallback provider code state browserBinding = invoke ''unexpected OAuthAuthenticator.HandleCallback call''
     (\<lambda>a. a\<lparr>HandleCallbackCalls := HandleCallbackCalls a + 1, HandleCallbackProvider := provider, HandleCallbackCode := code,
             HandleCallbackState := state, HandleCallbackBinding := browserBinding\<rparr>)
     (\<lambda>a. map_option (\<lambda>f. f provider code state browserBinding) (HandleCallbackFunc a))"

record 'w Usecase =
  CheckFunc :: "(string \<Rightarrow> ('w, health_result) check) option"
  CheckCalls :: nat
  CheckMode :: string

definition Usecase_Check :: "string \<Rightarrow> ('w Usecase, 'w, health_result \<times> error + health_result) double_call" where
  "Usecase_Check mode = invoke ''unexpected health Usecase.Check call''
     (\<lambda>u. u\<lparr>CheckCalls := CheckCalls u + 1, CheckMode := mode\<rparr>)
     (\<lambda>u. map_option (\<lambda>f. f mode) (CheckFunc u))"

record 'w Limiter =
  AllowIPFunc :: "(string \<Rightarrow> ('w, decision) eff) option"
  AllowIPCalls :: nat
  AllowIPIP :: string

definition Limiter_AllowIP :: "string \<Rightarrow> ('w Limiter, 'w, error + decision) double_call" where
  "Limiter_AllowIP ip = invoke ''unexpected Limiter.AllowIP call''
     (\<lambda>l. l\<lparr>AllowIPCalls := AllowIPCalls l + 1, AllowIPIP := ip\<rparr>)
     (\<lambda>l. map_option (\<lambda>f. f ip) (AllowIPFunc l))"

text \<open>A route registrar acts on the router.\<close>

record 'e RouteRegistrar =
  RegisterRoutesFunc :: "('e \<Rightarrow> 'e) option"
  RegisterRoutesCalls :: nat

definition RouteRegistrar_RegisterRoutes :: "('e RouteRegistrar, 'e, unit) double_call" where
  "RouteRegistrar_RegisterRoutes = invoke ''unexpected RouteRegistrar.RegisterRoutes call''
     (\<lambda>r. r\<lparr>RegisterRoutesCalls := RegisterRoutesCalls r + 1\<rparr>)
     (\<lambda>r. map_option (\<lambda>f e. ((), f e)) (RegisterRoutesFunc r))"

text \<open>
  \<^verbatim>\<open>httptest.NewValidator\<close>: the validation library is a parameter, its state \<open>'v\<close>, as is the
  text \<open>shown\<close> of an error; a registration that fails ends the test.
\<close>

fun NewValidator :: "(error \<Rightarrow> string) \<Rightarrow> ('v \<Rightarrow> error option \<times> 'v) list \<Rightarrow> 'v \<Rightarrow> 'v called" where
  "NewValidator shown [] v = Answered v"
| "NewValidator shown (register # registrars) v =
     (case register v of (Some e, _) \<Rightarrow> Fatal (''register validation: '' @ shown e) | (None, v') \<Rightarrow> NewValidator shown registrars v')"

definition Validator_Validate :: "('v \<Rightarrow> 'x \<Rightarrow> error option) \<Rightarrow> 'v \<Rightarrow> 'x \<Rightarrow> error option" where
  "Validator_Validate Struct v value = Struct v value"

section \<open>Running a use case on doubles\<close>

text \<open>
  A bench is the struct, or the structs, of the doubles a use case is wired with. \<open>part\<close> is the interface value a
  double is passed as; \<open>aside\<close> is what does not touch the bench. A panic leaves the use case and ends the test, so the
  value \<open>part\<close> gives for it is not observed: the rules below are about doubles whose functions are set.
\<close>

definition part :: "('b \<Rightarrow> 'd) \<Rightarrow> (('d \<Rightarrow> 'd) \<Rightarrow> 'b \<Rightarrow> 'b) \<Rightarrow> ('d, 'w, error + 'a) double_call \<Rightarrow> ('b \<times> 'w, 'a) eff" where
  "part get put call = (\<lambda>(b, w). case call (get b, w) of (c, d, w') \<Rightarrow>
     (case c of Answered r \<Rightarrow> r | Panics m \<Rightarrow> Inl (External m) | Fatal m \<Rightarrow> Inl (External m), put (\<lambda>_. d) b, w'))"

definition aside :: "('w, 'e, 'a) io \<Rightarrow> ('b \<times> 'w, 'e, 'a) io" where
  "aside m = (\<lambda>(b, w). case m w of (r, w') \<Rightarrow> (r, b, w'))"

definition beside :: "'w sink \<Rightarrow> ('b \<times> 'w) sink" where
  "beside sink ev = apsnd (sink ev)"

definition beside_host :: "'w host \<Rightarrow> ('b \<times> 'w) host" where
  "beside_host h = \<lparr>Now = Now h \<circ> snd, Read_random = (\<lambda>n. aside (Read_random h n)), Rand_Int = (\<lambda>n. aside (Rand_Int h n)), Sum256 = Sum256 h\<rparr>"

text \<open>
  \<open>relays P m' m Q\<close>: from a bench with \<open>P\<close>, the computation \<open>m'\<close> on the bench returns what \<open>m\<close> returns, leaves the world
  as \<open>m\<close> leaves it, and ends on a bench with \<open>Q\<close> of that result.
\<close>

definition relays :: "('b \<Rightarrow> bool) \<Rightarrow> ('b \<times> 'w, 'e, 'a) io \<Rightarrow> ('w, 'e, 'a) io \<Rightarrow> ('e + 'a \<Rightarrow> 'b \<Rightarrow> bool) \<Rightarrow> bool" where
  "relays P m' m Q \<longleftrightarrow> (\<forall>b w. P b \<longrightarrow> (\<exists>b'. Q (fst (m w)) b' \<and> m' (b, w) = (fst (m w), b', snd (m w))))"

lemma relaysD: "relays P m' m Q \<Longrightarrow> P b \<Longrightarrow> \<exists>b'. Q (fst (m w)) b' \<and> m' (b, w) = (fst (m w), b', snd (m w))"
  by (simp add: relays_def)

lemma relays_return: "(\<And>b. P b \<Longrightarrow> Q (Inr x) b) \<Longrightarrow> relays P (return x) (return x) Q"
  by (simp add: relays_def return_def)

lemma relays_fail: "(\<And>b. P b \<Longrightarrow> Q (Inl e) b) \<Longrightarrow> relays P (fail e) (fail e) Q"
  by (simp add: relays_def fail_def)

lemma relays_attempt:
  assumes "relays P m' m R" "\<And>e. relays (R (Inl e)) (h' e) (h e) Q" "\<And>x. relays (R (Inr x)) (k' x) (k x) Q"
  shows "relays P (attempt m' h' k') (attempt m h k) Q"
  unfolding relays_def
proof (intro allI impI)
  fix b w
  assume "P b"
  then obtain b1 where b1: "R (fst (m w)) b1" "m' (b, w) = (fst (m w), b1, snd (m w))"
    using relaysD [OF assms(1)] by blast
  obtain r w1 where m: "m w = (r, w1)"
    by (cases "m w")
  show "\<exists>b'. Q (fst (attempt m h k w)) b' \<and> attempt m' h' k' (b, w) = (fst (attempt m h k w), b', snd (attempt m h k w))"
    using b1 m relaysD [OF assms(2)] relaysD [OF assms(3)] by (cases r) (simp_all add: attempt_def)
qed

lemma relays_perform: "relays P m' m Q \<Longrightarrow> relays P (perform (apsnd f) m') (perform f m) Q"
  by (simp add: relays_def perform_def)

lemma relays_with_span:
  assumes "relays P m' m Q" "tr' = beside tr" "\<And>e. before' e = apsnd (before e)"
  shows "relays P (with_span tr' scope name f before' m') (with_span tr scope name f before m) Q"
proof -
  have "relays P (finally_do m' (\<lambda>r w. beside tr (SpanFinish (err_of r) None) (before' (err_of r) w)))
          (finally_do m (\<lambda>r w. tr (SpanFinish (err_of r) None) (before (err_of r) w))) Q"
    unfolding relays_def
  proof (intro allI impI)
    fix b w
    assume "P b"
    then obtain b' where "Q (fst (m w)) b'" "m' (b, w) = (fst (m w), b', snd (m w))"
      using relaysD [OF assms(1)] by blast
    then show "\<exists>b'. Q (fst (finally_do m (\<lambda>r w. tr (SpanFinish (err_of r) None) (before (err_of r) w)) w)) b' \<and>
        finally_do m' (\<lambda>r w. beside tr (SpanFinish (err_of r) None) (before' (err_of r) w)) (b, w) =
          (fst (finally_do m (\<lambda>r w. tr (SpanFinish (err_of r) None) (before (err_of r) w)) w), b',
           snd (finally_do m (\<lambda>r w. tr (SpanFinish (err_of r) None) (before (err_of r) w)) w))"
      using assms(3) by (auto simp: finally_do_def beside_def case_prod_beta)
  qed
  then show ?thesis
    unfolding with_span_def assms(2) beside_def by (rule relays_perform)
qed

lemma relays_aside: "relays P (aside m) m (\<lambda>_. P)"
  by (simp add: relays_def aside_def case_prod_beta)

text \<open>A use case that reads the clock.\<close>

lemma relays_if_read:
  "relays P m' m Q \<Longrightarrow> relays P n' n Q \<Longrightarrow> (\<And>b w. c' (b, w) = c w) \<Longrightarrow> relays P (\<lambda>s. if c' s then m' s else n' s) (\<lambda>w. if c w then m w else n w) Q"
  by (simp add: relays_def)

lemma relays_read: "(\<And>n. relays P (k' n) (k n) Q) \<Longrightarrow> (\<And>b w. g' (b, w) = g w) \<Longrightarrow> relays P (\<lambda>s. k' (g' s) s) (\<lambda>w. k (g w) w) Q"
  by (simp add: relays_def)

lemma relays_if: "(c \<Longrightarrow> relays P m' m Q) \<Longrightarrow> (\<not> c \<Longrightarrow> relays P n' n Q) \<Longrightarrow> relays P (if c then m' else n') (if c then m else n) Q"
  by simp

text \<open>A call to a configured double: the bench afterwards is the one before with the call noted.\<close>

lemma relays_call:
  assumes "\<And>b. P b \<Longrightarrow> func (note (get b)) = Some f"
  shows "relays P (part get put (invoke message note func)) f (\<lambda>_ b'. \<exists>b. P b \<and> b' = put (\<lambda>_. note (get b)) b)"
  using assms by (fastforce simp: relays_def part_def invoke_configured split: prod.splits)

section \<open>The one-time password authenticator on doubles\<close>

record 'w otp_bench =
  ob_otp :: "'w OTPRepository"
  ob_mail :: "'w EmailSender"
  ob_users :: "'w UserRepository"

definition otp_on_bench :: "'w otp_authenticator \<Rightarrow> ('w otp_bench \<times> 'w) otp_authenticator" where
  "otp_on_bench a =
     \<lparr>oa_log = beside (oa_log a), oa_tracer = beside (oa_tracer a), oa_meter = beside (oa_meter a),
      oa_otpRepo = \<lparr>otp_Store = (\<lambda>e h t. part ob_otp ob_otp_update (OTPRepository_Store e h t)),
                    otp_Consume = (\<lambda>e h. part ob_otp ob_otp_update (OTPRepository_Consume e h)),
                    otp_Delete = (\<lambda>e. part ob_otp ob_otp_update (OTPRepository_Delete e))\<rparr>,
      oa_emailSender = \<lparr>SendOTP = (\<lambda>e c. part ob_mail ob_mail_update (EmailSender_SendOTP e c))\<rparr>,
      oa_userRepo = \<lparr>ur_GetByEmail = (\<lambda>e. part ob_users ob_users_update (UserRepository_GetByEmail e)),
                     ur_GetByID = (\<lambda>i. part ob_users ob_users_update (UserRepository_GetByID i)),
                     ur_CreateByEmail = (\<lambda>e. part ob_users ob_users_update (UserRepository_CreateByEmail e)),
                     ur_UpsertOAuthUser = (\<lambda>i. part ob_users ob_users_update (UserRepository_UpsertOAuthUser i))\<rparr>,
      oa_codeLength = oa_codeLength a, oa_ttl = oa_ttl a\<rparr>"

text \<open>The doubles delegate to what the authenticator \<open>a\<close> is wired with.\<close>

definition otp_configured :: "'w otp_authenticator \<Rightarrow> 'w otp_bench \<Rightarrow> bool" where
  "otp_configured a b \<longleftrightarrow>
     OTPRepository.StoreFunc (ob_otp b) = Some (otp_Store (oa_otpRepo a)) \<and>
     OTPRepository.ConsumeFunc (ob_otp b) = Some (otp_Consume (oa_otpRepo a)) \<and>
     OTPRepository.DeleteFunc (ob_otp b) = Some (otp_Delete (oa_otpRepo a)) \<and>
     SendOTPFunc (ob_mail b) = Some (SendOTP (oa_emailSender a)) \<and>
     GetByEmailFunc (ob_users b) = Some (ur_GetByEmail (oa_userRepo a)) \<and>
     CreateByEmailFunc (ob_users b) = Some (ur_CreateByEmail (oa_userRepo a))"

lemmas on_bench_simps = otp_on_bench_def beside_host_def
  OTPRepository_Store_def OTPRepository_Consume_def OTPRepository_Delete_def EmailSender_SendOTP_def
  UserRepository_GetByEmail_def UserRepository_CreateByEmail_def

lemmas relays_rules = relays_attempt [OF relays_call] relays_if relays_fail relays_return

lemma generateNumericCode_relays: "relays P (generateNumericCode (beside_host h) n) (generateNumericCode h n) (\<lambda>_. P)"
  unfolding generateNumericCode_def beside_host_def host.simps
  by (rule relays_attempt [OF relays_aside]) (auto intro: relays_fail relays_return)

lemma find_or_create_relays:
  assumes "\<And>b. P b \<Longrightarrow> otp_configured a b"
  shows "relays P (find_or_create (otp_on_bench a) email) (find_or_create a email)
    (\<lambda>_ b'. otp_configured a b' \<and> (\<exists>b. P b \<and> ob_otp b' = ob_otp b \<and> ob_mail b' = ob_mail b))"
  using assms [unfolded otp_configured_def] unfolding find_or_create_def on_bench_simps otp_authenticator.simps user_repo.simps
  by (intro relays_rules) (auto simp: otp_configured_def)

text \<open>What a call to each of the doubles leaves on the bench.\<close>

definition noted_store :: "string \<Rightarrow> string \<Rightarrow> duration \<Rightarrow> 'w OTPRepository \<Rightarrow> 'w OTPRepository" where
  "noted_store email hash ttl = OTPRepository.StoreCalls_update Suc \<circ> OTPRepository.StoreEmail_update (\<lambda>_. email) \<circ>
     OTPRepository.StoreHashedCode_update (\<lambda>_. hash) \<circ> OTPRepository.StoreTTL_update (\<lambda>_. ttl)"

definition noted_consume :: "string \<Rightarrow> string \<Rightarrow> 'w OTPRepository \<Rightarrow> 'w OTPRepository" where
  "noted_consume email hash = OTPRepository.ConsumeCalls_update Suc \<circ> OTPRepository.ConsumeEmail_update (\<lambda>_. email) \<circ>
     OTPRepository.ConsumeHash_update (\<lambda>_. hash)"

definition noted_delete :: "string \<Rightarrow> 'w OTPRepository \<Rightarrow> 'w OTPRepository" where
  "noted_delete email = OTPRepository.DeleteCalls_update Suc \<circ> OTPRepository.DeleteEmail_update (\<lambda>_. email)"

definition noted_mail :: "string \<Rightarrow> string \<Rightarrow> 'w EmailSender \<Rightarrow> 'w EmailSender" where
  "noted_mail email code = SendOTPCalls_update Suc \<circ> SendOTPEmail_update (\<lambda>_. email) \<circ> SendOTPCode_update (\<lambda>_. code)"

lemma otp_double_relays:
  assumes "\<And>b. P b \<Longrightarrow> otp_configured a b"
  shows "relays P (otp_Store (oa_otpRepo (otp_on_bench a)) e c t) (otp_Store (oa_otpRepo a) e c t)
      (\<lambda>_ b'. \<exists>b. P b \<and> b' = ob_otp_update (noted_store e c t) b)"
    and "relays P (otp_Consume (oa_otpRepo (otp_on_bench a)) e c) (otp_Consume (oa_otpRepo a) e c)
      (\<lambda>_ b'. \<exists>b. P b \<and> b' = ob_otp_update (noted_consume e c) b)"
    and "relays P (otp_Delete (oa_otpRepo (otp_on_bench a)) e) (otp_Delete (oa_otpRepo a) e)
      (\<lambda>_ b'. \<exists>b. P b \<and> b' = ob_otp_update (noted_delete e) b)"
    and "relays P (SendOTP (oa_emailSender (otp_on_bench a)) e c) (SendOTP (oa_emailSender a) e c)
      (\<lambda>_ b'. \<exists>b. P b \<and> b' = ob_mail_update (noted_mail e c) b)"
  using assms [unfolded otp_configured_def]
  by (fastforce simp: on_bench_simps noted_store_def noted_consume_def noted_delete_def noted_mail_def relays_def part_def
      invoke_configured case_prod_beta)+

lemma otp_configured_noted [simp]:
  "otp_configured a (ob_otp_update (noted_store e c t) b) \<longleftrightarrow> otp_configured a b"
  "otp_configured a (ob_otp_update (noted_consume e c) b) \<longleftrightarrow> otp_configured a b"
  "otp_configured a (ob_otp_update (noted_delete e) b) \<longleftrightarrow> otp_configured a b"
  "otp_configured a (ob_mail_update (noted_mail e c) b) \<longleftrightarrow> otp_configured a b"
  "otp_configured a (ob_otp_update (noted_delete e \<circ> noted_store e' c t) b) \<longleftrightarrow> otp_configured a b"
  by (simp_all add: otp_configured_def noted_store_def noted_consume_def noted_delete_def noted_mail_def)

lemma otp_on_bench_simps [simp]:
  "hashCode (beside_host h) = hashCode h" "oa_tracer (otp_on_bench a) = beside (oa_tracer a)"
  "oa_codeLength (otp_on_bench a) = oa_codeLength a" "oa_ttl (otp_on_bench a) = oa_ttl a"
  "otp_outcome (otp_on_bench a) counter e = apsnd (otp_outcome a counter e)"
  "Warn (oa_log (otp_on_bench a)) m f = apsnd (Warn (oa_log a) m f)"
  by (simp_all add: fun_eq_iff hashCode_def beside_host_def otp_on_bench_def otp_outcome_def beside_def Warn_def)

lemmas otp_relays_rules = relays_with_span relays_if relays_perform relays_fail relays_return
  relays_attempt [OF otp_double_relays(1)] relays_attempt [OF otp_double_relays(2)] relays_attempt [OF otp_double_relays(3)]
  relays_attempt [OF otp_double_relays(4)] relays_attempt [OF find_or_create_relays] relays_attempt [OF generateNumericCode_relays]

text \<open>A check that got its arguments consumed the code of the address once, with the hash of the code given; no other check touches the doubles.\<close>

lemma VerifyCode_relays:
  "relays (\<lambda>b. b = b0 \<and> otp_configured a b0) (VerifyCode (beside_host h) (otp_on_bench a) email code) (VerifyCode h a email code)
    (\<lambda>_ b. otp_configured a b \<and> ob_mail b = ob_mail b0 \<and>
      ob_otp b = (if email = [] \<or> code = [] then ob_otp b0 else noted_consume email (hashCode h code) (ob_otp b0)))"
  unfolding VerifyCode_def otp_on_bench_simps by (intro otp_relays_rules) auto

text \<open>The code that was mailed is the one whose hash was stored; when mailing failed, the code was deleted again.\<close>

lemma SendCode_relays:
  "relays (\<lambda>b. b = b0 \<and> otp_configured a b0) (SendCode (beside_host h) (otp_on_bench a) errv email) (SendCode h a errv email)
    (\<lambda>r b. otp_configured a b \<and> ob_users b = ob_users b0 \<and>
      (r = Inr () \<longrightarrow> (\<exists>code. ob_mail b = noted_mail email code (ob_mail b0) \<and>
         ob_otp b = noted_store email (hashCode h code) (oa_ttl a) (ob_otp b0))))"
  unfolding SendCode_def otp_on_bench_simps by (intro otp_relays_rules) auto

text \<open>
  (C39) The one-time password authenticator run on configured test doubles behaves as on the repositories and the sender the doubles
  delegate to: sending and checking a code return the same result and leave the same world, whatever fails. The doubles have
  seen what a test asserts: after a code was sent, one more mail was recorded, to the address given, and the hash that was stored is
  that of the code that was mailed; a check with both arguments was recorded as one more consumption of the code of that address
  with the hash of the code given, and a check without them reached neither double.
\<close>

theorem otp_on_doubles:
  assumes "otp_configured a b"
  shows "\<exists>b1 b2.
    SendCode (beside_host h) (otp_on_bench a) errv email (b, w) = (fst (SendCode h a errv email w), b1, snd (SendCode h a errv email w)) \<and>
    VerifyCode (beside_host h) (otp_on_bench a) email code (b, w) = (fst (VerifyCode h a email code w), b2, snd (VerifyCode h a email code w)) \<and>
    (fst (SendCode h a errv email w) = Inr () \<longrightarrow>
       SendOTPCalls (ob_mail b1) = SendOTPCalls (ob_mail b) + 1 \<and> SendOTPEmail (ob_mail b1) = email \<and>
       OTPRepository.StoreCalls (ob_otp b1) = OTPRepository.StoreCalls (ob_otp b) + 1 \<and> StoreEmail (ob_otp b1) = email \<and>
       StoreHashedCode (ob_otp b1) = hashCode h (SendOTPCode (ob_mail b1)) \<and>
       OTPRepository.DeleteCalls (ob_otp b1) = OTPRepository.DeleteCalls (ob_otp b)) \<and>
    ob_mail b2 = ob_mail b \<and>
    (if email = [] \<or> code = [] then ob_otp b2 = ob_otp b
     else OTPRepository.ConsumeCalls (ob_otp b2) = OTPRepository.ConsumeCalls (ob_otp b) + 1 \<and> ConsumeEmail (ob_otp b2) = email \<and>
       ConsumeHash (ob_otp b2) = hashCode h code)"
proof -
  obtain b1 where "SendCode (beside_host h) (otp_on_bench a) errv email (b, w) = (fst (SendCode h a errv email w), b1, snd (SendCode h a errv email w))"
    "fst (SendCode h a errv email w) = Inr () \<longrightarrow> (\<exists>c. ob_mail b1 = noted_mail email c (ob_mail b) \<and>
       ob_otp b1 = noted_store email (hashCode h c) (oa_ttl a) (ob_otp b))"
    using relaysD [OF SendCode_relays [of b a h errv email], of b w] assms by auto
  moreover obtain b2 where "VerifyCode (beside_host h) (otp_on_bench a) email code (b, w) = (fst (VerifyCode h a email code w), b2, snd (VerifyCode h a email code w))"
    "ob_mail b2 = ob_mail b" "ob_otp b2 = (if email = [] \<or> code = [] then ob_otp b else noted_consume email (hashCode h code) (ob_otp b))"
    using relaysD [OF VerifyCode_relays [of b a h email code], of b w] assms by auto
  ultimately show ?thesis
    by (intro exI [of _ b1] exI [of _ b2]) (auto simp: noted_mail_def noted_store_def noted_consume_def)
qed

text \<open>Doubles as a test creates them: the functions set, everything else zero.\<close>

definition fresh_bench :: "'w otp_authenticator \<Rightarrow> 'w otp_bench" where
  "fresh_bench a =
     \<lparr>ob_otp = OTPRepository.make (Some (otp_Store (oa_otpRepo a))) 0 [] [] 0 (Some (otp_Consume (oa_otpRepo a))) 0 [] []
        (Some (otp_Delete (oa_otpRepo a))) 0 [],
      ob_mail = EmailSender.make (Some (SendOTP (oa_emailSender a))) 0 [] [],
      ob_users = UserRepository.make (Some (ur_GetByEmail (oa_userRepo a))) 0 [] (Some (ur_GetByID (oa_userRepo a))) 0 0
        (Some (ur_CreateByEmail (oa_userRepo a))) 0 [] (Some (ur_UpsertOAuthUser (oa_userRepo a))) 0 \<lparr>Provider = [], ProviderUserID = [], Upsert_Email = []\<rparr>\<rparr>"

lemma fresh_bench_configured: "otp_configured a (fresh_bench a)"
  by (simp add: otp_configured_def fresh_bench_def OTPRepository.defs EmailSender.defs UserRepository.defs)

theorem otp_on_doubles_witness:
  "let a = wired_otp keyspace_redis Hour (\<lambda>_. AOther []) trace_sink trace_sink trace_sink
         \<lparr>SendOTP = StubSender_SendOTP trace_sink\<rparr> \<lparr>CodeLength = 6, OTP_TTL = Minute\<rparr>;
       h = world_host (\<lambda>s. map of_char s)
   in \<exists>b. VerifyCode (beside_host h) (otp_on_bench a) ''a@b.c'' ''1'' (fresh_bench a, pending_otp) =
        (fst (VerifyCode h a ''a@b.c'' ''1'' pending_otp), b, snd (VerifyCode h a ''a@b.c'' ''1'' pending_otp)) \<and>
      OTPRepository.ConsumeCalls (ob_otp b) = 1 \<and> ConsumeEmail (ob_otp b) = ''a@b.c'' \<and> ConsumeHash (ob_otp b) = ''31''"
proof -
  let ?a = "wired_otp keyspace_redis Hour (\<lambda>_. AOther []) trace_sink trace_sink trace_sink
         \<lparr>SendOTP = StubSender_SendOTP trace_sink\<rparr> \<lparr>CodeLength = 6, OTP_TTL = Minute\<rparr>"
  have "OTPRepository.ConsumeCalls (ob_otp (fresh_bench ?a)) = 0"
    by (simp add: fresh_bench_def OTPRepository.defs)
  moreover have "hashCode (world_host (\<lambda>s. map of_char s)) ''1'' = ''31''"
    by (simp add: hashCode_def EncodeToString_def hex_digit_def world_host_def)
  ultimately show ?thesis
    using otp_on_doubles [OF fresh_bench_configured [of ?a], of "world_host (\<lambda>s. map of_char s)" "\<lambda>_. AOther []" "''a@b.c''" pending_otp "''1''"]
    by (auto simp: Let_def)
qed

text \<open>A method whose function is not set panics, with the call noted and the world as it was.\<close>

lemma unconfigured_panics:
  "OTPRepository.StoreFunc d = None \<Longrightarrow> OTPRepository_Store e c t (d, w) = (Panics ''unexpected OTPRepository.Store call'', noted_store e c t d, w)"
  "OTPRepository.ConsumeFunc d = None \<Longrightarrow> OTPRepository_Consume e c (d, w) = (Panics ''unexpected OTPRepository.Consume call'', noted_consume e c d, w)"
  "OTPRepository.DeleteFunc d = None \<Longrightarrow> OTPRepository_Delete e (d, w) = (Panics ''unexpected OTPRepository.Delete call'', noted_delete e d, w)"
  by (simp_all add: OTPRepository_Store_def OTPRepository_Consume_def OTPRepository_Delete_def invoke_def invoke_else_def
      noted_store_def noted_consume_def noted_delete_def Let_def)

section \<open>The session manager on doubles\<close>

definition sessions_on_bench :: "'w session_manager \<Rightarrow> ('w SessionRepository \<times> 'w) session_manager" where
  "sessions_on_bench m =
     \<lparr>sm_log = beside (sm_log m), sm_tracer = beside (sm_tracer m), sm_meter = beside (sm_meter m),
      sm_repo = \<lparr>sess_Create = (\<lambda>d t. part id (\<lambda>f. f) (SessionRepository_Create d t)),
                 sess_GetByToken = (\<lambda>t. part id (\<lambda>f. f) (SessionRepository_GetByToken t)),
                 sess_Delete = (\<lambda>t. part id (\<lambda>f. f) (SessionRepository_Delete t))\<rparr>,
      sm_ttl = sm_ttl m\<rparr>"

definition sessions_configured :: "'w session_manager \<Rightarrow> 'w SessionRepository \<Rightarrow> bool" where
  "sessions_configured m r \<longleftrightarrow> SessionRepository.CreateFunc r = Some (sess_Create (sm_repo m)) \<and>
     GetByTokenFunc r = Some (sess_GetByToken (sm_repo m)) \<and> SessionRepository.DeleteFunc r = Some (sess_Delete (sm_repo m))"

lemma session_double_relays:
  "relays (sessions_configured m) (sess_Create (sm_repo (sessions_on_bench m)) d t) (sess_Create (sm_repo m) d t) (\<lambda>_. sessions_configured m)"
  "relays (sessions_configured m) (sess_GetByToken (sm_repo (sessions_on_bench m)) k) (sess_GetByToken (sm_repo m) k) (\<lambda>_. sessions_configured m)"
  "relays (sessions_configured m) (sess_Delete (sm_repo (sessions_on_bench m)) k) (sess_Delete (sm_repo m) k) (\<lambda>_. sessions_configured m)"
  by (auto simp: sessions_on_bench_def SessionRepository_Create_def SessionRepository_GetByToken_def SessionRepository_Delete_def
      sessions_configured_def relays_def part_def invoke_configured case_prod_beta)

lemma sessions_on_bench_simps [simp]:
  "sm_tracer (sessions_on_bench m) = beside (sm_tracer m)" "sm_meter (sessions_on_bench m) ev = apsnd (sm_meter m ev)"
  "Warn (sm_log (sessions_on_bench m)) t f = apsnd (Warn (sm_log m) t f)" "sm_ttl (sessions_on_bench m) = sm_ttl m"
  by (simp_all add: fun_eq_iff sessions_on_bench_def beside_def Warn_def)

lemma GenerateToken_relays: "relays P (GenerateToken (beside_host h) n) (GenerateToken h n) (\<lambda>_. P)"
  unfolding GenerateToken_def beside_host_def host.simps
  by (rule relays_attempt [OF relays_aside]) (auto intro: relays_fail relays_return)

lemmas session_relays_rules = relays_with_span relays_if relays_perform relays_fail relays_return
  relays_attempt [OF session_double_relays(1)] relays_attempt [OF session_double_relays(2)] relays_attempt [OF session_double_relays(3)]
  relays_attempt [OF GenerateToken_relays]

lemma Now_beside [simp]: "Now (beside_host h) (b, w) = Now h w"
  by (simp add: beside_host_def)

lemma session_Revoke_relays:
  "relays (sessions_configured m) (session_Revoke (sessions_on_bench m) token) (session_Revoke m token) (\<lambda>_. sessions_configured m)"
  unfolding session_Revoke_def sessions_on_bench_simps by (intro session_relays_rules) auto

lemma session_Validate_relays:
  "relays (sessions_configured m) (session_Validate (beside_host h) (sessions_on_bench m) errv token) (session_Validate h m errv token) (\<lambda>_. sessions_configured m)"
  unfolding session_Validate_def sessions_on_bench_simps
  by (intro session_relays_rules relays_if_read) auto

lemma session_Create_relays:
  "relays (sessions_configured m) (session_Create (beside_host h) (sessions_on_bench m) i) (session_Create h m i) (\<lambda>_. sessions_configured m)"
  unfolding session_Create_def sessions_on_bench_simps Let_def
  by (rule relays_with_span, rule relays_attempt [OF GenerateToken_relays])
    (auto intro!: relays_read [where g = "Now h" and g' = "Now (beside_host h)", rotated] session_relays_rules(3-6))

end
