(* ===== verification/Test_Telemetry.thy ===== *)
theory Test_Telemetry
  imports Test_Doubles Telemetry_Adapters "HOL-Library.Multiset" "HOL-Library.Sublist"
begin

text \<open>
  The test doubles of the telemetry interfaces (\<^verbatim>\<open>loggertest\<close>, \<^verbatim>\<open>observabilitytest\<close>): logger, log emitter,
  tracer, span and runtime are configurable doubles as in \<open>Test_Doubles\<close>, and \<^verbatim>\<open>RecordingMeter\<close> keeps the samples of every
  instrument. Logger, emitter and meter take a mutex for their bookkeeping, so goroutines that share one interleave whole records;
  the last sections show that nothing is lost or reordered.
\<close>

section \<open>loggertest\<close>

record LogCall =
  lc_Context :: ctx
  lc_Message :: string
  lc_Fields :: "fields list"

record ErrorCall =
  ec_Context :: ctx
  ec_Message :: string
  ec_Err :: "error option"
  ec_Fields :: "fields list"

record 'w Logger =
  DebugFunc :: "(ctx \<Rightarrow> string \<Rightarrow> fields list \<Rightarrow> 'w \<Rightarrow> 'w) option"
  DebugCalls :: "LogCall list"
  InfoFunc :: "(ctx \<Rightarrow> string \<Rightarrow> fields list \<Rightarrow> 'w \<Rightarrow> 'w) option"
  InfoCalls :: "LogCall list"
  WarnFunc :: "(ctx \<Rightarrow> string \<Rightarrow> fields list \<Rightarrow> 'w \<Rightarrow> 'w) option"
  WarnCalls :: "LogCall list"
  ErrorFunc :: "(ctx \<Rightarrow> string \<Rightarrow> error option \<Rightarrow> fields list \<Rightarrow> 'w \<Rightarrow> 'w) option"
  ErrorCalls :: "ErrorCall list"
  ErrorNoStackFunc :: "(ctx \<Rightarrow> string \<Rightarrow> error option \<Rightarrow> fields list \<Rightarrow> 'w \<Rightarrow> 'w) option"
  ErrorNoStackCalls :: "ErrorCall list"
  SetLogSinkFunc :: "((ctx \<Rightarrow> severity \<Rightarrow> string \<Rightarrow> fields list \<Rightarrow> 'w \<Rightarrow> 'w) option \<Rightarrow> 'w \<Rightarrow> 'w) option"
  SetLogSinkCalls :: nat
  SetLogSinkSink :: "(ctx \<Rightarrow> severity \<Rightarrow> string \<Rightarrow> fields list \<Rightarrow> 'w \<Rightarrow> 'w) option"
  SetContextFieldsProviderFunc :: "((ctx \<Rightarrow> fields) option \<Rightarrow> 'w \<Rightarrow> 'w) option"
  SetContextFieldsProviderCalls :: nat
  SetContextFieldsProviderProvider :: "(ctx \<Rightarrow> fields) option"
  SyncFunc :: "('w, unit) eff option"
  SyncCalls :: nat

definition recordLogCall :: "ctx \<Rightarrow> string \<Rightarrow> fields list \<Rightarrow> LogCall list \<Rightarrow> LogCall list" where
  "recordLogCall c message fs calls = calls @ [\<lparr>lc_Context = c, lc_Message = message, lc_Fields = fs\<rparr>]"

definition recordErrorCall :: "ctx \<Rightarrow> string \<Rightarrow> error option \<Rightarrow> fields list \<Rightarrow> ErrorCall list \<Rightarrow> ErrorCall list" where
  "recordErrorCall c message e fs calls = calls @ [\<lparr>ec_Context = c, ec_Message = message, ec_Err = e, ec_Fields = fs\<rparr>]"

text \<open>A method without result.\<close>

definition procedure :: "('w \<Rightarrow> 'w) \<Rightarrow> 'w \<Rightarrow> unit \<times> 'w" where
  "procedure f w = ((), f w)"

definition Logger_Debug :: "ctx \<Rightarrow> string \<Rightarrow> fields list \<Rightarrow> ('w Logger, 'w, unit) double_call" where
  "Logger_Debug c message fs = invoke ''unexpected Logger.Debug call''
     (\<lambda>l. l\<lparr>DebugCalls := recordLogCall c message fs (DebugCalls l)\<rparr>)
     (\<lambda>l. map_option (\<lambda>f. procedure (f c message fs)) (DebugFunc l))"

definition Logger_Info :: "ctx \<Rightarrow> string \<Rightarrow> fields list \<Rightarrow> ('w Logger, 'w, unit) double_call" where
  "Logger_Info c message fs = invoke ''unexpected Logger.Info call''
     (\<lambda>l. l\<lparr>InfoCalls := recordLogCall c message fs (InfoCalls l)\<rparr>)
     (\<lambda>l. map_option (\<lambda>f. procedure (f c message fs)) (InfoFunc l))"

definition Logger_Warn :: "ctx \<Rightarrow> string \<Rightarrow> fields list \<Rightarrow> ('w Logger, 'w, unit) double_call" where
  "Logger_Warn c message fs = invoke ''unexpected Logger.Warn call''
     (\<lambda>l. l\<lparr>WarnCalls := recordLogCall c message fs (WarnCalls l)\<rparr>)
     (\<lambda>l. map_option (\<lambda>f. procedure (f c message fs)) (WarnFunc l))"

definition Logger_Error :: "ctx \<Rightarrow> string \<Rightarrow> error option \<Rightarrow> fields list \<Rightarrow> ('w Logger, 'w, unit) double_call" where
  "Logger_Error c message e fs = invoke ''unexpected Logger.Error call''
     (\<lambda>l. l\<lparr>ErrorCalls := recordErrorCall c message e fs (ErrorCalls l)\<rparr>)
     (\<lambda>l. map_option (\<lambda>f. procedure (f c message e fs)) (ErrorFunc l))"

definition Logger_ErrorNoStack :: "ctx \<Rightarrow> string \<Rightarrow> error option \<Rightarrow> fields list \<Rightarrow> ('w Logger, 'w, unit) double_call" where
  "Logger_ErrorNoStack c message e fs = invoke ''unexpected Logger.ErrorNoStack call''
     (\<lambda>l. l\<lparr>ErrorNoStackCalls := recordErrorCall c message e fs (ErrorNoStackCalls l)\<rparr>)
     (\<lambda>l. map_option (\<lambda>f. procedure (f c message e fs)) (ErrorNoStackFunc l))"

definition Logger_SetLogSink :: "(ctx \<Rightarrow> severity \<Rightarrow> string \<Rightarrow> fields list \<Rightarrow> 'w \<Rightarrow> 'w) option \<Rightarrow> ('w Logger, 'w, unit) double_call" where
  "Logger_SetLogSink sink = invoke ''unexpected Logger.SetLogSink call''
     (\<lambda>l. l\<lparr>SetLogSinkCalls := SetLogSinkCalls l + 1, SetLogSinkSink := sink\<rparr>)
     (\<lambda>l. map_option (\<lambda>f. procedure (f sink)) (SetLogSinkFunc l))"

definition Logger_SetContextFieldsProvider :: "(ctx \<Rightarrow> fields) option \<Rightarrow> ('w Logger, 'w, unit) double_call" where
  "Logger_SetContextFieldsProvider provider = invoke ''unexpected Logger.SetContextFieldsProvider call''
     (\<lambda>l. l\<lparr>SetContextFieldsProviderCalls := SetContextFieldsProviderCalls l + 1, SetContextFieldsProviderProvider := provider\<rparr>)
     (\<lambda>l. map_option (\<lambda>f. procedure (f provider)) (SetContextFieldsProviderFunc l))"

definition Logger_Sync :: "('w Logger, 'w, error + unit) double_call" where
  "Logger_Sync = invoke ''unexpected Logger.Sync call'' (\<lambda>l. l\<lparr>SyncCalls := SyncCalls l + 1\<rparr>) SyncFunc"

section \<open>observabilitytest: emitter, tracer, span, runtime\<close>

record LogEmitCall =
  le_Context :: ctx
  le_Severity :: severity
  le_Message :: string
  le_Fields :: "fields list"

record 'w LogEmitter =
  EmitFunc :: "(ctx \<Rightarrow> severity \<Rightarrow> string \<Rightarrow> fields list \<Rightarrow> 'w \<Rightarrow> 'w) option"
  EmitCalls :: "LogEmitCall list"

definition LogEmitter_Emit :: "ctx \<Rightarrow> severity \<Rightarrow> string \<Rightarrow> fields list \<Rightarrow> ('w LogEmitter, 'w, unit) double_call" where
  "LogEmitter_Emit c sev message fs = invoke ''unexpected LogEmitter.Emit call''
     (\<lambda>e. e\<lparr>EmitCalls := EmitCalls e @ [\<lparr>le_Context = c, le_Severity = sev, le_Message = message, le_Fields = fs\<rparr>]\<rparr>)
     (\<lambda>e. map_option (\<lambda>f. procedure (f c sev message fs)) (EmitFunc e))"

text \<open>\<open>'s\<close> are spans and \<open>'k\<close> are carriers, both references.\<close>

record ('w, 's, 'k) Tracer =
  StartFunc :: "(ctx \<Rightarrow> string \<Rightarrow> string \<Rightarrow> fields list \<Rightarrow> 'w \<Rightarrow> (ctx \<times> 's) \<times> 'w) option"
  StartCalls :: nat
  StartScope :: string
  StartSpanName :: string
  StartFields :: "fields list"
  StartServerFunc :: "(ctx \<Rightarrow> string \<Rightarrow> string \<Rightarrow> fields list \<Rightarrow> 'w \<Rightarrow> (ctx \<times> 's) \<times> 'w) option"
  StartServerCalls :: nat
  StartServerScope :: string
  StartServerSpanName :: string
  StartServerFields :: "fields list"
  StartClientFunc :: "(ctx \<Rightarrow> string \<Rightarrow> string \<Rightarrow> fields list \<Rightarrow> 'w \<Rightarrow> (ctx \<times> 's) \<times> 'w) option"
  StartClientCalls :: nat
  StartClientScope :: string
  StartClientSpanName :: string
  StartClientFields :: "fields list"
  ExtractFunc :: "(ctx \<Rightarrow> 'k \<Rightarrow> 'w \<Rightarrow> ctx \<times> 'w) option"
  ExtractCalls :: nat
  ExtractCarrier :: "'k option"
  InjectFunc :: "(ctx \<Rightarrow> 'k \<Rightarrow> 'w \<Rightarrow> 'w) option"
  InjectCalls :: nat
  InjectCarrier :: "'k option"
  TraceContextFunc :: "(ctx \<Rightarrow> 'w \<Rightarrow> (string \<times> string) option \<times> 'w) option"
  TraceContextCalls :: nat

definition Tracer_Start :: "ctx \<Rightarrow> string \<Rightarrow> string \<Rightarrow> fields list \<Rightarrow> (('w, 's, 'k) Tracer, 'w, ctx \<times> 's) double_call" where
  "Tracer_Start c scope spanName fs = invoke ''unexpected Tracer.Start call''
     (\<lambda>t. t\<lparr>StartCalls := StartCalls t + 1, StartScope := scope, StartSpanName := spanName, StartFields := fs\<rparr>)
     (\<lambda>t. map_option (\<lambda>f. f c scope spanName fs) (StartFunc t))"

definition Tracer_StartServer :: "ctx \<Rightarrow> string \<Rightarrow> string \<Rightarrow> fields list \<Rightarrow> (('w, 's, 'k) Tracer, 'w, ctx \<times> 's) double_call" where
  "Tracer_StartServer c scope spanName fs = invoke ''unexpected Tracer.StartServer call''
     (\<lambda>t. t\<lparr>StartServerCalls := StartServerCalls t + 1, StartServerScope := scope, StartServerSpanName := spanName, StartServerFields := fs\<rparr>)
     (\<lambda>t. map_option (\<lambda>f. f c scope spanName fs) (StartServerFunc t))"

definition Tracer_StartClient :: "ctx \<Rightarrow> string \<Rightarrow> string \<Rightarrow> fields list \<Rightarrow> (('w, 's, 'k) Tracer, 'w, ctx \<times> 's) double_call" where
  "Tracer_StartClient c scope spanName fs = invoke ''unexpected Tracer.StartClient call''
     (\<lambda>t. t\<lparr>StartClientCalls := StartClientCalls t + 1, StartClientScope := scope, StartClientSpanName := spanName, StartClientFields := fs\<rparr>)
     (\<lambda>t. map_option (\<lambda>f. f c scope spanName fs) (StartClientFunc t))"

definition Tracer_Extract :: "ctx \<Rightarrow> 'k \<Rightarrow> (('w, 's, 'k) Tracer, 'w, ctx) double_call" where
  "Tracer_Extract c carrier = invoke ''unexpected Tracer.Extract call''
     (\<lambda>t. t\<lparr>ExtractCalls := ExtractCalls t + 1, ExtractCarrier := Some carrier\<rparr>)
     (\<lambda>t. map_option (\<lambda>f. f c carrier) (ExtractFunc t))"

definition Tracer_Inject :: "ctx \<Rightarrow> 'k \<Rightarrow> (('w, 's, 'k) Tracer, 'w, unit) double_call" where
  "Tracer_Inject c carrier = invoke ''unexpected Tracer.Inject call''
     (\<lambda>t. t\<lparr>InjectCalls := InjectCalls t + 1, InjectCarrier := Some carrier\<rparr>)
     (\<lambda>t. map_option (\<lambda>f. procedure (f c carrier)) (InjectFunc t))"

definition Tracer_TraceContext :: "ctx \<Rightarrow> (('w, 's, 'k) Tracer, 'w, (string \<times> string) option) double_call" where
  "Tracer_TraceContext c = invoke ''unexpected Tracer.TraceContext call''
     (\<lambda>t. t\<lparr>TraceContextCalls := TraceContextCalls t + 1\<rparr>)
     (\<lambda>t. map_option (\<lambda>f. f c) (TraceContextFunc t))"

record SetAttributesCall =
  sa_Fields :: "fields list"

record FinishCall =
  fc_Err :: "error option"
  fc_Description :: "string list"

record 'w Span =
  SetAttributesFunc :: "(fields list \<Rightarrow> 'w \<Rightarrow> 'w) option"
  SetAttributesCalls :: "SetAttributesCall list"
  FinishFunc :: "(error option \<Rightarrow> string list \<Rightarrow> 'w \<Rightarrow> 'w) option"
  FinishCalls :: "FinishCall list"

definition Span_SetAttributes :: "fields list \<Rightarrow> ('w Span, 'w, unit) double_call" where
  "Span_SetAttributes fs = invoke ''unexpected Span.SetAttributes call''
     (\<lambda>s. s\<lparr>SetAttributesCalls := SetAttributesCalls s @ [\<lparr>sa_Fields = fs\<rparr>]\<rparr>)
     (\<lambda>s. map_option (\<lambda>f. procedure (f fs)) (SetAttributesFunc s))"

definition Span_Finish :: "error option \<Rightarrow> string list \<Rightarrow> ('w Span, 'w, unit) double_call" where
  "Span_Finish e description = invoke ''unexpected Span.Finish call''
     (\<lambda>s. s\<lparr>FinishCalls := FinishCalls s @ [\<lparr>fc_Err = e, fc_Description = description\<rparr>]\<rparr>)
     (\<lambda>s. map_option (\<lambda>f. procedure (f e description)) (FinishFunc s))"

text \<open>\<open>'l\<close>, \<open>'t\<close> and \<open>'m\<close> are the emitter, the tracer and the meter it hands out.\<close>

record ('w, 'l, 't, 'm) RuntimeDouble =
  LogEmitterFunc :: "('w \<Rightarrow> 'l \<times> 'w) option"
  LogEmitterCalls :: nat
  TracerFunc :: "('w \<Rightarrow> 't \<times> 'w) option"
  TracerCalls :: nat
  MeterFunc :: "('w \<Rightarrow> 'm \<times> 'w) option"
  MeterCalls :: nat
  ShutdownFunc :: "('w, unit) eff option"
  ShutdownCalls :: nat

definition RuntimeDouble_LogEmitter :: "(('w, 'l, 't, 'm) RuntimeDouble, 'w, 'l) double_call" where
  "RuntimeDouble_LogEmitter = invoke ''unexpected Runtime.LogEmitter call'' (\<lambda>r. r\<lparr>LogEmitterCalls := LogEmitterCalls r + 1\<rparr>) LogEmitterFunc"

definition RuntimeDouble_Tracer :: "(('w, 'l, 't, 'm) RuntimeDouble, 'w, 't) double_call" where
  "RuntimeDouble_Tracer = invoke ''unexpected Runtime.Tracer call'' (\<lambda>r. r\<lparr>TracerCalls := TracerCalls r + 1\<rparr>) TracerFunc"

definition RuntimeDouble_Meter :: "(('w, 'l, 't, 'm) RuntimeDouble, 'w, 'm) double_call" where
  "RuntimeDouble_Meter = invoke ''unexpected Runtime.Meter call'' (\<lambda>r. r\<lparr>MeterCalls := MeterCalls r + 1\<rparr>) MeterFunc"

definition RuntimeDouble_Shutdown :: "(('w, 'l, 't, 'm) RuntimeDouble, 'w, error + unit) double_call" where
  "RuntimeDouble_Shutdown = invoke ''unexpected Runtime.Shutdown call'' (\<lambda>r. r\<lparr>ShutdownCalls := ShutdownCalls r + 1\<rparr>) ShutdownFunc"

section \<open>observabilitytest: the recording meter\<close>

record MetricSample =
  ms_Value :: int
  ms_Fields :: fields

text \<open>\<open>'f\<close> are the 64-bit floats of a histogram; a name without samples reads as the empty slice.\<close>

record 'f HistogramSample =
  hs_Value :: 'f
  hs_Fields :: fields

record 'f RecordingMeter =
  counters :: "string \<rightharpoonup> MetricSample list"
  upDownCounters :: "string \<rightharpoonup> MetricSample list"
  histograms :: "string \<rightharpoonup> 'f HistogramSample list"

definition NewRecordingMeter :: "'f RecordingMeter" where
  "NewRecordingMeter = \<lparr>counters = Map.empty, upDownCounters = Map.empty, histograms = Map.empty\<rparr>"

definition slice :: "(string \<rightharpoonup> 'a list) \<Rightarrow> string \<Rightarrow> 'a list" where
  "slice m name = (case m name of None \<Rightarrow> [] | Some xs \<Rightarrow> xs)"

text \<open>An instrument refers to one of the meter's maps and keeps its own name; the options are ignored.\<close>

datatype samples_map = Counters_map | UpDownCounters_map

record recordingCounter =
  rc_name :: string
  rc_samples :: samples_map

record recordingHistogram =
  rh_name :: string

definition RecordingMeter_Counter :: "string \<Rightarrow> metric_option list \<Rightarrow> recordingCounter" where
  "RecordingMeter_Counter name options = \<lparr>rc_name = name, rc_samples = Counters_map\<rparr>"

definition RecordingMeter_UpDownCounter :: "string \<Rightarrow> metric_option list \<Rightarrow> recordingCounter" where
  "RecordingMeter_UpDownCounter name options = \<lparr>rc_name = name, rc_samples = UpDownCounters_map\<rparr>"

definition RecordingMeter_Histogram :: "string \<Rightarrow> metric_option list \<Rightarrow> recordingHistogram" where
  "RecordingMeter_Histogram name options = \<lparr>rh_name = name\<rparr>"

definition CounterSamples :: "'f RecordingMeter \<Rightarrow> string \<Rightarrow> MetricSample list" where
  "CounterSamples m name = slice (counters m) name"

definition UpDownCounterSamples :: "'f RecordingMeter \<Rightarrow> string \<Rightarrow> MetricSample list" where
  "UpDownCounterSamples m name = slice (upDownCounters m) name"

definition HistogramSamples :: "'f RecordingMeter \<Rightarrow> string \<Rightarrow> 'f HistogramSample list" where
  "HistogramSamples m name = slice (histograms m) name"

definition recordingCounter_Add :: "recordingCounter \<Rightarrow> int \<Rightarrow> fields list \<Rightarrow> 'f RecordingMeter \<Rightarrow> 'f RecordingMeter" where
  "recordingCounter_Add c v fs m =
     (let put = (\<lambda>samples. samples(rc_name c \<mapsto> slice samples (rc_name c) @ [\<lparr>ms_Value = v, ms_Fields = OptionalFields fs\<rparr>]))
      in case rc_samples c of Counters_map \<Rightarrow> m\<lparr>counters := put (counters m)\<rparr>
         | UpDownCounters_map \<Rightarrow> m\<lparr>upDownCounters := put (upDownCounters m)\<rparr>)"

definition recordingHistogram_Record :: "recordingHistogram \<Rightarrow> 'f \<Rightarrow> fields list \<Rightarrow> 'f RecordingMeter \<Rightarrow> 'f RecordingMeter" where
  "recordingHistogram_Record h v fs m =
     m\<lparr>histograms := (histograms m)(rh_name h \<mapsto> slice (histograms m) (rh_name h) @ [\<lparr>hs_Value = v, hs_Fields = OptionalFields fs\<rparr>])\<rparr>"

section \<open>Goroutines that share a recorder\<close>

text \<open>
  Each goroutine has a list of calls still to make; a turn is one goroutine making its next call. The mutex makes the
  bookkeeping of a call one step.
\<close>

inductive turn :: "('c \<Rightarrow> 'd \<Rightarrow> 'd) \<Rightarrow> 'c list list \<times> 'd \<Rightarrow> 'c list list \<times> 'd \<Rightarrow> bool" for act where
  turn: "i < length ps \<Longrightarrow> ps ! i = c # rest \<Longrightarrow> turn act (ps, d) (ps[i := rest], act c d)"

inductive_cases turnE: "turn act (ps, d) t"

abbreviation turns :: "('c \<Rightarrow> 'd \<Rightarrow> 'd) \<Rightarrow> 'c list list \<times> 'd \<Rightarrow> 'c list list \<times> 'd \<Rightarrow> bool" where
  "turns act \<equiv> (turn act)\<^sup>*\<^sup>*"

definition emitted :: "('c \<Rightarrow> 'x list) \<Rightarrow> 'c list \<Rightarrow> 'x list" where
  "emitted emits cs = concat (map emits cs)"

text \<open>\<open>history\<close> is what a recorder has kept, \<open>emits\<close> what a call adds to its end.\<close>

locale recorder =
  fixes act :: "'c \<Rightarrow> 'd \<Rightarrow> 'd" and history :: "'d \<Rightarrow> 'x list" and emits :: "'c \<Rightarrow> 'x list"
  assumes act: "history (act c d) = history d @ emits c"
begin

text \<open>After any number of turns, every goroutine has made a first part of its calls, and what was added holds the output of all of them, each in order.\<close>

lemma turns_invariant:
  assumes "turns act (ps, d) (qs, d')"
  shows "length qs = length ps \<and> (\<exists>new made. history d' = history d @ new \<and> length made = length ps \<and>
    (\<forall>i < length ps. ps ! i = made ! i @ qs ! i \<and> subseq (emitted emits (made ! i)) new) \<and> mset new = (\<Sum>i < length ps. mset (emitted emits (made ! i))))"
  using assms
proof (induction rule: rtranclp_induct2)
  case refl
  show ?case
    by (intro conjI refl exI [of _ "[]"] exI [of _ "replicate (length ps) []"]) (simp_all add: emitted_def)
next
  case (step qs d1 rs d2)
  then obtain new made where IH: "length qs = length ps" "history d1 = history d @ new" "length made = length ps"
    "\<And>i. i < length ps \<Longrightarrow> ps ! i = made ! i @ qs ! i \<and> subseq (emitted emits (made ! i)) new" "mset new = (\<Sum>i < length ps. mset (emitted emits (made ! i)))"
    by auto
  obtain i c rest where turn: "i < length qs" "qs ! i = c # rest" "rs = qs[i := rest]" "d2 = act c d1"
    using step(2) by (auto elim: turnE)
  let ?made = "made[i := made ! i @ [c]]"
  have "(\<Sum>j < length ps. mset (emitted emits (?made ! j))) = (\<Sum>j < length ps. mset (emitted emits (made ! j)) + (if j = i then mset (emits c) else {#}))"
    using IH(1,3) turn(1) by (intro sum.cong) (auto simp: nth_list_update emitted_def)
  also have "\<dots> = mset (new @ emits c)"
    using IH(1,5) turn(1) by (simp add: sum.distrib)
  finally have "mset (new @ emits c) = (\<Sum>j < length ps. mset (emitted emits (?made ! j)))" ..
  moreover have "ps ! j = ?made ! j @ rs ! j \<and> subseq (emitted emits (?made ! j)) (new @ emits c)" if "j < length ps" for j
    using IH(4) [OF that] IH(1,3) turn that
    by (auto simp: nth_list_update emitted_def intro: list_emb_append_mono list_emb_append2 subseq_order.order_trans)
  ultimately show ?case
    using IH(1-3) turn by (intro conjI exI [of _ "new @ emits c"] exI [of _ ?made]) (auto simp: act)
qed

lemma complete_run:
  assumes "turns act (ps, d) (qs, d')" "\<forall>q \<in> set qs. q = []"
  obtains new where "history d' = history d @ new" "\<And>p. p \<in> set ps \<Longrightarrow> subseq (emitted emits p) new" "mset new = (\<Sum>p \<leftarrow> ps. mset (emitted emits p))"
proof -
  obtain new made where run: "length qs = length ps" "history d' = history d @ new" "length made = length ps"
    "\<And>i. i < length ps \<Longrightarrow> ps ! i = made ! i @ qs ! i \<and> subseq (emitted emits (made ! i)) new" "mset new = (\<Sum>i < length ps. mset (emitted emits (made ! i)))"
    using turns_invariant [OF assms(1)] by auto
  have "made ! i = ps ! i" if "i < length ps" for i
    using run(1,4) that assms(2) by (metis append_Nil2 nth_mem)
  then have "made = ps"
    using run(3) by (simp add: nth_equalityI)
  with run show thesis
    by (intro that [of new]) (auto simp: in_set_conv_nth sum_list_sum_nth atLeast0LessThan)
qed

end

section \<open>Nothing is lost\<close>

text \<open>A goroutine gets an instrument from the shared meter and records one value with it.\<close>

datatype 'f metric_call =
    Count string "metric_option list" int "fields list"
  | Count_UpDown string "metric_option list" int "fields list"
  | Observe string "metric_option list" 'f "fields list"

fun metric_act :: "'f metric_call \<Rightarrow> 'f RecordingMeter \<Rightarrow> 'f RecordingMeter" where
  "metric_act (Count name options v fs) = recordingCounter_Add (RecordingMeter_Counter name options) v fs"
| "metric_act (Count_UpDown name options v fs) = recordingCounter_Add (RecordingMeter_UpDownCounter name options) v fs"
| "metric_act (Observe name options v fs) = recordingHistogram_Record (RecordingMeter_Histogram name options) v fs"

fun counted :: "string \<Rightarrow> 'f metric_call \<Rightarrow> MetricSample list" where
  "counted n (Count name options v fs) = (if name = n then [\<lparr>ms_Value = v, ms_Fields = OptionalFields fs\<rparr>] else [])"
| "counted n _ = []"

fun counted_up_down :: "string \<Rightarrow> 'f metric_call \<Rightarrow> MetricSample list" where
  "counted_up_down n (Count_UpDown name options v fs) = (if name = n then [\<lparr>ms_Value = v, ms_Fields = OptionalFields fs\<rparr>] else [])"
| "counted_up_down n _ = []"

fun observed :: "string \<Rightarrow> 'f metric_call \<Rightarrow> 'f HistogramSample list" where
  "observed n (Observe name options v fs) = (if name = n then [\<lparr>hs_Value = v, hs_Fields = OptionalFields fs\<rparr>] else [])"
| "observed n _ = []"

lemmas recording_defs = recordingCounter_Add_def recordingHistogram_Record_def RecordingMeter_Counter_def RecordingMeter_UpDownCounter_def
  RecordingMeter_Histogram_def CounterSamples_def UpDownCounterSamples_def HistogramSamples_def slice_def Let_def

interpretation counter_recorder: recorder metric_act "\<lambda>m. CounterSamples m n" "counted n" for n
  by (unfold_locales, case_tac c) (auto simp: recording_defs split: option.splits)

interpretation up_down_recorder: recorder metric_act "\<lambda>m. UpDownCounterSamples m n" "counted_up_down n" for n
  by (unfold_locales, case_tac c) (auto simp: recording_defs split: option.splits)

interpretation histogram_recorder: recorder metric_act "\<lambda>m. HistogramSamples m n" "observed n" for n
  by (unfold_locales, case_tac c) (auto simp: recording_defs split: option.splits)

lemma NewRecordingMeter_empty [simp]:
  "CounterSamples NewRecordingMeter n = []" "UpDownCounterSamples NewRecordingMeter n = []" "HistogramSamples NewRecordingMeter n = []"
  by (simp_all add: CounterSamples_def UpDownCounterSamples_def HistogramSamples_def NewRecordingMeter_def slice_def)

text \<open>
  (C40) The recording meter loses nothing under concurrency: when goroutines that share a new meter have all made their calls, in whatever order
  they took turns, the samples read back for a counter are those recorded for it by all goroutines together, with their values and first
  field sets, no more and no less, and each goroutine's samples are there in the order it made them; the same holds of the counters that
  go down and of the histograms, and the three kinds do not mix even under one name.
\<close>

theorem recording_meter_exact:
  assumes "turns metric_act (ps, NewRecordingMeter) (qs, m)" "\<forall>q \<in> set qs. q = []"
  shows "mset (CounterSamples m n) = (\<Sum>p \<leftarrow> ps. mset (emitted (counted n) p)) \<and>
    mset (UpDownCounterSamples m n) = (\<Sum>p \<leftarrow> ps. mset (emitted (counted_up_down n) p)) \<and>
    mset (HistogramSamples m n) = (\<Sum>p \<leftarrow> ps. mset (emitted (observed n) p)) \<and>
    (\<forall>p \<in> set ps. subseq (emitted (counted n) p) (CounterSamples m n) \<and>
       subseq (emitted (counted_up_down n) p) (UpDownCounterSamples m n) \<and> subseq (emitted (observed n) p) (HistogramSamples m n))"
proof -
  have "mset (CounterSamples m n) = (\<Sum>p \<leftarrow> ps. mset (emitted (counted n) p)) \<and> (\<forall>p \<in> set ps. subseq (emitted (counted n) p) (CounterSamples m n))"
    by (rule counter_recorder.complete_run [OF assms, of n]) simp
  moreover have "mset (UpDownCounterSamples m n) = (\<Sum>p \<leftarrow> ps. mset (emitted (counted_up_down n) p)) \<and>
      (\<forall>p \<in> set ps. subseq (emitted (counted_up_down n) p) (UpDownCounterSamples m n))"
    by (rule up_down_recorder.complete_run [OF assms, of n]) simp
  moreover have "mset (HistogramSamples m n) = (\<Sum>p \<leftarrow> ps. mset (emitted (observed n) p)) \<and>
      (\<forall>p \<in> set ps. subseq (emitted (observed n) p) (HistogramSamples m n))"
    by (rule histogram_recorder.complete_run [OF assms, of n]) simp
  ultimately show ?thesis
    by simp
qed

theorem recording_meter_exact_witness:
  "let m = metric_act (Count ''hits'' [] 2 []) (metric_act (Observe ''hits'' [] (5 :: int) []) (metric_act (Count ''hits'' [] 1 []) NewRecordingMeter))
   in mset (CounterSamples m ''hits'') = {#\<lparr>ms_Value = 1, ms_Fields = None\<rparr>, \<lparr>ms_Value = 2, ms_Fields = None\<rparr>#} \<and>
      mset (HistogramSamples m ''hits'') = {#\<lparr>hs_Value = 5, hs_Fields = None\<rparr>#}"
proof -
  let ?ps = "[[Count ''hits'' [] 1 [], Count ''hits'' [] 2 []], [Observe ''hits'' [] (5 :: int) []]]"
  have "turn metric_act (?ps, NewRecordingMeter) ([[Count ''hits'' [] 2 []], [Observe ''hits'' [] 5 []]], metric_act (Count ''hits'' [] 1 []) NewRecordingMeter)"
    using turn [where act = metric_act and i = 0 and ps = ?ps and c = "Count ''hits'' [] 1 []" and d = NewRecordingMeter] by simp
  moreover have "turn metric_act ([[Count ''hits'' [] 2 []], [Observe ''hits'' [] 5 []]], k) ([[Count ''hits'' [] 2 []], []], metric_act (Observe ''hits'' [] 5 []) k)"
    for k :: "int RecordingMeter"
    using turn [where act = metric_act and i = 1 and ps = "[[Count ''hits'' [] 2 []], [Observe ''hits'' [] 5 []]]" and c = "Observe ''hits'' [] 5 []" and d = k] by simp
  moreover have "turn metric_act ([[Count ''hits'' [] 2 []], []], k) ([[], []], metric_act (Count ''hits'' [] 2 []) k)" for k :: "int RecordingMeter"
    using turn [where act = metric_act and i = 0 and ps = "[[Count ''hits'' [] 2 []], []]" and c = "Count ''hits'' [] 2 []" and d = k] by simp
  ultimately have "turns metric_act (?ps, NewRecordingMeter) ([[], []], metric_act (Count ''hits'' [] 2 []) (metric_act (Observe ''hits'' [] 5 [])
      (metric_act (Count ''hits'' [] 1 []) NewRecordingMeter)))"
    by (meson converse_rtranclp_into_rtranclp rtranclp.rtrancl_refl)
  from recording_meter_exact [OF this, of "''hits''"] show ?thesis
    by (simp add: Let_def emitted_def OptionalFields_def)
qed

text \<open>Warnings logged concurrently through one configured logger double are all recorded; its function acts on the world only.\<close>

definition warn_act :: "ctx \<times> string \<times> fields list \<Rightarrow> 'w Logger \<times> 'w \<Rightarrow> 'w Logger \<times> 'w" where
  "warn_act = (\<lambda>(c, message, fs) s. snd (Logger_Warn c message fs s))"

definition warned :: "ctx \<times> string \<times> fields list \<Rightarrow> LogCall list" where
  "warned = (\<lambda>(c, message, fs). [\<lparr>lc_Context = c, lc_Message = message, lc_Fields = fs\<rparr>])"

interpretation warn_recorder: recorder warn_act "\<lambda>s. WarnCalls (fst s)" warned
  by unfold_locales (auto simp: warn_act_def warned_def Logger_Warn_def invoke_def invoke_else_def recordLogCall_def Let_def case_prod_beta split: option.splits)

lemma warnings_recorded:
  assumes "turns warn_act (ps, l, w) (qs, l', w')" "\<forall>q \<in> set qs. q = []" "WarnCalls l = []"
  shows "length (WarnCalls l') = (\<Sum>p \<leftarrow> ps. length p)"
proof -
  obtain new where "WarnCalls l' = WarnCalls l @ new" "mset new = (\<Sum>p \<leftarrow> ps. mset (emitted warned p))"
    using warn_recorder.complete_run [OF assms(1,2)] by auto
  moreover have "length (emitted warned p) = length p" for p
    by (induction p) (auto simp: emitted_def warned_def)
  then have "size (\<Sum>p \<leftarrow> ps. mset (emitted warned p)) = (\<Sum>p \<leftarrow> ps. length p)"
    by (induction ps) simp_all
  ultimately show ?thesis
    using assms(3) by (simp flip: size_mset)
qed

end
