(* ===== verification/Spec2Isabelle.thy ===== *)
theory Spec2Isabelle
  imports Sliding_Window Retry Lifecycle Grpc_Client Profile_Selector Object_Storage Telemetry_Adapters Wiring
    Rpc_End_To_End Test_Telemetry
begin

text \<open>
  Verification of the Go service template under \<^verbatim>\<open>src/\<close>: two executables, \<^verbatim>\<open>cmd/httpapi\<close> and \<^verbatim>\<open>cmd/grpcapi\<close>, over shared
  usecases, repositories and infrastructure, a client library for outbound gRPC calls, and a tool that
  reduces the template to one profile. This theory imports the whole development.

  \<^bold>\<open>How the program is put together.\<close>
  A request enters the HTTP or the gRPC delivery (\<^verbatim>\<open>internal/delivery\<close>), passes its middleware or
  interceptors, and reaches a handler, which calls a usecase (\<^verbatim>\<open>internal/usecase\<close>). Usecases call repositories (interfaces under
  \<^verbatim>\<open>internal/repository\<close>), whose implementations (\<^verbatim>\<open>internal/infra\<close>) talk to Redis, PostgreSQL and external
  services. \<^verbatim>\<open>internal/app\<close> reads the configuration, acquires the resources, wires
  the layers and runs the process until it is told to stop.

  \<^bold>\<open>How it is modelled.\<close>
  A call with effects is a function from a world to an answer and a world, \<open>('w, 'a) eff\<close> of \<open>Prelude\<close>; errors are values of the
  datatype \<open>error\<close> (\<open>Go_Errors\<close>), so that every early return and wrapping of the source is a branch. The world (\<open>World\<close>) holds the clock,
  the state of Redis and of the database, the random bytes still to be drawn and the events emitted so far.
  Loggers, tracers and meters are sinks of events. Goroutines are interleaved as steps of inductive relations.
  Code that is not in the repository is a parameter: Redis through its commands (\<open>redis\<close>, with the laws of the locale \<open>redis_spec\<close> and an
  interpretation on a keyspace), SHA-256, the oauth2 client, the S3 client, Echo's router and own middleware, gRPC's transport,
  the TLS library, \<^verbatim>\<open>ParseDuration\<close> and \<^verbatim>\<open>ParseFloat\<close>. Durations are integers of nanoseconds; 32- and 64-bit conversions are written out
  where the source converts.

  \<^bold>\<open>The theories.\<close>

  \<^item> \<open>Prelude\<close>: effects, strings as Go treats them, lists and association lists; shared lemmas and their collections.
  \<^item> \<open>Go_Errors\<close>: \<^verbatim>\<open>internal/apperr\<close>, \<^verbatim>\<open>errutil\<close>, the sentinels of the repositories; wrapping, codes and cause chains.
  \<^item> \<open>Telemetry\<close>: the contracts of \<^verbatim>\<open>internal/logger\<close> and \<^verbatim>\<open>internal/observability\<close>, request identifiers, contexts, and the conversion of
    attributes and span outcomes. \<open>Telemetry_Adapters\<close>: the zap logger, the OpenTelemetry log emitter, meter and tracer, and how the runtime
    connects them. Its lemmas show that attributes keep their types, that a record is exported with the identifiers
    of its context, and that concurrent creations of an instrument agree on one.
  \<^item> \<open>Json\<close>: the encoding and decoding of the stored and returned values, with round trips.
  \<^item> \<open>World\<close>, \<open>Redis\<close>: the state of the platform and the Redis command interface with its laws.
  \<^item> \<open>Kv_Stores\<close>: the one-time password, session, OAuth state and user cache stores with their Lua scripts.
  \<^item> \<open>Token_Bucket\<close>, \<open>Sliding_Window\<close>: the rate limiters' scripts, store methods and the per-address usecase; bounds on the
    calls admitted over any run, with the rounding of Lua's numbers as an explicit error term.
  \<^item> \<open>User_Repo\<close>: the SQL statements on the users and connections tables, error classification, the PostgreSQL store and the
    read-through cache; the constraints of the tables and the agreement of the cache are invariants of every run.
  \<^item> \<open>Auth_Session\<close>, \<open>Auth_OTP\<close>, \<open>Auth_OAuth\<close>: the authentication usecases over those stores: authenticity and
    revocation of sessions, single use of codes and states, browser binding, verified identities.
  \<^item> \<open>Health\<close>, \<open>Health_Reporter\<close>: the health usecase and the goroutine that publishes its result to gRPC's health service.
  \<^item> \<open>Http\<close>, \<open>Binding\<close>, \<open>Http_Middleware\<close>, \<open>Http_Handlers\<close>: responses and server-sent events, the normalising binder, the middleware and
    the endpoints; error mapping, containment of panics, limiter refusals, cookies.
  \<^item> \<open>Grpc_Server\<close>: the responder, the interceptors and the diagnostics service; \<open>Grpc_Client\<close>: the outbound client with its request
    context, endpoint parser, tracing, metrics and completion log.
  \<^item> \<open>Trace_Propagation\<close>: carriers, server spans of both deliveries and the construction of the OpenTelemetry runtime; a trace continues
    from the client's span into the server's. The SDK's span creation and the W3C propagator are locales, the second interpreted on the header format.
  \<^item> \<open>Rpc_End_To_End\<close>: the generated stub and handler of the diagnostics service, and a call from the stub through the client's
    interceptors, a connection (the locale \<open>grpc_wire\<close>), the assembled server and its handler, and back.
  \<^item> \<open>Config\<close>: reading and validation of the environment, the TLS settings, and what the wiring derives from a configuration.
  \<^item> \<open>Wiring\<close>: the builders of both executables; the assembled servers run the chains the other theories are about.
  \<^item> \<open>Retry\<close>, \<open>Lifecycle\<close>: the retry helper, and acquisition, shutdown and exit of the processes.
  \<^item> \<open>Object_Storage\<close>: the R2 adapter as a refinement of a map of objects.
  \<^item> \<open>Profile_Selector\<close>: the tool \<^verbatim>\<open>tools/profile-selector\<close> over a file tree.
  \<^item> \<open>Test_Doubles\<close>, \<open>Test_Telemetry\<close>: the configurable doubles the tests replace repositories, use cases and telemetry by. A relational
    logic (\<open>relays\<close>) shows that a use case on configured doubles does what it does on what they delegate to; the recorders that goroutines
    share lose nothing.

  \<^bold>\<open>Bounds.\<close>
  The members of a JSON object are read with fuel, the length of the text, of which every member consumes at least one character, so that
  it does not run out. The loops of the source recurse over data or have a termination proof: the retry loop by its
  remaining attempts, the event stream over the ticks that arrive before its context ends. The waits of the rate limiter are rounded exactly
  below 97 days, where the conversion to a float keeps every second.

  \<^bold>\<open>What modelling showed.\<close>
  \<open>Token_Bucket.clock_skew_credits_twice\<close>, \<open>Config.sampling_ratio_not_a_number\<close>, \<open>Config.pool_size_wraps\<close>,
  \<open>Config.session_lifetime_zero\<close>, \<open>Grpc_Client.client_streaming_success_unrecorded\<close> and \<open>Trace_Propagation.baggage_not_injected\<close> exhibit
  inputs on which the code does not do what its comments, messages or documents say.

  \<^bold>\<open>Not modelled.\<close>
  Generated code (sqlc's scanning code, the OpenAPI and protobuf types and their reflection tables), except for the SQL statements and the stub and
  handler of the diagnostics service; the test fixtures that start a Redis or PostgreSQL server or make certificates (\<^verbatim>\<open>redistest\<close>, \<^verbatim>\<open>postgrestest\<close>,
  \<^verbatim>\<open>tlsconfigtest\<close>), which are input and output; the construction of the exporters and providers of the OpenTelemetry SDK beyond their
  acquisition and release; the network, the scheduler and wall-clock progress, beyond the choices that are
  parameters. Symbolic links are outside the file tree of the profile selector.
\<close>

end
